(* ===== verification/Prelude.thy ===== *)
theory Prelude
  imports Main "HOL-Library.Char_ord" "HOL-Library.List_Lexorder"
begin

text \<open>
  Shared ground of the development: the named collections, the parts of Python's \<open>str\<close>
  the program uses, the two SQL statement shapes (\<open>UPDATE .. WHERE\<close> as \<open>sql_update\<close>,
  \<open>SELECT .. WHERE\<close> as the library's \<open>filter\<close>) and the lemmas every component
  needs about them.

  A Python \<open>str\<close> is a \<open>string\<close>, one \<open>char\<close> per code point; code points above
  255 are outside the model.
\<close>

named_theorems table_simps \<open>equations of the SQL statements over the tables\<close>
named_theorems frame_simps \<open>columns and tables an operation leaves alone\<close>

section \<open>Python strings\<close>

text \<open>The code points \<open>str.isspace\<close> accepts below 256, which \<open>str.strip\<close> removes.\<close>

definition is_space :: "char \<Rightarrow> bool" where
  "is_space c \<longleftrightarrow> (of_char c :: nat) \<in> set [9, 10, 11, 12, 13, 28, 29, 30, 31, 32, 133, 160]"

text \<open>What \<open>bytes.lstrip\<close> removes: ASCII white space only.\<close>

definition is_ascii_space :: "char \<Rightarrow> bool" where
  "is_ascii_space c \<longleftrightarrow> (of_char c :: nat) \<in> set [9, 10, 11, 12, 13, 32]"

definition bytes_lstrip :: "string \<Rightarrow> string" where
  "bytes_lstrip s = dropWhile is_ascii_space s"

definition py_strip :: "string \<Rightarrow> string" where
  "py_strip s = rev (dropWhile is_space (rev (dropWhile is_space s)))"

text \<open>The code points below 256 at which \<open>str.splitlines\<close> ends a line.\<close>

definition is_linebreak :: "char \<Rightarrow> bool" where
  "is_linebreak c \<longleftrightarrow> (of_char c :: nat) \<in> set [10, 11, 12, 13, 28, 29, 30, 133]"

text \<open>
  \<open>str.splitlines()\<close>: \<open>acc\<close> is the current line, reversed. A carriage return and
  the line feed after it end one line, and a trailing line break opens no empty line.
\<close>

function split_lines :: "string \<Rightarrow> string \<Rightarrow> string list" where
  "split_lines acc [] = (if acc = [] then [] else [rev acc])"
| "split_lines acc (c # cs) =
     (if is_linebreak c
      then rev acc # split_lines []
             (if c = CHR 0x0D \<and> cs \<noteq> [] \<and> hd cs = CHR 0x0A then tl cs else cs)
      else split_lines (c # acc) cs)"
  by pat_completeness auto
termination
  by (relation "measure (\<lambda>(acc, s). length s)") auto

definition splitlines :: "string \<Rightarrow> string list" where
  "splitlines s = split_lines [] s"

fun py_join :: "string \<Rightarrow> string list \<Rightarrow> string" where
  "py_join sep [] = []"
| "py_join sep [x] = x"
| "py_join sep (x # y # xs) = x @ sep @ py_join sep (y # xs)"

lemma py_join_Cons: "py_join sep (x # xs) = x @ concat (map (\<lambda>y. sep @ y) xs)"
  by (induction xs arbitrary: x) simp_all

text \<open>\<open>s.rsplit("/", 1)[-1]\<close>: what follows the last slash, all of it without one.\<close>

definition last_segment :: "string \<Rightarrow> string" where
  "last_segment s = rev (takeWhile (\<lambda>c. c \<noteq> CHR ''/'') (rev s))"

text \<open>\<open>needle in haystack\<close> on strings.\<close>

fun str_contains :: "string \<Rightarrow> string \<Rightarrow> bool" where
  "str_contains needle [] \<longleftrightarrow> needle = []"
| "str_contains needle (c # cs) \<longleftrightarrow>
     take (length needle) (c # cs) = needle \<or> str_contains needle cs"

definition to_lower_char :: "char \<Rightarrow> char" where
  "to_lower_char c =
     (let n = (of_char c :: nat) in if 65 \<le> n \<and> n \<le> 90 then char_of (n + 32) else c)"

definition digit_char :: "nat \<Rightarrow> char" where
  "digit_char d = char_of (48 + d)"

text \<open>\<open>str(n)\<close> for a non-negative integer.\<close>

fun nat_str :: "nat \<Rightarrow> string" where
  "nat_str n = (if n < 10 then [digit_char n] else nat_str (n div 10) @ [digit_char (n mod 10)])"

declare nat_str.simps [simp del]

definition int_str :: "int \<Rightarrow> string" where
  "int_str i = (if i < 0 then CHR ''-'' # nat_str (nat (- i)) else nat_str (nat i))"

subsection \<open>Lines\<close>

lemma splitlines_Nil [simp]: "splitlines [] = []"
  by (simp add: splitlines_def)

lemma split_lines_no_break:
  "\<forall>c \<in> set l. \<not> is_linebreak c \<Longrightarrow> split_lines acc (l @ s) = split_lines (rev l @ acc) s"
  by (induction l arbitrary: acc) auto

lemma newline_is_linebreak [simp]: "is_linebreak (CHR 0x0A)"
  by (simp add: is_linebreak_def)

lemma splitlines_line:
  assumes "\<forall>c \<in> set l. \<not> is_linebreak c"
  shows "splitlines (l @ CHR 0x0A # s) = l # splitlines s"
  using assms by (simp add: splitlines_def split_lines_no_break)

text \<open>The lines of a text written one per line are read back as they were written.\<close>

lemma splitlines_join:
  assumes "\<And>l. l \<in> set ls \<Longrightarrow> \<forall>c \<in> set l. \<not> is_linebreak c"
  shows "ls \<noteq> [] \<Longrightarrow> splitlines (py_join [CHR 0x0A] ls @ [CHR 0x0A]) = ls"
  using assms
proof (induction ls rule: induct_list012)
  case (2 l)
  then show ?case using splitlines_line [of l "[]"] by simp
next
  case (3 l k ls)
  then show ?case
    using splitlines_line [of l "py_join [CHR 0x0A] (k # ls) @ [CHR 0x0A]"] by fastforce
qed simp

subsection \<open>Decimal numerals\<close>

lemma nat_str_nonempty [simp]: "nat_str n \<noteq> []"
  by (subst nat_str.simps) simp

lemma digit_char_eq_iff:
  assumes "d < 10" and "e < 10"
  shows "digit_char d = digit_char e \<longleftrightarrow> d = e"
proof
  assume "digit_char d = digit_char e"
  then have "(of_char (digit_char d) :: nat) = of_char (digit_char e)" by simp
  then show "d = e" using assms by (simp add: digit_char_def)
qed simp

lemma nat_str_last: "last (nat_str n) = digit_char (n mod 10)"
  by (subst nat_str.simps) simp

lemma nat_str_butlast: "butlast (nat_str n) = (if n < 10 then [] else nat_str (n div 10))"
  by (subst nat_str.simps) simp

text \<open>Two numbers with one decimal text are equal, so generated names never collide.\<close>

lemma nat_str_inject [simp]: "nat_str m = nat_str n \<longleftrightarrow> m = n"
proof
  show "nat_str m = nat_str n \<Longrightarrow> m = n"
  proof (induction m arbitrary: n rule: less_induct)
    case (less m)
    have "digit_char (m mod 10) = digit_char (n mod 10)"
      using less.prems nat_str_last by metis
    then have low: "m mod 10 = n mod 10" by (simp add: digit_char_eq_iff)
    have high: "(if m < 10 then [] else nat_str (m div 10)) = (if n < 10 then [] else nat_str (n div 10))"
      using less.prems nat_str_butlast by metis
    show ?case
    proof (cases "m < 10")
      case True
      with high have "n < 10" by (metis nat_str_nonempty)
      with True low show ?thesis by simp
    next
      case False
      with high have "\<not> n < 10" and "nat_str (m div 10) = nat_str (n div 10)"
        by (metis nat_str_nonempty)+
      with False less.IH have "m div 10 = n div 10" by simp
      with low show ?thesis by (metis div_mult_mod_eq)
    qed
  qed
qed simp

lemma length_nat_str_le: "n < 10 ^ k \<Longrightarrow> 0 < k \<Longrightarrow> length (nat_str n) \<le> k"
proof (induction k arbitrary: n)
  case (Suc k)
  show ?case
  proof (cases "n < 10")
    case True
    then show ?thesis by (subst nat_str.simps) simp
  next
    case False
    with Suc.prems have "0 < k" by (cases k) auto
    moreover have "n div 10 < 10 ^ k" using Suc.prems by auto
    ultimately have "length (nat_str (n div 10)) \<le> k" by (rule Suc.IH [rotated])
    with False show ?thesis by (subst nat_str.simps) simp
  qed
qed simp

lemma last_segment_append:
  "CHR ''/'' \<notin> set b \<Longrightarrow> last_segment (a @ CHR ''/'' # b) = b"
  by (auto simp: last_segment_def takeWhile_append)

section \<open>SQL statements over a table\<close>

text \<open>\<open>UPDATE t SET f WHERE P\<close>: every matching row is rewritten in place.\<close>

definition sql_update :: "('r \<Rightarrow> bool) \<Rightarrow> ('r \<Rightarrow> 'r) \<Rightarrow> 'r list \<Rightarrow> 'r list" where
  "sql_update P f rows = map (\<lambda>r. if P r then f r else r) rows"

text \<open>The row count the statement reports.\<close>

definition row_count :: "('r \<Rightarrow> bool) \<Rightarrow> 'r list \<Rightarrow> nat" where
  "row_count P rows = length (filter P rows)"

lemma sql_update_Nil [simp]: "sql_update P f [] = []"
  by (simp add: sql_update_def)

lemma sql_update_Cons [simp]:
  "sql_update P f (r # rows) = (if P r then f r else r) # sql_update P f rows"
  by (simp add: sql_update_def)

lemma length_sql_update [simp]: "length (sql_update P f rows) = length rows"
  by (simp add: sql_update_def)

lemma set_sql_update:
  "set (sql_update P f rows) = (\<lambda>r. if P r then f r else r) ` set rows"
  by (simp add: sql_update_def)

lemma map_sql_update [table_simps]:
  "(\<And>r. g (f r) = g r) \<Longrightarrow> map g (sql_update P f rows) = map g rows"
  by (induction rows) auto

lemma sql_update_none: "\<forall>r \<in> set rows. \<not> P r \<Longrightarrow> sql_update P f rows = rows"
  by (induction rows) auto

lemma sql_update_cong:
  "(\<And>r. r \<in> set rows \<Longrightarrow> P r = Q r) \<Longrightarrow> (\<And>r. r \<in> set rows \<Longrightarrow> Q r \<Longrightarrow> f r = g r) \<Longrightarrow>
   sql_update P f rows = sql_update Q g rows"
  by (induction rows) auto

lemma row_count_0_iff: "row_count P rows = 0 \<longleftrightarrow> (\<forall>r \<in> set rows. \<not> P r)"
  by (induction rows) (auto simp: row_count_def)

lemma filter_sql_update_other:
  "(\<And>r. P r \<Longrightarrow> Q (f r) = Q r) \<Longrightarrow> (\<And>r. Q r \<Longrightarrow> \<not> P r) \<Longrightarrow>
   filter Q (sql_update P f rows) = filter Q rows"
  by (induction rows) auto

lemma row_count_le: "row_count P rows \<le> length rows"
  by (simp add: row_count_def)

section \<open>Lists\<close>

lemma distinct_map_unique:
  "distinct (map g xs) \<Longrightarrow> x \<in> set xs \<Longrightarrow> y \<in> set xs \<Longrightarrow> g x = g y \<Longrightarrow> x = y"
  by (metis distinct_map inj_onD)

lemma sorted_wrt_sort_key:
  "sorted_wrt (\<lambda>x y. key x < key y) xs \<Longrightarrow> sort_key key xs = xs"
  by (rule sort_key_id_if_sorted)
     (auto simp: sorted_map intro: sorted_wrt_mono_rel [rotated])

lemma length_filter_less:
  "x \<in> set xs \<Longrightarrow> P x \<Longrightarrow> \<not> Q x \<Longrightarrow> (\<And>y. Q y \<Longrightarrow> P y) \<Longrightarrow>
   length (filter Q xs) < length (filter P xs)"
proof (induction xs)
  case (Cons a xs)
  have le: "length (filter Q xs) \<le> length (filter P xs)"
    using Cons.prems(4) by (induction xs) auto
  show ?case using Cons le by (cases "x = a") (auto simp: less_Suc_eq_le)
qed simp

end
