(* ===== verification/Schema.thy ===== *)
theory Schema
  imports Domain
begin

text \<open>
  The two tables of \<open>app/infrastructure/db/models.py\<close> and migration
  \<open>0001_initial.py\<close>: \<open>jobs\<close>, \<open>prompt_items\<close> and the sequence behind
  \<open>prompt_items.id\<close>. A table is the list of its rows in insertion order. Enum-valued
  columns hold the enum member: the code writes them through \<open>.value\<close> or as the SQL
  literals with the same text, and reads them back through the enum's constructor, which
  \<open>parse_item_status_value\<close> shows to be the inverse.

  \<open>db_wf\<close> collects the constraints the schema declares (primary keys, the foreign key,
  \<open>uq_prompt_items_job_external\<close>) with what every statement of the program keeps true
  beside them: ids grow in insertion order, and a claimed row carries its worker and lease.
\<close>

record job_row =
  j_id :: uuid
  j_state :: job_state
  j_input_path :: string
  j_model :: string
  j_total_items :: nat
  j_config :: "(string \<times> string) list"
  j_error :: "string option"
  j_created_at :: time
  j_updated_at :: time

record item_row =
  i_id :: nat
  i_job_id :: uuid
  i_external_id :: string
  i_prompt :: "string option"
  i_status :: item_status
  i_attempts :: nat
  i_worker_id :: "string option"
  i_lease_until :: "time option"
  i_chunk_id :: "string option"
  i_result_ref :: "string option"
  i_error :: "string option"
  i_created_at :: time
  i_updated_at :: time

record database =
  jobs :: "job_row list"
  items :: "item_row list"
  item_seq :: nat

definition empty_db :: database where
  "empty_db = \<lparr>jobs = [], items = [], item_seq = 1\<rparr>"

definition job_ids :: "database \<Rightarrow> uuid set" where
  "job_ids db = j_id ` set (jobs db)"

definition item_key :: "item_row \<Rightarrow> uuid \<times> string" where
  "item_key r = (i_job_id r, i_external_id r)"

text \<open>The width of the \<open>worker_id\<close> and \<open>chunk_id\<close> columns.\<close>

definition id_column_width :: nat where
  "id_column_width = 64"

definition row_wf :: "item_row \<Rightarrow> bool" where
  "row_wf r \<longleftrightarrow> (i_status r = I_CLAIMED \<longrightarrow> i_worker_id r \<noteq> None \<and> i_lease_until r \<noteq> None)"

definition db_wf :: "database \<Rightarrow> bool" where
  "db_wf db \<longleftrightarrow>
     distinct (map j_id (jobs db)) \<and>
     sorted_wrt (<) (map i_id (items db)) \<and>
     (\<forall>r \<in> set (items db). i_id r < item_seq db) \<and>
     distinct (map item_key (items db)) \<and>
     (\<forall>r \<in> set (items db). i_job_id r \<in> job_ids db) \<and>
     (\<forall>r \<in> set (items db). row_wf r)"

lemma db_wf_empty [simp]: "db_wf empty_db"
  by (simp add: db_wf_def empty_db_def)

lemma db_wf_row: "db_wf db \<Longrightarrow> r \<in> set (items db) \<Longrightarrow> row_wf r"
  by (simp add: db_wf_def)

lemma db_wf_ids_distinct: "db_wf db \<Longrightarrow> distinct (map i_id (items db))"
  by (simp add: db_wf_def strict_sorted_iff)

lemma row_by_id:
  "db_wf db \<Longrightarrow> r \<in> set (items db) \<Longrightarrow> r' \<in> set (items db) \<Longrightarrow> i_id r = i_id r' \<Longrightarrow> r = r'"
  using db_wf_ids_distinct distinct_map_unique by metis

lemma row_by_key:
  "db_wf db \<Longrightarrow> r \<in> set (items db) \<Longrightarrow> r' \<in> set (items db) \<Longrightarrow> item_key r = item_key r' \<Longrightarrow> r = r'"
  unfolding db_wf_def using distinct_map_unique by metis

text \<open>
  An \<open>UPDATE\<close> of \<open>prompt_items\<close> that leaves the id, the job and the external id of
  every row alone keeps the constraints when it keeps each row well formed. All statements of
  the queue go through this one lemma.
\<close>

definition update_items :: "(item_row \<Rightarrow> bool) \<Rightarrow> (item_row \<Rightarrow> item_row) \<Rightarrow> database \<Rightarrow> database" where
  "update_items P f db = db\<lparr>items := sql_update P f (items db)\<rparr>"

lemma update_items_frame [simp]:
  "jobs (update_items P f db) = jobs db"
  "item_seq (update_items P f db) = item_seq db"
  "items (update_items P f db) = sql_update P f (items db)"
  "job_ids (update_items P f db) = job_ids db"
  by (simp_all add: update_items_def job_ids_def)

definition keeps_identity :: "(item_row \<Rightarrow> item_row) \<Rightarrow> bool" where
  "keeps_identity f \<longleftrightarrow> (\<forall>r. i_id (f r) = i_id r \<and> i_job_id (f r) = i_job_id r \<and>
     i_external_id (f r) = i_external_id r)"

lemma db_wf_update_items:
  assumes wf: "db_wf db" and keep: "keeps_identity f"
    and row: "\<And>r. r \<in> set (items db) \<Longrightarrow> P r \<Longrightarrow> row_wf (f r)"
  shows "db_wf (update_items P f db)"
proof -
  have ids: "map i_id (sql_update P f (items db)) = map i_id (items db)"
    using keep by (simp add: map_sql_update keeps_identity_def)
  have keys: "map item_key (sql_update P f (items db)) = map item_key (items db)"
    using keep by (simp add: map_sql_update keeps_identity_def item_key_def)
  show ?thesis
    using wf keep row unfolding db_wf_def update_items_frame ids keys
    by (auto simp: set_sql_update keeps_identity_def)
qed

text \<open>A statement that touches no row is the identity.\<close>

lemma update_items_none: "\<forall>r \<in> set (items db). \<not> P r \<Longrightarrow> update_items P f db = db"
  by (simp add: update_items_def sql_update_none)

lemma row_after_update:
  "r \<in> set (items db) \<Longrightarrow> (if P r then f r else r) \<in> set (items (update_items P f db))"
  by (auto simp: set_sql_update)

lemma update_items_rowE:
  assumes "r' \<in> set (items (update_items P f db))"
  obtains r where "r \<in> set (items db)" "r' = (if P r then f r else r)"
  using assms by (auto simp: set_sql_update)

text \<open>A job with two rows, on which the examples of the development run.\<close>

definition demo_row :: "nat \<Rightarrow> string \<Rightarrow> item_row" where
  "demo_row n e = \<lparr>i_id = n, i_job_id = ''j'', i_external_id = e, i_prompt = Some ''hi'',
     i_status = I_PENDING, i_attempts = 0, i_worker_id = None, i_lease_until = None,
     i_chunk_id = None, i_result_ref = None, i_error = None, i_created_at = 0, i_updated_at = 0\<rparr>"

definition demo_db :: database where
  "demo_db = \<lparr>jobs = [\<lparr>j_id = ''j'', j_state = J_RUNNING, j_input_path = ''in'', j_model = ''m'',
       j_total_items = 2, j_config = [], j_error = None, j_created_at = 0, j_updated_at = 0\<rparr>],
     items = [demo_row 1 ''a'', demo_row 2 ''b''], item_seq = 3\<rparr>"

lemma demo_db_wf: "db_wf demo_db"
  by (simp add: demo_db_def demo_row_def db_wf_def job_ids_def item_key_def row_wf_def)

end
