(* ===== verification/WorkQueue.thy ===== *)
theory WorkQueue
  imports Schema
begin

text \<open>
  The durable work queue: \<open>PgWorkQueueRepository\<close> of
  \<open>app/infrastructure/db/repositories/work_queue_repository.py\<close>, each SQL statement as a
  function on the tables. \<open>now\<close> is PostgreSQL's \<open>now()\<close>, the start of the
  transaction; \<open>locked\<close> is the set of rows other open transactions hold row locks on,
  which \<open>FOR UPDATE SKIP LOCKED\<close> passes over.

  \<open>item_view\<close> is the abstract contract of the queue (a row waits, is held by a worker, or
  is finished), and the locale \<open>work_queue\<close> the port \<open>WorkQueueRepository\<close>
  as the worker sees it.
\<close>

section \<open>\<open>bulk_insert\<close>\<close>

record new_row =
  nr_external_id :: string
  nr_prompt :: "string option"
  nr_status :: item_status
  nr_error :: "string option"

definition pending_row :: "prompt_item \<Rightarrow> new_row" where
  "pending_row it =
     \<lparr>nr_external_id = pi_external_id it, nr_prompt = Some (pi_prompt it),
      nr_status = I_PENDING, nr_error = None\<rparr>"

definition failed_row :: "result_record \<Rightarrow> new_row" where
  "failed_row fr =
     \<lparr>nr_external_id = rr_external_id fr, nr_prompt = None,
      nr_status = I_FAILED, nr_error = rr_error fr\<rparr>"

definition has_row :: "uuid \<Rightarrow> string \<Rightarrow> database \<Rightarrow> bool" where
  "has_row job e db \<longleftrightarrow> (\<exists>r \<in> set (items db). i_job_id r = job \<and> i_external_id r = e)"

text \<open>One tuple of the \<open>INSERT\<close>; the sequence advances even when the row conflicts.\<close>

definition insert_row :: "uuid \<Rightarrow> time \<Rightarrow> new_row \<Rightarrow> database \<Rightarrow> database \<times> nat" where
  "insert_row job now n db =
     (if has_row job (nr_external_id n) db then (db\<lparr>item_seq := Suc (item_seq db)\<rparr>, 0)
      else (db\<lparr>items := items db @
                 [\<lparr>i_id = item_seq db, i_job_id = job, i_external_id = nr_external_id n,
                   i_prompt = nr_prompt n, i_status = nr_status n, i_attempts = 0,
                   i_worker_id = None, i_lease_until = None, i_chunk_id = None,
                   i_result_ref = None, i_error = nr_error n,
                   i_created_at = now, i_updated_at = now\<rparr>],
               item_seq := Suc (item_seq db)\<rparr>, 1))"

fun insert_rows :: "uuid \<Rightarrow> time \<Rightarrow> new_row list \<Rightarrow> database \<Rightarrow> database \<times> nat" where
  "insert_rows job now [] db = (db, 0)"
| "insert_rows job now (n # ns) db =
     (case insert_row job now n db of
        (db', k) \<Rightarrow> (case insert_rows job now ns db' of (db'', k') \<Rightarrow> (db'', k + k')))"

text \<open>PostgreSQL's \<open>text\<close> cannot hold the code point 0.\<close>

definition text_ok :: "string \<Rightarrow> bool" where
  "text_ok s \<longleftrightarrow> CHR 0x00 \<notin> set s"

definition new_row_ok :: "new_row \<Rightarrow> bool" where
  "new_row_ok n \<longleftrightarrow> text_ok (nr_external_id n) \<and>
     (case nr_prompt n of None \<Rightarrow> True | Some p \<Rightarrow> text_ok p) \<and>
     (case nr_error n of None \<Rightarrow> True | Some e \<Rightarrow> text_ok e)"

definition bulk_insert ::
  "uuid \<Rightarrow> prompt_item list \<Rightarrow> result_record list \<Rightarrow> time \<Rightarrow> database \<Rightarrow> exn + database \<times> nat" where
  "bulk_insert job its failed now db =
     (let rows = map pending_row its @ map failed_row failed
      in if rows = [] then Inr (db, 0)
         else if \<not> list_all new_row_ok rows then Inl (DataError ''invalid byte sequence: 0x00'')
         else if job \<notin> job_ids db then Inl (IntegrityError ''prompt_items_job_id_fkey'')
         else Inr (insert_rows job now rows db))"

section \<open>\<open>claim_chunk\<close>\<close>

text \<open>The \<open>WHERE\<close> clause; a null lease compares as unknown, so it selects nothing.\<close>

definition claimable :: "time \<Rightarrow> item_row \<Rightarrow> bool" where
  "claimable now r \<longleftrightarrow> i_status r = I_PENDING \<or>
     i_status r = I_CLAIMED \<and> (case i_lease_until r of None \<Rightarrow> False | Some t \<Rightarrow> t < now)"

text \<open>The common table expression \<open>claimed\<close>.\<close>

definition claim_select :: "uuid \<Rightarrow> nat \<Rightarrow> time \<Rightarrow> nat set \<Rightarrow> database \<Rightarrow> item_row list" where
  "claim_select job limit now locked db =
     take limit (filter (\<lambda>r. i_id r \<notin> locked)
       (sort_key i_id (filter (\<lambda>r. i_job_id r = job \<and> claimable now r) (items db))))"

definition lease_end :: "time \<Rightarrow> int \<Rightarrow> time" where
  "lease_end now lease_seconds = now + 1000000 * lease_seconds"

definition claim_row :: "string \<Rightarrow> int \<Rightarrow> time \<Rightarrow> item_row \<Rightarrow> item_row" where
  "claim_row worker lease_seconds now r =
     r\<lparr>i_status := I_CLAIMED, i_worker_id := Some worker,
       i_lease_until := Some (lease_end now lease_seconds),
       i_attempts := i_attempts r + 1, i_updated_at := now\<rparr>"

definition claimed_of :: "item_row \<Rightarrow> claimed_item" where
  "claimed_of r =
     \<lparr>ci_id = i_id r, ci_external_id = i_external_id r,
      ci_prompt = (case i_prompt r of None \<Rightarrow> [] | Some p \<Rightarrow> p), ci_attempts = i_attempts r\<rparr>"

definition claim_chunk ::
  "uuid \<Rightarrow> string \<Rightarrow> nat \<Rightarrow> int \<Rightarrow> time \<Rightarrow> nat set \<Rightarrow> database \<Rightarrow> database \<times> claimed_item list" where
  "claim_chunk job worker limit lease_seconds now locked db =
     (let sel = claim_select job limit now locked db;
          picked = map i_id sel
      in (update_items (\<lambda>r. i_id r \<in> set picked) (claim_row worker lease_seconds now) db,
          map (claimed_of \<circ> claim_row worker lease_seconds now) sel))"

section \<open>\<open>complete_items\<close>, \<open>renew_lease\<close> and the queries\<close>

definition owns :: "string \<Rightarrow> string \<Rightarrow> item_row \<Rightarrow> bool" where
  "owns worker e r \<longleftrightarrow> i_worker_id r = Some worker \<and> i_external_id r = e \<and> i_status r = I_CLAIMED"

definition complete_row :: "result_record \<Rightarrow> string \<Rightarrow> time \<Rightarrow> item_row \<Rightarrow> item_row" where
  "complete_row res result_ref now r =
     r\<lparr>i_status := rr_status res, i_result_ref := Some result_ref, i_error := rr_error res,
       i_attempts := rr_attempts res, i_chunk_id := Some (last_segment result_ref),
       i_updated_at := now\<rparr>"

fun complete_loop ::
  "string \<Rightarrow> result_record list \<Rightarrow> string \<Rightarrow> time \<Rightarrow> database \<times> nat \<Rightarrow> database \<times> nat" where
  "complete_loop worker [] result_ref now (db, count) = (db, count)"
| "complete_loop worker (r # rs) result_ref now (db, count) =
     complete_loop worker rs result_ref now
       (update_items (owns worker (rr_external_id r)) (complete_row r result_ref now) db,
        count + row_count (owns worker (rr_external_id r)) (items db))"

definition complete_items ::
  "string \<Rightarrow> result_record list \<Rightarrow> string \<Rightarrow> time \<Rightarrow> database \<Rightarrow> database \<times> nat" where
  "complete_items worker results result_ref now db =
     (if results = [] then (db, 0) else complete_loop worker results result_ref now (db, 0))"

definition renew_row :: "int \<Rightarrow> time \<Rightarrow> item_row \<Rightarrow> item_row" where
  "renew_row lease_seconds now r = r\<lparr>i_lease_until := Some (lease_end now lease_seconds)\<rparr>"

definition renew_lease :: "string \<Rightarrow> int \<Rightarrow> time \<Rightarrow> database \<Rightarrow> database" where
  "renew_lease worker lease_seconds now db =
     update_items (\<lambda>r. i_worker_id r = Some worker \<and> i_status r = I_CLAIMED)
       (renew_row lease_seconds now) db"

definition count_in :: "uuid \<Rightarrow> item_status \<Rightarrow> database \<Rightarrow> nat" where
  "count_in job s db = row_count (\<lambda>r. i_job_id r = job \<and> i_status r = s) (items db)"

text \<open>\<open>GROUP BY status\<close> yields a group only for the statuses that occur.\<close>

definition count_by_status :: "uuid \<Rightarrow> database \<Rightarrow> item_status \<Rightarrow> nat option" where
  "count_by_status job db s = (let n = count_in job s db in if n = 0 then None else Some n)"

definition has_open_work :: "uuid \<Rightarrow> time \<Rightarrow> database \<Rightarrow> bool" where
  "has_open_work job now db \<longleftrightarrow> (\<exists>r \<in> set (items db). i_job_id r = job \<and> claimable now r)"

section \<open>Frames\<close>

lemma keeps_identity_rows [simp]:
  "keeps_identity (claim_row w l now)" "keeps_identity (complete_row res ref now)"
  "keeps_identity (renew_row l now)"
  by (simp_all add: keeps_identity_def claim_row_def complete_row_def renew_row_def)

lemma claim_row_sel [simp]:
  "i_status (claim_row w l now r) = I_CLAIMED" "i_worker_id (claim_row w l now r) = Some w"
  "i_lease_until (claim_row w l now r) = Some (lease_end now l)"
  "i_id (claim_row w l now r) = i_id r" "i_job_id (claim_row w l now r) = i_job_id r"
  "i_external_id (claim_row w l now r) = i_external_id r"
  "i_result_ref (claim_row w l now r) = i_result_ref r"
  "i_prompt (claim_row w l now r) = i_prompt r"
  by (simp_all add: claim_row_def)

lemma complete_row_sel [simp]:
  "i_status (complete_row res ref now r) = rr_status res"
  "i_worker_id (complete_row res ref now r) = i_worker_id r"
  "i_lease_until (complete_row res ref now r) = i_lease_until r"
  "i_id (complete_row res ref now r) = i_id r" "i_job_id (complete_row res ref now r) = i_job_id r"
  "i_external_id (complete_row res ref now r) = i_external_id r"
  "i_result_ref (complete_row res ref now r) = Some ref"
  "i_error (complete_row res ref now r) = rr_error res"
  "i_attempts (complete_row res ref now r) = rr_attempts res"
  by (simp_all add: complete_row_def)

lemma renew_row_sel [simp]:
  "i_status (renew_row l now r) = i_status r" "i_worker_id (renew_row l now r) = i_worker_id r"
  "i_lease_until (renew_row l now r) = Some (lease_end now l)"
  "i_id (renew_row l now r) = i_id r" "i_job_id (renew_row l now r) = i_job_id r"
  "i_external_id (renew_row l now r) = i_external_id r"
  "i_result_ref (renew_row l now r) = i_result_ref r"
  by (simp_all add: renew_row_def)

lemma claimed_of_sel [simp]:
  "ci_id (claimed_of r) = i_id r" "ci_external_id (claimed_of r) = i_external_id r"
  by (simp_all add: claimed_of_def)

lemma claim_chunk_frame [frame_simps]:
  "jobs (fst (claim_chunk job w limit l now locked db)) = jobs db"
  "item_seq (fst (claim_chunk job w limit l now locked db)) = item_seq db"
  by (simp_all add: claim_chunk_def Let_def)

lemma complete_loop_frame:
  "jobs (fst (complete_loop w rs ref now (db, n))) = jobs db"
  "item_seq (fst (complete_loop w rs ref now (db, n))) = item_seq db"
  by (induction rs arbitrary: db n) simp_all

lemma complete_items_frame [frame_simps]:
  "jobs (fst (complete_items w rs ref now db)) = jobs db"
  "item_seq (fst (complete_items w rs ref now db)) = item_seq db"
  by (simp_all add: complete_items_def complete_loop_frame)

lemma renew_lease_frame [frame_simps]:
  "jobs (renew_lease w l now db) = jobs db" "item_seq (renew_lease w l now db) = item_seq db"
  by (simp_all add: renew_lease_def)

section \<open>Well-formedness\<close>

lemma insert_row_wf:
  assumes wf: "db_wf db" and job: "job \<in> job_ids db" and st: "nr_status n \<noteq> I_CLAIMED"
  shows "db_wf (fst (insert_row job now n db))"
proof (cases "has_row job (nr_external_id n) db")
  case True
  then show ?thesis using wf
    by (auto simp: insert_row_def db_wf_def job_ids_def intro: less_SucI)
next
  case False
  then show ?thesis using wf job st
    by (auto simp: insert_row_def db_wf_def job_ids_def has_row_def item_key_def row_wf_def
        sorted_wrt_append intro: less_SucI)
qed

lemma insert_row_frame [simp]:
  "jobs (fst (insert_row job now n db)) = jobs db"
  "job_ids (fst (insert_row job now n db)) = job_ids db"
  by (simp_all add: insert_row_def job_ids_def)

lemma insert_rows_Cons:
  "fst (insert_rows job now (n # ns) db) = fst (insert_rows job now ns (fst (insert_row job now n db)))"
  "snd (insert_rows job now (n # ns) db) =
     snd (insert_row job now n db) + snd (insert_rows job now ns (fst (insert_row job now n db)))"
  by (simp_all split: prod.splits)

lemma insert_rows_frame [frame_simps]:
  "jobs (fst (insert_rows job now ns db)) = jobs db"
  "job_ids (fst (insert_rows job now ns db)) = job_ids db"
  by (induction ns arbitrary: db) (simp_all add: insert_rows_Cons del: insert_rows.simps(2))

lemma insert_rows_wf:
  assumes "db_wf db" and "job \<in> job_ids db" and "\<forall>n \<in> set ns. nr_status n \<noteq> I_CLAIMED"
  shows "db_wf (fst (insert_rows job now ns db))"
  using assms
proof (induction ns arbitrary: db)
  case (Cons n ns)
  then show ?case by (simp only: insert_rows_Cons) (simp add: insert_row_wf)
qed simp

lemma bulk_insert_wf:
  assumes "db_wf db" and "bulk_insert job its failed now db = Inr (db', n)"
  shows "db_wf db'"
proof -
  let ?rows = "map pending_row its @ map failed_row failed"
  have st: "\<forall>n \<in> set ?rows. nr_status n \<noteq> I_CLAIMED"
    by (auto simp: pending_row_def failed_row_def)
  from assms(2) consider "db' = db" | "job \<in> job_ids db" "(db', n) = insert_rows job now ?rows db"
    by (auto simp: bulk_insert_def Let_def split: if_splits)
  then show ?thesis
  proof cases
    case 2
    then have "db' = fst (insert_rows job now ?rows db)" by (metis fst_conv)
    with insert_rows_wf [OF assms(1) 2(1) st, of now] show ?thesis by simp
  qed (use assms(1) in simp)
qed

lemma claim_chunk_wf:
  assumes "db_wf db"
  shows "db_wf (fst (claim_chunk job w limit l now locked db))"
  using assms by (simp add: claim_chunk_def Let_def db_wf_update_items row_wf_def)

definition results_terminal :: "result_record list \<Rightarrow> bool" where
  "results_terminal rs \<longleftrightarrow> list_all (\<lambda>r. is_terminal (rr_status r)) rs"

lemma complete_loop_wf:
  assumes "db_wf db" and "results_terminal rs"
  shows "db_wf (fst (complete_loop w rs ref now (db, n)))"
  using assms
proof (induction rs arbitrary: db n)
  case (Cons r rs)
  have "db_wf (update_items (owns w (rr_external_id r)) (complete_row r ref now) db)"
    using Cons.prems by (intro db_wf_update_items) (auto simp: row_wf_def results_terminal_def)
  with Cons show ?case by (simp add: results_terminal_def)
qed simp

lemma complete_items_wf:
  "db_wf db \<Longrightarrow> results_terminal rs \<Longrightarrow> db_wf (fst (complete_items w rs ref now db))"
  by (simp add: complete_items_def complete_loop_wf)

lemma renew_lease_wf: "db_wf db \<Longrightarrow> db_wf (renew_lease w l now db)"
  unfolding renew_lease_def by (rule db_wf_update_items) (auto simp: row_wf_def)

lemmas queue_wf = bulk_insert_wf claim_chunk_wf complete_items_wf renew_lease_wf

end
