(* ===== verification/QueueLaws.thy ===== *)
theory QueueLaws
  imports WorkQueue
begin

text \<open>
  The correctness of the queue's statements. \<open>item_view\<close> abstracts a row to what the
  protocol is about (waiting, held by a worker, finished), and each statement is proved to
  refine one function on these views. The locale \<open>work_queue\<close> states exactly these
  laws, for the client \<open>Worker\<close>, and is interpreted on the PostgreSQL model.
\<close>

section \<open>Rows by key\<close>

definition lookup_item :: "database \<Rightarrow> uuid \<Rightarrow> string \<Rightarrow> item_row option" where
  "lookup_item db job e = find (\<lambda>r. i_job_id r = job \<and> i_external_id r = e) (items db)"

lemma find_cong_key:
  "find P rows = Some r \<Longrightarrow> r \<in> set rows \<and> P r"
  by (induction rows) (auto split: if_splits)

lemma lookup_item_Some:
  "lookup_item db job e = Some r \<Longrightarrow> r \<in> set (items db) \<and> i_job_id r = job \<and> i_external_id r = e"
  unfolding lookup_item_def by (drule find_cong_key) simp

lemma lookup_item_wf:
  "db_wf db \<Longrightarrow> r \<in> set (items db) \<Longrightarrow> lookup_item db (i_job_id r) (i_external_id r) = Some r"
proof -
  assume wf: "db_wf db" and r: "r \<in> set (items db)"
  have "lookup_item db (i_job_id r) (i_external_id r) \<noteq> None"
    using r by (auto simp: lookup_item_def find_None_iff)
  then obtain r' where r': "lookup_item db (i_job_id r) (i_external_id r) = Some r'" by auto
  with lookup_item_Some [OF r'] r row_by_key [OF wf] show ?thesis
    by (metis item_key_def)
qed

lemma lookup_item_iff:
  "db_wf db \<Longrightarrow> lookup_item db job e = Some r \<longleftrightarrow>
     r \<in> set (items db) \<and> i_job_id r = job \<and> i_external_id r = e"
  using lookup_item_Some lookup_item_wf by metis

lemma has_row_iff: "has_row job e db \<longleftrightarrow> lookup_item db job e \<noteq> None"
  by (auto simp: has_row_def lookup_item_def find_None_iff)

lemma lookup_update_items [table_simps]:
  assumes "keeps_identity f"
  shows "lookup_item (update_items P f db) job e =
    (case lookup_item db job e of None \<Rightarrow> None | Some r \<Rightarrow> Some (if P r then f r else r))"
proof -
  have "find (\<lambda>r. i_job_id r = job \<and> i_external_id r = e) (sql_update P f rows) =
    (case find (\<lambda>r. i_job_id r = job \<and> i_external_id r = e) rows of
       None \<Rightarrow> None | Some r \<Rightarrow> Some (if P r then f r else r))" for rows
    using assms by (induction rows) (auto simp: keeps_identity_def)
  then show ?thesis by (simp add: lookup_item_def)
qed

section \<open>What \<open>claim_chunk\<close> selects\<close>

definition eligible :: "uuid \<Rightarrow> time \<Rightarrow> nat set \<Rightarrow> item_row \<Rightarrow> bool" where
  "eligible job now locked r \<longleftrightarrow> i_job_id r = job \<and> claimable now r \<and> i_id r \<notin> locked"

lemma sorted_wrt_filter_ids:
  "db_wf db \<Longrightarrow> sorted_wrt (\<lambda>x y. i_id x < i_id y) (filter P (items db))"
  by (rule sorted_wrt_filter) (simp add: db_wf_def sorted_wrt_map)

text \<open>Rows are stored in id order, so \<open>ORDER BY id\<close> keeps the table's order.\<close>

lemma claim_select_wf:
  "db_wf db \<Longrightarrow> claim_select job limit now locked db =
     take limit (filter (eligible job now locked) (items db))"
  by (simp add: claim_select_def sorted_wrt_sort_key sorted_wrt_filter_ids eligible_def
      conj_commute conj_left_commute cong: filter_cong)

lemma claim_select_set:
  assumes "db_wf db" and "r \<in> set (claim_select job limit now locked db)"
  shows "r \<in> set (items db)" and "eligible job now locked r"
  using assms by (auto simp: claim_select_wf dest: in_set_takeD)

lemma claim_select_ids_distinct:
  "db_wf db \<Longrightarrow> distinct (map i_id (claim_select job limit now locked db))"
  by (simp add: claim_select_wf take_map [symmetric] distinct_map_filter db_wf_ids_distinct)

lemma claimed_ids:
  "map ci_id (snd (claim_chunk job w limit l now locked db)) =
     map i_id (claim_select job limit now locked db)"
  by (simp add: claim_chunk_def Let_def)

lemma claimed_external_ids:
  "map ci_external_id (snd (claim_chunk job w limit l now locked db)) =
     map i_external_id (claim_select job limit now locked db)"
  by (simp add: claim_chunk_def Let_def)

lemma claim_chunk_length: "length (snd (claim_chunk job w limit l now locked db)) \<le> limit"
  by (simp add: claim_chunk_def claim_select_def Let_def)

text \<open>Membership in the claim is membership of the id, and of the key.\<close>

lemma in_claim_iff:
  assumes wf: "db_wf db" and r: "r \<in> set (items db)"
  shows "i_id r \<in> set (map i_id (claim_select job limit now locked db)) \<longleftrightarrow>
     r \<in> set (claim_select job limit now locked db)"
  using claim_select_set(1) [OF wf] row_by_id [OF wf _ r] by (auto simp: image_iff) metis

lemma claim_external_ids_distinct:
  assumes wf: "db_wf db"
  shows "distinct (map i_external_id (claim_select job limit now locked db))"
proof -
  have "inj_on i_external_id (set (claim_select job limit now locked db))"
  proof (rule inj_onI)
    fix x y
    assume x: "x \<in> set (claim_select job limit now locked db)"
      and y: "y \<in> set (claim_select job limit now locked db)"
      and eq: "i_external_id x = i_external_id y"
    then show "x = y"
      using row_by_key [OF wf claim_select_set(1) [OF wf x] claim_select_set(1) [OF wf y]]
        claim_select_set(2) [OF wf x] claim_select_set(2) [OF wf y]
      by (simp add: item_key_def eligible_def)
  qed
  moreover have "distinct (claim_select job limit now locked db)"
    using claim_select_ids_distinct [OF wf] distinct_map by blast
  ultimately show ?thesis by (simp add: distinct_map)
qed

text \<open>The claimed external ids name exactly the claimed rows of the job.\<close>

lemma in_claim_by_key:
  assumes wf: "db_wf db" and r: "r \<in> set (items db)" and job: "i_job_id r = job"
  shows "i_external_id r \<in> set (map i_external_id (claim_select job limit now locked db)) \<longleftrightarrow>
     r \<in> set (claim_select job limit now locked db)"
proof
  assume "i_external_id r \<in> set (map i_external_id (claim_select job limit now locked db))"
  then obtain s where s: "s \<in> set (claim_select job limit now locked db)"
    and eq: "i_external_id s = i_external_id r" by auto
  have "s = r"
    using row_by_key [OF wf claim_select_set(1) [OF wf s] r] claim_select_set(2) [OF wf s] eq job
    by (simp add: item_key_def eligible_def)
  with s show "r \<in> set (claim_select job limit now locked db)" by simp
qed simp

text \<open>The claim is empty exactly when nothing is eligible, unless the chunk size is 0.\<close>

lemma claim_empty_iff:
  "db_wf db \<Longrightarrow> 0 < limit \<Longrightarrow> snd (claim_chunk job w limit l now locked db) = [] \<longleftrightarrow>
     (\<forall>r \<in> set (items db). \<not> eligible job now locked r)"
  by (auto simp: claim_chunk_def Let_def claim_select_wf filter_empty_conv)

section \<open>The abstract queue\<close>

datatype item_view = Waiting | Held string | Finished item_status "string option"

definition view_row :: "item_row \<Rightarrow> item_view" where
  "view_row r = (case i_status r of
      I_PENDING \<Rightarrow> Waiting
    | I_CLAIMED \<Rightarrow> Held (the (i_worker_id r))
    | s \<Rightarrow> Finished s (i_result_ref r))"

definition queue_view :: "database \<Rightarrow> uuid \<Rightarrow> string \<Rightarrow> item_view option" where
  "queue_view db job e = map_option view_row (lookup_item db job e)"

definition is_open :: "item_view \<Rightarrow> bool" where
  "is_open v = (case v of Finished s r \<Rightarrow> False | _ \<Rightarrow> True)"

lemma is_open_simps [simp]: "is_open Waiting" "is_open (Held w)" "\<not> is_open (Finished s r)"
  by (simp_all add: is_open_def)

lemma view_row_open: "is_open (view_row r) \<longleftrightarrow> \<not> is_terminal (i_status r)"
  by (cases "i_status r") (simp_all add: view_row_def)

lemma view_row_terminal:
  "is_terminal (i_status r) \<Longrightarrow> view_row r = Finished (i_status r) (i_result_ref r)"
  by (cases "i_status r") (simp_all add: view_row_def)

text \<open>The first result for an external id, the one whose \<open>UPDATE\<close> finds the row.\<close>

definition first_result :: "result_record list \<Rightarrow> string \<Rightarrow> result_record option" where
  "first_result rs e = find (\<lambda>r. rr_external_id r = e) rs"

definition finish_view :: "string \<Rightarrow> result_record list \<Rightarrow> string \<Rightarrow> string \<Rightarrow> item_view \<Rightarrow> item_view" where
  "finish_view worker rs ref e v =
     (if v = Held worker
      then (case first_result rs e of None \<Rightarrow> v | Some r \<Rightarrow> Finished (rr_status r) (Some ref))
      else v)"

lemma queue_view_update_items:
  "keeps_identity f \<Longrightarrow> queue_view (update_items P f db) job e =
     map_option (\<lambda>r. view_row (if P r then f r else r)) (lookup_item db job e)"
  by (simp add: queue_view_def table_simps split: option.split)

lemma claim_view:
  assumes wf: "db_wf db"
  shows "queue_view (fst (claim_chunk job w limit l now locked db)) job' e =
    (if job' = job \<and> e \<in> set (map ci_external_id (snd (claim_chunk job w limit l now locked db)))
     then Some (Held w) else queue_view db job' e)"
proof (cases "lookup_item db job' e")
  case None
  have "e \<notin> set (map ci_external_id (snd (claim_chunk job w limit l now locked db)))" if "job' = job"
  proof
    assume "e \<in> set (map ci_external_id (snd (claim_chunk job w limit l now locked db)))"
    then obtain s where "s \<in> set (claim_select job limit now locked db)" "i_external_id s = e"
      unfolding claimed_external_ids by auto
    with claim_select_set [OF wf] that lookup_item_wf [OF wf] None show False
      by (metis eligible_def option.distinct(1))
  qed
  then show ?thesis using None
    by (auto simp: claim_chunk_def Let_def queue_view_update_items) (simp add: queue_view_def)
next
  case (Some r)
  note r = lookup_item_Some [OF Some]
  have claimed: "r \<in> set (claim_select job limit now locked db) \<longleftrightarrow>
    job' = job \<and> e \<in> set (map ci_external_id (snd (claim_chunk job w limit l now locked db)))"
    unfolding claimed_external_ids
    using in_claim_by_key [OF wf, of r job] r claim_select_set(2) [OF wf] by (auto simp: eligible_def)
  have "queue_view (fst (claim_chunk job w limit l now locked db)) job' e =
    Some (view_row (if r \<in> set (claim_select job limit now locked db)
                    then claim_row w l now r else r))"
    using in_claim_iff [OF wf, of r] r Some
    by (simp add: claim_chunk_def Let_def queue_view_update_items)
  moreover have "view_row (claim_row w l now r) = Held w" by (simp add: view_row_def)
  moreover have "queue_view db job' e = Some (view_row r)" using Some by (simp add: queue_view_def)
  ultimately show ?thesis unfolding claimed [symmetric] by simp
qed

text \<open>A claim takes only open rows.\<close>

lemma claim_only_open:
  assumes wf: "db_wf db" and e: "e \<in> set (map ci_external_id (snd (claim_chunk job w limit l now locked db)))"
  shows "\<exists>v. queue_view db job e = Some v \<and> is_open v"
proof -
  from e obtain r where r: "r \<in> set (claim_select job limit now locked db)" and e: "i_external_id r = e"
    unfolding claimed_external_ids by auto
  have "lookup_item db job e = Some r"
    using claim_select_set [OF wf r] lookup_item_wf [OF wf] e by (metis eligible_def)
  moreover have "\<not> is_terminal (i_status r)"
    using claim_select_set(2) [OF wf r] by (auto simp: eligible_def claimable_def)
  ultimately show ?thesis by (simp add: queue_view_def view_row_open)
qed

lemma renew_view: "queue_view (renew_lease w l now db) job e = queue_view db job e"
proof -
  have "view_row (renew_row l now r) = view_row r" for r
    by (cases "i_status r") (simp_all add: view_row_def)
  then show ?thesis
    by (cases "lookup_item db job e")
       (simp_all add: renew_lease_def queue_view_update_items, simp_all add: queue_view_def)
qed

lemma complete_step_view:
  assumes wf: "db_wf db" and t: "is_terminal (rr_status res)"
  shows "queue_view (update_items (owns w (rr_external_id res)) (complete_row res ref now) db) job e =
    map_option (finish_view w [res] ref e) (queue_view db job e)"
proof (cases "lookup_item db job e")
  case (Some r)
  note r = lookup_item_Some [OF Some]
  have "row_wf r" using db_wf_row [OF wf] r by blast
  moreover have "view_row (complete_row res ref now r) = Finished (rr_status res) (Some ref)"
    using t by (simp add: view_row_terminal)
  ultimately show ?thesis using Some r
    by (cases "i_status r")
       (auto simp: queue_view_def table_simps finish_view_def first_result_def owns_def
         view_row_def row_wf_def)
qed (simp add: queue_view_def table_simps)

lemma finish_view_Nil [simp]: "map_option (finish_view w [] ref e) v = v"
  by (cases v) (simp_all add: finish_view_def first_result_def)

lemma finish_view_Cons:
  "finish_view w (r # rs) ref e v = finish_view w rs ref e (finish_view w [r] ref e v)"
  by (auto simp: finish_view_def first_result_def split: option.splits)

lemma complete_loop_view:
  assumes "db_wf db" and "results_terminal rs"
  shows "queue_view (fst (complete_loop w rs ref now (db, n))) job e =
    map_option (finish_view w rs ref e) (queue_view db job e)"
  using assms
proof (induction rs arbitrary: db n)
  case Nil
  then show ?case by simp
next
  case (Cons r rs)
  let ?db = "update_items (owns w (rr_external_id r)) (complete_row r ref now) db"
  have "db_wf ?db"
    using Cons.prems by (intro db_wf_update_items) (auto simp: row_wf_def results_terminal_def)
  moreover have "map_option (finish_view w (r # rs) ref e) v =
    map_option (finish_view w rs ref e) (map_option (finish_view w [r] ref e) v)" for v
    by (cases v) (simp_all add: finish_view_Cons [of w r rs])
  ultimately show ?case using Cons by (simp add: results_terminal_def complete_step_view)
qed

lemma complete_view:
  "db_wf db \<Longrightarrow> results_terminal rs \<Longrightarrow>
   queue_view (fst (complete_items w rs ref now db)) job e =
     map_option (finish_view w rs ref e) (queue_view db job e)"
  by (cases "rs = []") (simp_all add: complete_items_def complete_loop_view)

section \<open>The port of the queue\<close>

definition open_items :: "('q \<Rightarrow> uuid \<Rightarrow> string \<Rightarrow> item_view option) \<Rightarrow> 'q \<Rightarrow> uuid \<Rightarrow> string set" where
  "open_items view q job = {e. \<exists>v. view q job e = Some v \<and> is_open v}"

locale work_queue =
  fixes claim :: "uuid \<Rightarrow> string \<Rightarrow> nat \<Rightarrow> int \<Rightarrow> time \<Rightarrow> 'q \<Rightarrow> 'q \<times> claimed_item list"
    and complete :: "string \<Rightarrow> result_record list \<Rightarrow> string \<Rightarrow> time \<Rightarrow> 'q \<Rightarrow> 'q \<times> nat"
    and renew :: "string \<Rightarrow> int \<Rightarrow> time \<Rightarrow> 'q \<Rightarrow> 'q"
    and view :: "'q \<Rightarrow> uuid \<Rightarrow> string \<Rightarrow> item_view option"
    and invar :: "'q \<Rightarrow> bool"
  assumes invar_claim: "invar q \<Longrightarrow> invar (fst (claim job w n l now q))"
    and invar_complete: "invar q \<Longrightarrow> results_terminal rs \<Longrightarrow> invar (fst (complete w rs ref now q))"
    and invar_renew: "invar q \<Longrightarrow> invar (renew w l now q)"
    and claim_law: "invar q \<Longrightarrow> view (fst (claim job w n l now q)) job' e =
      (if job' = job \<and> e \<in> set (map ci_external_id (snd (claim job w n l now q)))
       then Some (Held w) else view q job' e)"
    and claim_takes_open: "invar q \<Longrightarrow>
      e \<in> set (map ci_external_id (snd (claim job w n l now q))) \<Longrightarrow> e \<in> open_items view q job"
    and claim_distinct: "invar q \<Longrightarrow> distinct (map ci_external_id (snd (claim job w n l now q)))"
    and claim_at_most: "length (snd (claim job w n l now q)) \<le> n"
    and renew_law: "view (renew w l now q) job e = view q job e"
    and complete_law: "invar q \<Longrightarrow> results_terminal rs \<Longrightarrow>
      view (fst (complete w rs ref now q)) job e = map_option (finish_view w rs ref e) (view q job e)"
    and finite_open: "finite (open_items view q job)"
begin

lemma claim_keeps_open: "invar q \<Longrightarrow> open_items view (fst (claim job w n l now q)) job' = open_items view q job'"
  using claim_law [of q job w n l now job'] claim_takes_open [of q _ job w n l now]
  by (auto simp: open_items_def)

lemma renew_keeps_open: "open_items view (renew w l now q) job = open_items view q job"
  by (simp add: open_items_def renew_law)

lemma complete_shrinks_open:
  assumes "invar q" and "results_terminal rs"
  shows "open_items view (fst (complete w rs ref now q)) job \<subseteq> open_items view q job"
  by (auto simp: open_items_def complete_law [OF assms] finish_view_def split: if_splits option.splits)

text \<open>A finished item keeps its view whatever the workers do: its status is final.\<close>

lemma finished_final:
  assumes "invar q" and "view q job e = Some (Finished s r)"
  shows "view (fst (claim job' w n l now q)) job e = Some (Finished s r)"
    and "results_terminal rs \<Longrightarrow> view (fst (complete w rs ref now q)) job e = Some (Finished s r)"
    and "view (renew w l now q) job e = Some (Finished s r)"
  using assms claim_takes_open [OF assms(1), of e job w n l now]
  by (auto simp: claim_law complete_law renew_law open_items_def finish_view_def)

text \<open>
  One round of a worker (claim, any renewals, results for every claimed row, completion)
  finishes at least one open row: the measure of the worker's loop.
\<close>

lemma round_progress:
  assumes inv: "invar q" and cl: "claim job w n l now q = (q', chunk)" and ne: "chunk \<noteq> []"
    and inv': "invar q''" and same: "\<And>e. view q'' job e = view q' job e"
    and rs: "results_terminal rs" and cover: "set (map ci_external_id chunk) \<subseteq> set (map rr_external_id rs)"
  shows "card (open_items view (fst (complete w rs ref now' q'')) job) < card (open_items view q job)"
proof -
  let ?e = "ci_external_id (hd chunk)"
  have e: "?e \<in> set (map ci_external_id chunk)" using ne by simp
  have "open_items view q'' job = open_items view q' job" by (simp add: open_items_def same)
  also have "\<dots> = open_items view q job" using claim_keeps_open [OF inv, of job w n l now job] cl by simp
  finally have "open_items view (fst (complete w rs ref now' q'')) job \<subseteq> open_items view q job"
    using complete_shrinks_open [OF inv' rs] by blast
  moreover have "?e \<in> open_items view q job" using claim_takes_open [OF inv, of ?e job w n l now] cl e by simp
  moreover have "?e \<notin> open_items view (fst (complete w rs ref now' q'')) job"
  proof -
    have "view q'' job ?e = Some (Held w)"
      using claim_law [OF inv, of job w n l now job ?e] cl e same by simp
    moreover have "first_result rs ?e \<noteq> None"
      using subsetD [OF cover e] by (auto simp: first_result_def find_None_iff)
    ultimately show ?thesis
      by (auto simp: open_items_def complete_law [OF inv' rs] finish_view_def)
  qed
  ultimately show ?thesis by (intro psubset_card_mono finite_open) blast
qed

end

lemma open_items_finite: "finite (open_items queue_view db job)"
proof -
  have "open_items queue_view db job \<subseteq> i_external_id ` set (items db)"
    using lookup_item_Some by (fastforce simp: open_items_def queue_view_def)
  then show ?thesis by (rule finite_subset) simp
qed

interpretation pg_queue: work_queue
  "\<lambda>job w n l now. claim_chunk job w n l now locked" complete_items renew_lease queue_view db_wf
  for locked
proof unfold_locales
  show "distinct (map ci_external_id (snd (claim_chunk job w n l now locked q)))" if "db_wf q"
    for job w n l now q
    unfolding claimed_external_ids using that by (rule claim_external_ids_distinct)
  show "e \<in> open_items queue_view q job"
    if "db_wf q" "e \<in> set (map ci_external_id (snd (claim_chunk job w n l now locked q)))"
    for e job w n l now q
    using claim_only_open [OF that] by (auto simp: open_items_def)
qed (simp_all add: claim_chunk_wf complete_items_wf renew_lease_wf claim_view renew_view
  complete_view claim_chunk_length open_items_finite)

text \<open>
  With no other transaction open, an empty claim means that nothing waits: what a worker that
  stops may rely on.
\<close>

locale draining_queue = work_queue +
  assumes claim_drains: "invar q \<Longrightarrow> 0 < n \<Longrightarrow> snd (claim job w n l now q) = [] \<Longrightarrow>
    view q job e \<noteq> Some Waiting"
begin

lemma drained_rows_held:
  "invar q \<Longrightarrow> 0 < n \<Longrightarrow> snd (claim job w n l now q) = [] \<Longrightarrow> view q job e = Some v \<Longrightarrow>
   is_open v \<Longrightarrow> \<exists>w'. v = Held w'"
  using claim_drains [of q n job w l now e] by (cases v) auto

end

interpretation pg_drain: draining_queue
  "\<lambda>job w n l now. claim_chunk job w n l now {}" complete_items renew_lease queue_view db_wf
proof unfold_locales
  show "queue_view q job e \<noteq> Some Waiting"
    if "db_wf q" "0 < n" "snd (claim_chunk job w n l now {} q) = []" for q n job w l now e
  proof
    assume "queue_view q job e = Some Waiting"
    then obtain r where r: "lookup_item q job e = Some r" and v: "view_row r = Waiting"
      by (auto simp: queue_view_def)
    from v have "i_status r = I_PENDING" by (cases "i_status r") (simp_all add: view_row_def)
    with lookup_item_Some [OF r] have "eligible job now {} r" and "r \<in> set (items q)"
      by (simp_all add: eligible_def claimable_def)
    with claim_empty_iff [OF that(1,2)] that(3) show False by blast
  qed
qed

end
