(* ===== verification/JsonCodec.thy ===== *)
theory JsonCodec
  imports Domain
begin

text \<open>
  A concrete JSON text for a \<open>ResultRecord\<close>: compact objects with the fields in declaration
  order, and the string escapes of RFC 8259 as \<open>pydantic\<close>'s serializer documents them (quote,
  backslash and the control characters below 32 are escaped, everything else is written as it is).
  The model of the storage takes the serializer and parser as parameters; this pair shows that the
  laws it assumes of them can hold, and evaluates the witnesses.
\<close>

section \<open>Strings\<close>

definition hex_char :: "nat \<Rightarrow> char" where
  "hex_char d = (if d < 10 then char_of (48 + d) else char_of (87 + d))"

definition hex_val :: "char \<Rightarrow> nat option" where
  "hex_val c =
     (let n = (of_char c :: nat)
      in if 48 \<le> n \<and> n \<le> 57 then Some (n - 48)
         else if 97 \<le> n \<and> n \<le> 102 then Some (n - 87) else None)"

definition simple_escapes :: "(nat \<times> char) list" where
  "simple_escapes = [(34, CHR 0x22), (92, CHR 0x5C), (8, CHR ''b''), (9, CHR ''t''),
     (10, CHR ''n''), (12, CHR ''f''), (13, CHR ''r'')]"

definition esc_char :: "char \<Rightarrow> string" where
  "esc_char c =
     (let n = (of_char c :: nat)
      in case map_of simple_escapes n of
           Some d \<Rightarrow> [CHR 0x5C, d]
         | None \<Rightarrow> if n < 32 then [CHR 0x5C, CHR ''u'', CHR ''0'', CHR ''0'', hex_char (n div 16), hex_char (n mod 16)]
                   else [c])"

definition json_string :: "string \<Rightarrow> string" where
  "json_string s = CHR 0x22 # concat (map esc_char s) @ [CHR 0x22]"

definition unescape :: "char \<Rightarrow> char option" where
  "unescape d = map_option (\<lambda>p. char_of (fst p)) (find (\<lambda>p. snd p = d) simple_escapes)"

text \<open>The rest of a string literal after its opening quote, and the text after it.\<close>

fun parse_chars :: "string \<Rightarrow> (string \<times> string) option" where
  "parse_chars [] = None"
| "parse_chars (c # cs) =
     (if c = CHR 0x22 then Some ([], cs)
      else if c = CHR 0x5C then
        (case cs of
           [] \<Rightarrow> None
         | d # ds \<Rightarrow>
             (case unescape d of
                Some e \<Rightarrow> map_option (apfst ((#) e)) (parse_chars ds)
              | None \<Rightarrow>
                  (case ds of
                     z1 # z2 # h # l # rest \<Rightarrow>
                       (case (hex_val h, hex_val l) of
                          (Some hi, Some lo) \<Rightarrow>
                            if d = CHR ''u'' \<and> z1 = CHR ''0'' \<and> z2 = CHR ''0''
                            then map_option (apfst ((#) (char_of (16 * hi + lo)))) (parse_chars rest)
                            else None
                        | _ \<Rightarrow> None)
                   | _ \<Rightarrow> None)))
      else map_option (apfst ((#) c)) (parse_chars cs))"

definition expect :: "string \<Rightarrow> string \<Rightarrow> string option" where
  "expect p s = (if take (length p) s = p then Some (drop (length p) s) else None)"

definition parse_string :: "string \<Rightarrow> (string \<times> string) option" where
  "parse_string s = (case expect [CHR 0x22] s of None \<Rightarrow> None | Some s' \<Rightarrow> parse_chars s')"

lemma expect_append [simp]: "expect p (p @ s) = Some s"
  by (simp add: expect_def)

lemma hex_val_hex_char: "d < 16 \<Longrightarrow> hex_val (hex_char d) = Some d"
  by (auto simp: hex_val_def hex_char_def Let_def)

lemma unescape_simple_table:
  "list_all (\<lambda>p. unescape (snd p) = Some (char_of (fst p))) simple_escapes"
  by code_simp

lemma unescape_simple: "(of_char c, d) \<in> set simple_escapes \<Longrightarrow> unescape d = Some c"
  using unescape_simple_table by (auto simp: list_all_iff)

lemma esc_char_cases:
  obtains (simple) d where "esc_char c = [CHR 0x5C, d]" "unescape d = Some c"
  | (hex) n where "n < 32" "c = char_of n" "unescape (CHR ''u'') = None"
      "esc_char c = [CHR 0x5C, CHR ''u'', CHR ''0'', CHR ''0'', hex_char (n div 16), hex_char (n mod 16)]"
  | (plain) "esc_char c = [c]" "c \<noteq> CHR 0x22" "c \<noteq> CHR 0x5C" "32 \<le> (of_char c :: nat)"
proof -
  let ?n = "of_char c :: nat"
  have c: "c = char_of ?n" by simp
  show ?thesis
  proof (cases "map_of simple_escapes ?n")
    case None
    show ?thesis
    proof (cases "?n < 32")
      case True
      then show ?thesis using None c
        by (intro hex [of ?n]) (simp_all add: esc_char_def Let_def unescape_def simple_escapes_def)
    next
      case False
      then show ?thesis using None
        by (intro plain) (auto simp: esc_char_def Let_def simple_escapes_def)
    qed
  next
    case (Some d)
    then have "(?n, d) \<in> set simple_escapes" by (rule map_of_SomeD)
    then have "unescape d = Some c" by (rule unescape_simple)
    with Some show ?thesis by (intro simple) (simp_all add: esc_char_def Let_def)
  qed
qed

lemma parse_chars_esc:
  "parse_chars (esc_char c @ s) = map_option (apfst ((#) c)) (parse_chars s)"
proof (cases c rule: esc_char_cases)
  case (hex n)
  have "n div 16 < 16" "n mod 16 < 16" using hex(1) by auto
  then show ?thesis using hex by (simp add: hex_val_hex_char)
qed simp_all

lemma parse_chars_string: "parse_chars (concat (map esc_char t) @ CHR 0x22 # s) = Some (t, s)"
proof (induction t)
  case (Cons c t)
  then show ?case by (simp only: list.map concat.simps append_assoc parse_chars_esc) simp
qed simp

lemma parse_json_string [simp]: "parse_string (json_string t @ s) = Some (t, s)"
  by (simp add: parse_string_def json_string_def expect_def parse_chars_string)

section \<open>Numbers and optional values\<close>

fun parse_digits :: "nat \<Rightarrow> string \<Rightarrow> nat \<times> string" where
  "parse_digits acc [] = (acc, [])"
| "parse_digits acc (c # cs) =
     (let n = (of_char c :: nat)
      in if 48 \<le> n \<and> n \<le> 57 then parse_digits (10 * acc + (n - 48)) cs else (acc, c # cs))"

definition parse_nat :: "string \<Rightarrow> (nat \<times> string) option" where
  "parse_nat s =
     (case s of [] \<Rightarrow> None
      | c # _ \<Rightarrow> if 48 \<le> (of_char c :: nat) \<and> (of_char c :: nat) \<le> 57 then Some (parse_digits 0 s) else None)"

definition json_option :: "('a \<Rightarrow> string) \<Rightarrow> 'a option \<Rightarrow> string" where
  "json_option f x = (case x of None \<Rightarrow> ''null'' | Some y \<Rightarrow> f y)"

definition parse_option :: "(string \<Rightarrow> ('a \<times> string) option) \<Rightarrow> string \<Rightarrow> ('a option \<times> string) option" where
  "parse_option p s =
     (case expect ''null'' s of
        Some s' \<Rightarrow> Some (None, s')
      | None \<Rightarrow> map_option (apfst Some) (p s))"

definition no_digit :: "string \<Rightarrow> bool" where
  "no_digit s \<longleftrightarrow> (case s of [] \<Rightarrow> True | c # _ \<Rightarrow> \<not> (48 \<le> (of_char c :: nat) \<and> (of_char c :: nat) \<le> 57))"

lemma parse_digits_stop: "no_digit s \<Longrightarrow> parse_digits acc s = (acc, s)"
  by (cases s) (auto simp: no_digit_def Let_def)

lemma digit_char_code: "d < 10 \<Longrightarrow> (of_char (digit_char d) :: nat) = 48 + d"
  by (simp add: digit_char_def)

lemma parse_digits_digit: "d < 10 \<Longrightarrow> parse_digits acc (digit_char d # s) = parse_digits (10 * acc + d) s"
  by (simp add: digit_char_code)

lemma parse_digits_nat_str:
  "parse_digits acc (nat_str n @ s) = parse_digits (acc * 10 ^ length (nat_str n) + n) s"
proof (induction n arbitrary: acc s rule: less_induct)
  case (less n)
  show ?case
  proof (cases "n < 10")
    case True
    then show ?thesis by (subst (1 2) nat_str.simps) (simp add: digit_char_code mult.commute)
  next
    case False
    then have eq: "nat_str n = nat_str (n div 10) @ [digit_char (n mod 10)]"
      by (subst nat_str.simps) simp
    have "n mod 10 < 10" by simp
    then have "parse_digits acc (nat_str n @ s) =
        parse_digits (10 * (acc * 10 ^ length (nat_str (n div 10)) + n div 10) + n mod 10) s"
      using less.IH [of "n div 10" acc "digit_char (n mod 10) # s"] False
      by (simp only: eq append_assoc append.simps parse_digits_digit)
    also have "10 * (acc * 10 ^ length (nat_str (n div 10)) + n div 10) + n mod 10 =
        acc * 10 ^ length (nat_str n) + n"
      by (simp add: eq algebra_simps)
    finally show ?thesis .
  qed
qed

lemma nat_str_hd: "\<exists>d ds. nat_str n = digit_char d # ds \<and> d < 10"
proof (induction n rule: less_induct)
  case (less n)
  show ?case
  proof (cases "n < 10")
    case True
    then show ?thesis by (subst nat_str.simps) auto
  next
    case False
    with less.IH [of "n div 10"] show ?thesis by (subst nat_str.simps) auto
  qed
qed

lemma parse_nat_str: "no_digit s \<Longrightarrow> parse_nat (nat_str n @ s) = Some (n, s)"
proof -
  assume s: "no_digit s"
  obtain d ds where d: "nat_str n = digit_char d # ds" "d < 10" using nat_str_hd by blast
  have "parse_nat (nat_str n @ s) = Some (parse_digits 0 (nat_str n @ s))"
    using d by (simp add: parse_nat_def digit_char_code del: parse_digits.simps)
  also have "\<dots> = Some (n, s)"
    by (simp add: parse_digits_nat_str parse_digits_stop [OF s])
  finally show ?thesis .
qed

lemma parse_option_string [simp]:
  "parse_option parse_string (json_option json_string x @ s) = Some (x, s)"
proof (cases x)
  case (Some t)
  have "expect ''null'' (json_string t @ s) = None"
    by (simp add: expect_def json_string_def)
  with Some show ?thesis by (simp add: parse_option_def json_option_def)
qed (simp add: parse_option_def json_option_def expect_def)

lemma parse_option_nat:
  assumes "no_digit s"
  shows "parse_option parse_nat (json_option nat_str x @ s) = Some (x, s)"
proof (cases x)
  case (Some n)
  obtain d ds where d: "nat_str n = digit_char d # ds" "d < 10" using nat_str_hd by blast
  have "digit_char d \<noteq> CHR ''n''"
  proof
    assume "digit_char d = CHR ''n''"
    then have "(of_char (digit_char d) :: nat) = of_char (CHR ''n'')" by simp
    with d(2) show False by (simp add: digit_char_code)
  qed
  then have "expect ''null'' (nat_str n @ s) = None" by (simp add: expect_def d)
  with Some assms show ?thesis by (simp add: parse_option_def json_option_def parse_nat_str)
qed (simp add: parse_option_def json_option_def expect_def)

section \<open>Result records\<close>

definition json_key :: "string \<Rightarrow> string" where
  "json_key k = CHR 0x22 # k @ [CHR 0x22, CHR '':'']"

definition json_dump :: "result_record \<Rightarrow> string" where
  "json_dump r =
     ''{'' @ json_key ''external_id'' @ json_string (rr_external_id r) @
     '','' @ json_key ''status'' @ json_string (item_status_value (rr_status r)) @
     '','' @ json_key ''response'' @ json_option json_string (rr_response r) @
     '','' @ json_key ''error'' @ json_option json_string (rr_error r) @
     '','' @ json_key ''attempts'' @ nat_str (rr_attempts r) @
     '','' @ json_key ''latency_ms'' @ json_option nat_str (rr_latency_ms r) @ ''}''"

definition json_load :: "string \<Rightarrow> result_record option" where
  "json_load s0 =
     Option.bind (expect ''{'' s0) (\<lambda>s.
     Option.bind (expect (json_key ''external_id'') s) (\<lambda>s.
     Option.bind (parse_string s) (\<lambda>(eid, s).
     Option.bind (expect '','' s) (\<lambda>s.
     Option.bind (expect (json_key ''status'') s) (\<lambda>s.
     Option.bind (parse_string s) (\<lambda>(st, s).
     Option.bind (parse_item_status st) (\<lambda>status.
     Option.bind (expect '','' s) (\<lambda>s.
     Option.bind (expect (json_key ''response'') s) (\<lambda>s.
     Option.bind (parse_option parse_string s) (\<lambda>(response, s).
     Option.bind (expect '','' s) (\<lambda>s.
     Option.bind (expect (json_key ''error'') s) (\<lambda>s.
     Option.bind (parse_option parse_string s) (\<lambda>(error, s).
     Option.bind (expect '','' s) (\<lambda>s.
     Option.bind (expect (json_key ''attempts'') s) (\<lambda>s.
     Option.bind (parse_nat s) (\<lambda>(attempts, s).
     Option.bind (expect '','' s) (\<lambda>s.
     Option.bind (expect (json_key ''latency_ms'') s) (\<lambda>s.
     Option.bind (parse_option parse_nat s) (\<lambda>(latency, s).
     if s = ''}'' then Some \<lparr>rr_external_id = eid, rr_status = status, rr_response = response,
       rr_error = error, rr_attempts = attempts, rr_latency_ms = latency\<rparr> else None)))))))))))))))))))"

lemma expect_single [simp]: "expect [c] (c # s) = Some s"
  by (simp add: expect_def)

lemma no_digit_punctuation [simp]: "no_digit (CHR '','' # s)" "no_digit (CHR ''}'' # s)"
  by (simp_all add: no_digit_def)

lemma json_load_dump: "json_load (json_dump r) = Some r"
  by (simp add: json_load_def json_dump_def parse_nat_str parse_option_nat)

text \<open>The text fields of a record, whose characters its JSON text may hold as they are.\<close>

definition record_text :: "result_record \<Rightarrow> string" where
  "record_text r = rr_external_id r
     @ (case rr_response r of None \<Rightarrow> [] | Some t \<Rightarrow> t) @ (case rr_error r of None \<Rightarrow> [] | Some t \<Rightarrow> t)"

definition ascii_visible :: "char \<Rightarrow> bool" where
  "ascii_visible c \<longleftrightarrow> 32 \<le> (of_char c :: nat) \<and> (of_char c :: nat) < 127"

lemma visible_punctuation [simp]:
  "ascii_visible (CHR 0x22)" "ascii_visible (CHR 0x5C)" "ascii_visible (CHR ''u'')"
  "ascii_visible (CHR ''0'')" "ascii_visible (CHR '':'')" "ascii_visible (CHR '','')"
  "ascii_visible (CHR ''{'')" "ascii_visible (CHR ''}'')"
  by (simp_all add: ascii_visible_def)

lemma hex_char_visible: "d < 16 \<Longrightarrow> ascii_visible (hex_char d)"
  by (auto simp: ascii_visible_def hex_char_def)

lemma digit_char_visible: "d < 10 \<Longrightarrow> ascii_visible (digit_char d)"
  by (simp add: ascii_visible_def digit_char_def)

lemma nat_str_visible: "c \<in> set (nat_str n) \<Longrightarrow> ascii_visible c"
proof (induction n rule: less_induct)
  case (less n)
  then show ?case using less.IH [of "n div 10"]
    by (cases "n < 10") (auto simp: nat_str.simps [of n] digit_char_visible)
qed

definition json_safe :: "string \<Rightarrow> char \<Rightarrow> bool" where
  "json_safe t c \<longleftrightarrow> ascii_visible c \<or> 32 \<le> (of_char c :: nat) \<and> c \<in> set t"

lemma esc_char_safe:
  assumes "d \<in> set (esc_char c)"
  shows "json_safe [c] d"
proof (cases "map_of simple_escapes (of_char c :: nat)")
  case None
  have "n div 16 < 16" "n mod 16 < 16" if "n < 32" for n :: nat using that by auto
  then show ?thesis using assms None
    by (auto simp: esc_char_def Let_def json_safe_def hex_char_visible split: if_splits)
next
  case (Some e)
  moreover have "list_all (\<lambda>p. ascii_visible (snd p)) simple_escapes" by code_simp
  ultimately have "ascii_visible e" by (auto dest!: map_of_SomeD simp: list_all_iff)
  with Some assms show ?thesis
    by (auto simp: esc_char_def json_safe_def)
qed

lemma json_string_safe: "c \<in> set (json_string t) \<Longrightarrow> json_safe t c"
  by (auto simp: json_string_def json_safe_def dest!: esc_char_safe)

lemma json_safe_mono: "json_safe t c \<Longrightarrow> set t \<subseteq> set t' \<Longrightarrow> json_safe t' c"
  by (auto simp: json_safe_def)

lemma visible_safe: "list_all ascii_visible k \<Longrightarrow> c \<in> set k \<Longrightarrow> json_safe t c"
  by (auto simp: json_safe_def list_all_iff)

lemma json_keys_visible:
  "list_all (list_all ascii_visible)
     (map json_key [''external_id'', ''status'', ''response'', ''error'', ''attempts'', ''latency_ms'']
      @ [''null''] @ map item_status_value item_statuses)"
  by code_simp

lemma json_key_safe:
  "k \<in> {''external_id'', ''status'', ''response'', ''error'', ''attempts'', ''latency_ms''} \<Longrightarrow>
   c \<in> set (json_key k) \<Longrightarrow> json_safe t c"
  using json_keys_visible by (intro visible_safe [of "json_key k"]) auto

lemma json_status_safe: "c \<in> set (json_string (item_status_value s)) \<Longrightarrow> json_safe t c"
proof -
  assume "c \<in> set (json_string (item_status_value s))"
  then have "json_safe (item_status_value s) c" by (rule json_string_safe)
  moreover have "list_all ascii_visible (item_status_value s)"
    using json_keys_visible by (cases s) (auto simp: item_statuses_def)
  ultimately show ?thesis by (auto simp: json_safe_def list_all_iff)
qed

lemma json_null_safe: "c \<in> set (''null'' :: string) \<Longrightarrow> json_safe t c"
  using json_keys_visible by (intro visible_safe [of "''null''"]) auto

lemma json_option_string_safe:
  "c \<in> set (json_option json_string x) \<Longrightarrow> json_safe (case x of None \<Rightarrow> [] | Some t \<Rightarrow> t) c"
  using json_null_safe json_string_safe
  by (cases x) (auto simp: json_option_def simp del: list.set)

lemma json_option_nat_safe: "c \<in> set (json_option nat_str x) \<Longrightarrow> json_safe t c"
  using json_null_safe nat_str_visible
  by (cases x) (auto simp: json_option_def json_safe_def simp del: list.set)

text \<open>
  Every character of the JSON text is printable ASCII or a non-control character of one of the
  record's own texts.
\<close>

lemma json_dump_safe:
  assumes "c \<in> set (json_dump r)"
  shows "json_safe (record_text r) c"
proof -
  have fields: "set (rr_external_id r) \<subseteq> set (record_text r)"
    "set (case rr_response r of None \<Rightarrow> [] | Some t \<Rightarrow> t) \<subseteq> set (record_text r)"
    "set (case rr_error r of None \<Rightarrow> [] | Some t \<Rightarrow> t) \<subseteq> set (record_text r)"
    by (auto simp: record_text_def)
  have punct: "json_safe (record_text r) d" if "d \<in> set ''{},''" for d
    using that by (auto simp: json_safe_def)
  consider "c \<in> set ''{},''"
    | k where "k \<in> {''external_id'', ''status'', ''response'', ''error'', ''attempts'', ''latency_ms''}"
        "c \<in> set (json_key k)"
    | "c \<in> set (json_string (rr_external_id r))" | "c \<in> set (json_string (item_status_value (rr_status r)))"
    | "c \<in> set (json_option json_string (rr_response r))" | "c \<in> set (json_option json_string (rr_error r))"
    | "c \<in> set (nat_str (rr_attempts r))" | "c \<in> set (json_option nat_str (rr_latency_ms r))"
    using assms by (auto simp: json_dump_def)
  then show ?thesis
  proof cases
    case 1
    then show ?thesis by (rule punct)
  next
    case 2
    then show ?thesis by (rule json_key_safe)
  next
    case 3
    show ?thesis by (rule json_safe_mono [OF json_string_safe [OF 3] fields(1)])
  next
    case 4
    then show ?thesis by (rule json_status_safe)
  next
    case 5
    show ?thesis by (rule json_safe_mono [OF json_option_string_safe [OF 5] fields(2)])
  next
    case 6
    show ?thesis by (rule json_safe_mono [OF json_option_string_safe [OF 6] fields(3)])
  next
    case 7
    then show ?thesis using nat_str_visible by (simp add: json_safe_def)
  next
    case 8
    then show ?thesis by (rule json_option_nat_safe)
  qed
qed

end
