(* ===== verification/Storage.thy ===== *)
theory Storage
  imports JsonCodec "HOL-Library.Multiset"
begin

text \<open>
  Result storage: \<open>LocalFileStorage\<close>
  (\<open>app/infrastructure/storage/local_storage.py\<close>), the \<open>S3SpacesStorage\<close> skeleton and
  \<open>build_storage\<close>. The directory tree below the root is an association list from (job id,
  file name) to the file's text; text read back is the text written (UTF-8 both ways).

  \<open>dump\<close> stands for \<open>ResultRecord.model_dump_json\<close> and \<open>load\<close> for
  \<open>ResultRecord(**json.loads(line))\<close>, whose code is not the repository's; what is relied on
  is the locale \<open>record_codec\<close>, which \<open>JsonCodec\<close> shows to be satisfiable. The locale
  \<open>result_storage\<close> is the port \<open>StorageBackend\<close>.
\<close>

type_synonym chunk_store = "((string \<times> string) \<times> string) list"
type_synonym dumper = "result_record \<Rightarrow> string"
type_synonym loader = "string \<Rightarrow> result_record option"

section \<open>The local backend\<close>

definition put_file :: "'k \<Rightarrow> 'v \<Rightarrow> ('k \<times> 'v) list \<Rightarrow> ('k \<times> 'v) list" where
  "put_file k v st =
     (if k \<in> fst ` set st then map (\<lambda>p. if fst p = k then (k, v) else p) st else st @ [(k, v)])"

definition chunk_file :: "string \<Rightarrow> string" where
  "chunk_file chunk_id = chunk_id @ ''.jsonl''"

definition chunk_payload :: "dumper \<Rightarrow> result_record list \<Rightarrow> string" where
  "chunk_payload dump records = py_join [CHR 0x0A] (map dump records) @ [CHR 0x0A]"

definition chunk_ref :: "string \<Rightarrow> string \<Rightarrow> string" where
  "chunk_ref job chunk_id = ''jobs/'' @ job @ ''/chunks/'' @ chunk_file chunk_id"

definition write_chunk ::
  "dumper \<Rightarrow> string \<Rightarrow> string \<Rightarrow> result_record list \<Rightarrow> chunk_store \<Rightarrow> chunk_store \<times> string" where
  "write_chunk dump job chunk_id records st =
     (put_file (job, chunk_file chunk_id) (chunk_payload dump records) st, chunk_ref job chunk_id)"

definition is_jsonl :: "string \<Rightarrow> bool" where
  "is_jsonl name \<longleftrightarrow> drop (length name - 6) name = ''.jsonl''"

text \<open>\<open>sorted(chunks_dir.glob("*.jsonl"))\<close>, with the files' texts.\<close>

definition chunk_files :: "string \<Rightarrow> chunk_store \<Rightarrow> (string \<times> string) list" where
  "chunk_files job st =
     sort_key fst (map (\<lambda>(k, c). (snd k, c)) (filter (\<lambda>(k, c). fst k = job \<and> is_jsonl (snd k)) st))"

text \<open>
  The generator: the records it yields, and the exception that ends it, if any. A line that is
  not blank and does not parse raises after the records before it were yielded.
\<close>

fun read_lines :: "loader \<Rightarrow> string list \<Rightarrow> result_record list \<times> exn option" where
  "read_lines load [] = ([], None)"
| "read_lines load (l # ls) =
     (if py_strip l = [] then read_lines load ls
      else case load l of
             None \<Rightarrow> ([], Some (JSONError l))
           | Some r \<Rightarrow> (case read_lines load ls of (rs, e) \<Rightarrow> (r # rs, e)))"

fun read_files :: "loader \<Rightarrow> string list \<Rightarrow> result_record list \<times> exn option" where
  "read_files load [] = ([], None)"
| "read_files load (c # cs) =
     (case read_lines load (splitlines c) of
        (rs, Some e) \<Rightarrow> (rs, Some e)
      | (rs, None) \<Rightarrow> (case read_files load cs of (rs', e) \<Rightarrow> (rs @ rs', e)))"

definition iter_results :: "loader \<Rightarrow> string \<Rightarrow> chunk_store \<Rightarrow> result_record list \<times> exn option" where
  "iter_results load job st = read_files load (map snd (chunk_files job st))"

section \<open>The S3 skeleton and the factory\<close>

datatype backend = LocalBackend string | S3Backend

definition build_storage :: "settings \<Rightarrow> exn + backend" where
  "build_storage s =
     (let b = map to_lower_char (storage_backend s)
      in if b = ''local'' then Inr (LocalBackend (storage_local_root s))
         else if b = ''s3'' then Inr S3Backend
         else Inl (ValueError (''unknown storage backend: '' @ storage_backend s)))"

fun backend_write ::
  "dumper \<Rightarrow> backend \<Rightarrow> string \<Rightarrow> string \<Rightarrow> result_record list \<Rightarrow> chunk_store \<Rightarrow> exn + chunk_store \<times> string" where
  "backend_write dump (LocalBackend dir) job chunk_id records st = Inr (write_chunk dump job chunk_id records st)"
| "backend_write dump S3Backend job chunk_id records st = Inl NotImplementedError"

fun backend_iter :: "loader \<Rightarrow> backend \<Rightarrow> string \<Rightarrow> chunk_store \<Rightarrow> result_record list \<times> exn option" where
  "backend_iter load (LocalBackend dir) job st = iter_results load job st"
| "backend_iter load S3Backend job st = ([], Some NotImplementedError)"

section \<open>Files\<close>

lemma put_file_map_fst:
  "map fst (put_file k v st) = (if k \<in> fst ` set st then map fst st else map fst st @ [k])"
proof -
  have "map fst (map (\<lambda>p. if fst p = k then (k, v) else p) st) = map fst st"
    by (induction st) auto
  then show ?thesis by (simp add: put_file_def)
qed

lemma put_file_keys: "fst ` set (put_file k v st) = insert k (fst ` set st)"
  using arg_cong [OF put_file_map_fst [of k v st], where f = set] by auto

lemma put_file_fresh: "k \<notin> fst ` set st \<Longrightarrow> put_file k v st = st @ [(k, v)]"
  by (simp add: put_file_def)

lemma put_file_idem: "put_file k v (put_file k v st) = put_file k v st"
proof -
  have "put_file k v st' = map (\<lambda>p. if fst p = k then (k, v) else p) st'" if "k \<in> fst ` set st'" for st'
    using that by (simp add: put_file_def)
  moreover have "k \<in> fst ` set (put_file k v st)" by (simp add: put_file_keys)
  ultimately have "put_file k v (put_file k v st) =
      map (\<lambda>p. if fst p = k then (k, v) else p) (put_file k v st)" by blast
  also have "\<dots> = put_file k v st" by (auto simp: put_file_def image_iff intro!: map_idI)
  finally show ?thesis .
qed

lemma put_file_set: "p \<in> set (put_file k v st) \<Longrightarrow> p = (k, v) \<or> p \<in> set st"
  by (auto simp: put_file_def split: if_splits)

lemma put_file_filter:
  "(\<And>w. \<not> Q (k, w)) \<Longrightarrow> filter Q (put_file k v st) = filter Q st"
proof (cases "k \<in> fst ` set st")
  case True
  assume Q: "\<And>w. \<not> Q (k, w)"
  have "filter Q (map (\<lambda>p. if fst p = k then (k, v) else p) st) = filter Q st"
    using Q by (induction st) auto
  with True show ?thesis by (simp add: put_file_def)
qed (simp add: put_file_def)

lemma is_jsonl_chunk_file [simp]: "is_jsonl (chunk_file c)"
  by (simp add: is_jsonl_def chunk_file_def)

lemma chunk_files_other:
  "job \<noteq> job' \<Longrightarrow> chunk_files job' (put_file (job, f) v st) = chunk_files job' st"
  unfolding chunk_files_def by (subst put_file_filter) auto

lemma mset_chunk_files_fresh:
  "(job, chunk_file c) \<notin> fst ` set st \<Longrightarrow>
   mset (chunk_files job (put_file (job, chunk_file c) v st)) =
     add_mset (chunk_file c, v) (mset (chunk_files job st))"
  by (simp add: chunk_files_def put_file_fresh)

lemma chunk_files_content:
  "(f, v) \<in> set (chunk_files job st) \<Longrightarrow> ((job, f), v) \<in> set st"
  by (auto simp: chunk_files_def)

section \<open>Reading back\<close>

lemma read_lines_loaded:
  "\<forall>l \<in> set ls. py_strip l \<noteq> [] \<and> load l \<noteq> None \<Longrightarrow>
   read_lines load ls = (map (the \<circ> load) ls, None)"
  by (induction ls) auto

lemma read_files_concat:
  "\<forall>c \<in> set cs. snd (read_lines load (splitlines c)) = None \<Longrightarrow>
   read_files load cs = (concat (map (\<lambda>c. fst (read_lines load (splitlines c))) cs), None)"
  by (induction cs) (auto split: prod.splits option.splits)

lemma read_files_None_iff:
  "snd (read_files load cs) = None \<longleftrightarrow> (\<forall>c \<in> set cs. snd (read_lines load (splitlines c)) = None)"
  by (induction cs) (auto split: prod.splits option.splits)

lemma mset_concat_map: "mset (concat (map f xs)) = (\<Sum>x \<in># mset xs. mset (f x))"
  by (induction xs) auto

lemma char_of_nel: "char_of (133 :: nat) = CHR 0x85"
  by code_simp

text \<open>A record whose texts hold no \<open>NEL\<close> (code point 133).\<close>

definition record_clean :: "result_record \<Rightarrow> bool" where
  "record_clean r \<longleftrightarrow> CHR 0x85 \<notin> set (record_text r)"

definition has_chunk :: "chunk_store \<Rightarrow> string \<Rightarrow> string \<Rightarrow> bool" where
  "has_chunk st job chunk_id \<longleftrightarrow> (job, chunk_file chunk_id) \<in> fst ` set st"

definition store_ok :: "dumper \<Rightarrow> chunk_store \<Rightarrow> bool" where
  "store_ok dump st \<longleftrightarrow>
     (\<forall>(k, v) \<in> set st. \<exists>rs. rs \<noteq> [] \<and> list_all record_clean rs \<and> v = chunk_payload dump rs)"

lemma store_ok_Nil [simp]: "store_ok dump []"
  by (simp add: store_ok_def)

lemma py_strip_nonspace_hd: "\<not> is_space c \<Longrightarrow> py_strip (c # s) \<noteq> []"
  by (auto simp: py_strip_def dropWhile_eq_Nil_conv)

section \<open>The ports\<close>

locale record_codec =
  fixes dump :: dumper and load :: loader
  assumes load_dump: "load (dump r) = Some r"
    and dump_object: "\<exists>s. dump r = CHR ''{'' # s"
    and dump_chars: "c \<in> set (dump r) \<Longrightarrow> json_safe (record_text r) c"
begin

lemma dump_no_linebreak:
  assumes "record_clean r" and "c \<in> set (dump r)"
  shows "\<not> is_linebreak c"
proof
  assume "is_linebreak c"
  moreover have "json_safe (record_text r) c" using assms(2) by (rule dump_chars)
  ultimately have n: "(of_char c :: nat) = 133" and c: "c \<in> set (record_text r)"
    by (auto simp: is_linebreak_def json_safe_def ascii_visible_def)
  have "c = char_of (of_char c :: nat)" by simp
  then have "c = CHR 0x85" unfolding n char_of_nel .
  with c assms(1) show False by (simp add: record_clean_def)
qed

lemma dump_not_blank: "py_strip (dump r) \<noteq> []"
  using dump_object [of r] py_strip_nonspace_hd [of "CHR ''{''"] by (auto simp: is_space_def)

lemma payload_lines:
  assumes "rs \<noteq> []" and "list_all record_clean rs"
  shows "splitlines (chunk_payload dump rs) = map dump rs"
  unfolding chunk_payload_def
  by (rule splitlines_join) (use assms dump_no_linebreak in \<open>auto simp: list_all_iff\<close>)

lemma payload_read:
  assumes "rs \<noteq> []" and "list_all record_clean rs"
  shows "read_lines load (splitlines (chunk_payload dump rs)) = (rs, None)"
proof -
  have "read_lines load (map dump rs) = (map (the \<circ> load) (map dump rs), None)"
    by (rule read_lines_loaded) (auto simp: dump_not_blank load_dump)
  then show ?thesis by (simp add: payload_lines [OF assms] load_dump map_idI)
qed

lemma store_files_read:
  "store_ok dump st \<Longrightarrow> c \<in> set (map snd (chunk_files job st)) \<Longrightarrow>
   snd (read_lines load (splitlines c)) = None"
proof -
  assume ok: "store_ok dump st" and "c \<in> set (map snd (chunk_files job st))"
  then obtain f where "(f, c) \<in> set (chunk_files job st)" by auto
  then have "((job, f), c) \<in> set st" by (rule chunk_files_content)
  with ok obtain rs where "rs \<noteq> []" "list_all record_clean rs" "c = chunk_payload dump rs"
    unfolding store_ok_def by blast
  then show ?thesis by (simp add: payload_read)
qed

lemma iter_results_ok:
  "store_ok dump st \<Longrightarrow> iter_results load job st =
     (concat (map (\<lambda>c. fst (read_lines load (splitlines c))) (map snd (chunk_files job st))), None)"
  unfolding iter_results_def by (rule read_files_concat) (blast intro: store_files_read)

lemma store_ok_write:
  "store_ok dump st \<Longrightarrow> rs \<noteq> [] \<Longrightarrow> list_all record_clean rs \<Longrightarrow>
   store_ok dump (fst (write_chunk dump job c rs st))"
  by (auto simp: store_ok_def write_chunk_def dest!: put_file_set)

lemma write_adds_records:
  assumes ok: "store_ok dump st" and fresh: "\<not> has_chunk st job c"
    and rs: "rs \<noteq> []" "list_all record_clean rs"
  shows "mset (fst (iter_results load job (fst (write_chunk dump job c rs st)))) =
    mset rs + mset (fst (iter_results load job st))"
proof -
  let ?st = "fst (write_chunk dump job c rs st)"
  have "mset (chunk_files job ?st) =
      add_mset (chunk_file c, chunk_payload dump rs) (mset (chunk_files job st))"
    using fresh by (simp add: write_chunk_def has_chunk_def mset_chunk_files_fresh)
  then show ?thesis
    unfolding iter_results_ok [OF ok] iter_results_ok [OF store_ok_write [OF ok rs]]
    by (simp add: mset_concat_map o_def payload_read [OF rs])
qed

end

locale result_storage =
  fixes store_chunk :: "string \<Rightarrow> string \<Rightarrow> result_record list \<Rightarrow> 's \<Rightarrow> 's \<times> string"
    and iter :: "string \<Rightarrow> 's \<Rightarrow> result_record list \<times> exn option"
    and has :: "'s \<Rightarrow> string \<Rightarrow> string \<Rightarrow> bool"
    and clean :: "result_record \<Rightarrow> bool"
    and invar :: "'s \<Rightarrow> bool"
  assumes invar_write: "invar s \<Longrightarrow> rs \<noteq> [] \<Longrightarrow> list_all clean rs \<Longrightarrow> invar (fst (store_chunk job c rs s))"
    and iter_total: "invar s \<Longrightarrow> snd (iter job s) = None"
    and write_adds: "invar s \<Longrightarrow> \<not> has s job c \<Longrightarrow> rs \<noteq> [] \<Longrightarrow> list_all clean rs \<Longrightarrow>
      mset (fst (iter job (fst (store_chunk job c rs s)))) = mset rs + mset (fst (iter job s))"
    and write_other: "job' \<noteq> job \<Longrightarrow> iter job' (fst (store_chunk job c rs s)) = iter job' s"
    and write_has: "has (fst (store_chunk job c rs s)) job' c' \<longleftrightarrow> job' = job \<and> c' = c \<or> has s job' c'"
    and write_again: "store_chunk job c rs (fst (store_chunk job c rs s)) = store_chunk job c rs s"
begin

text \<open>Nothing stored is lost by writing another chunk.\<close>

lemma write_keeps:
  "invar s \<Longrightarrow> \<not> has s job c \<Longrightarrow> rs \<noteq> [] \<Longrightarrow> list_all clean rs \<Longrightarrow>
   r \<in> set (fst (iter job' s)) \<Longrightarrow> r \<in> set (fst (iter job' (fst (store_chunk job c rs s))))"
  using write_adds [of s job c rs] write_other [of job' job c rs s]
  by (cases "job' = job") (auto dest: arg_cong [where f = set_mset])

text \<open>A sequence of chunks under fresh ids: what a download returns.\<close>

lemma write_all:
  assumes "invar s" and "distinct (map fst chunks)" and "\<And>c. c \<in> set (map fst chunks) \<Longrightarrow> \<not> has s job c"
    and "\<And>c rs. (c, rs) \<in> set chunks \<Longrightarrow> rs \<noteq> [] \<and> list_all clean rs"
  shows "mset (fst (iter job (fold (\<lambda>(c, rs) s. fst (store_chunk job c rs s)) chunks s))) =
      mset (concat (map snd chunks)) + mset (fst (iter job s)) \<and>
    snd (iter job (fold (\<lambda>(c, rs) s. fst (store_chunk job c rs s)) chunks s)) = None"
  using assms
proof (induction chunks arbitrary: s)
  case Nil
  then show ?case by (simp add: iter_total)
next
  case (Cons p chunks)
  obtain c rs where p: "p = (c, rs)" by fastforce
  have rs: "rs \<noteq> []" "list_all clean rs" using Cons.prems(4) [of c rs] p by auto
  have "\<not> has (fst (store_chunk job c rs s)) job c'" if "c' \<in> set (map fst chunks)" for c'
    using Cons.prems(2) Cons.prems(3) [of c'] that by (auto simp: write_has p)
  moreover have "\<not> has s job c" using Cons.prems(3) p by simp
  moreover have "distinct (map fst chunks)" using Cons.prems(2) by simp
  moreover have "rs \<noteq> [] \<and> list_all clean rs" if "(c, rs) \<in> set chunks" for c rs
    using Cons.prems(4) [of c rs] that by simp
  ultimately show ?case
    using Cons.IH [OF invar_write [OF Cons.prems(1) rs, of job c]] write_adds [OF Cons.prems(1) _ rs, of job c]
    by (simp add: p)
qed

end

sublocale record_codec \<subseteq> files: result_storage "write_chunk dump" "iter_results load" has_chunk
  record_clean "store_ok dump"
proof unfold_locales
  show "snd (iter_results load job s) = None" if "store_ok dump s" for job s
    by (simp add: iter_results_ok [OF that])
  show "iter_results load job' (fst (write_chunk dump job c rs s)) = iter_results load job' s"
    if "job' \<noteq> job" for job' job c rs s
    using that by (simp add: iter_results_def write_chunk_def chunk_files_other)
  show "has_chunk (fst (write_chunk dump job c rs s)) job' c' \<longleftrightarrow> job' = job \<and> c' = c \<or> has_chunk s job' c'"
    for job c rs s job' c'
    by (auto simp: has_chunk_def write_chunk_def put_file_keys chunk_file_def)
  show "write_chunk dump job c rs (fst (write_chunk dump job c rs s)) = write_chunk dump job c rs s"
    for job c rs s
    by (simp add: write_chunk_def put_file_idem)
qed (simp_all add: store_ok_write write_adds_records)

text \<open>Several chunks of one job, as the workers write them.\<close>

definition write_chunks :: "dumper \<Rightarrow> string \<Rightarrow> (string \<times> result_record list) list \<Rightarrow> chunk_store \<Rightarrow> chunk_store" where
  "write_chunks dump job chunks st = fold (\<lambda>(c, rs) st. fst (write_chunk dump job c rs st)) chunks st"

context record_codec
begin

lemma written_chunks:
  assumes "store_ok dump st" and "distinct (map fst chunks)"
    and "\<And>c. c \<in> set (map fst chunks) \<Longrightarrow> \<not> has_chunk st job c"
    and "\<And>c rs. (c, rs) \<in> set chunks \<Longrightarrow> rs \<noteq> [] \<and> list_all record_clean rs"
  shows "mset (fst (iter_results load job (write_chunks dump job chunks st))) =
      mset (concat (map snd chunks)) + mset (fst (iter_results load job st))"
    and "snd (iter_results load job (write_chunks dump job chunks st)) = None"
  using files.write_all [OF assms] unfolding write_chunks_def by simp_all

lemma written_chunks_other:
  "job' \<noteq> job \<Longrightarrow> iter_results load job' (write_chunks dump job chunks st) = iter_results load job' st"
proof (induction chunks arbitrary: st)
  case (Cons p chunks)
  then show ?case by (cases p) (simp add: write_chunks_def files.write_other)
qed (simp add: write_chunks_def)

end

interpretation json: record_codec json_dump json_load
proof unfold_locales
  show "json_load (json_dump r) = Some r" for r by (rule json_load_dump)
  show "\<exists>s. json_dump r = CHR ''{'' # s" for r by (simp add: json_dump_def)
  show "json_safe (record_text r) c" if "c \<in> set (json_dump r)" for r c
    using that by (rule json_dump_safe)
qed

end
