(* ===== verification/Retry.thy ===== *)
theory Retry
  imports Domain
begin

text \<open>
  \<open>RetryPolicy\<close> (\<open>app/engine/retry.py\<close>). Floats are rationals; the one place where
  the float range shows, \<open>factor ** attempt\<close>, raises \<open>OverflowError\<close> as Python
  does. \<open>random.uniform(0, c)\<close> is \<open>c * u\<close> for a draw \<open>u\<close> of
  \<open>random.random()\<close>, so \<open>0 \<le> u < 1\<close>.
\<close>

record retry_policy =
  rp_base :: rat
  rp_factor :: rat
  rp_cap :: rat
  rp_max_attempts :: int
  rp_retryable_status :: "int list"

definition default_retryable_status :: "int list" where
  "default_retryable_status = [429, 500, 502, 503, 504]"

text \<open>An absent or empty status set falls back to the default one (\<open>or\<close>).\<close>

definition make_retry_policy :: "rat \<Rightarrow> rat \<Rightarrow> rat \<Rightarrow> int \<Rightarrow> int list option \<Rightarrow> retry_policy" where
  "make_retry_policy base factor cap max_attempts status =
     \<lparr>rp_base = base, rp_factor = factor, rp_cap = cap, rp_max_attempts = max_attempts,
      rp_retryable_status =
        (case status of None \<Rightarrow> default_retryable_status
         | Some ss \<Rightarrow> if ss = [] then default_retryable_status else ss)\<rparr>"

definition is_retryable_status :: "retry_policy \<Rightarrow> int \<Rightarrow> bool" where
  "is_retryable_status p status_code \<longleftrightarrow> status_code \<in> set (rp_retryable_status p)"

text \<open>The least magnitude that no longer rounds to a finite double.\<close>

definition float_limit :: rat where
  "float_limit = 2 ^ 1024 - 2 ^ 970"

definition float_pow :: "rat \<Rightarrow> nat \<Rightarrow> exn + rat" where
  "float_pow x n =
     (if float_limit \<le> \<bar>x ^ n\<bar> then Inl (OverflowError ''Numerical result out of range'')
      else Inr (x ^ n))"

definition delay_for :: "retry_policy \<Rightarrow> nat \<Rightarrow> rat \<Rightarrow> exn + rat" where
  "delay_for p attempt u =
     (case float_pow (rp_factor p) attempt of
        Inl e \<Rightarrow> Inl e
      | Inr f \<Rightarrow> let ceiling = min (rp_cap p) (rp_base p * f) in Inr (0 + (ceiling - 0) * u))"

lemma delay_for_cases:
  "delay_for p a u = Inl (OverflowError ''Numerical result out of range'') \<or>
   delay_for p a u = Inr (min (rp_cap p) (rp_base p * rp_factor p ^ a) * u)"
  by (simp add: delay_for_def float_pow_def)

lemma delay_for_bounds:
  assumes "delay_for p a u = Inr d" and "0 \<le> u" "u < 1"
    and "0 \<le> rp_base p" "0 \<le> rp_factor p" "0 \<le> rp_cap p"
  shows "0 \<le> d" "d \<le> rp_cap p" "d \<le> rp_base p * rp_factor p ^ a"
proof -
  let ?c = "min (rp_cap p) (rp_base p * rp_factor p ^ a)"
  have d: "d = ?c * u" using assms(1) delay_for_cases [of p a u] by auto
  have c: "0 \<le> ?c" using assms(4-6) by simp
  show "0 \<le> d" using c assms(2) by (simp add: d)
  have "d \<le> ?c" unfolding d by (rule mult_left_le) (use c assms(3) in simp_all)
  then show "d \<le> rp_cap p" "d \<le> rp_base p * rp_factor p ^ a" by simp_all
qed

text \<open>
  Full jitter: for every draw the delay of attempt \<open>a\<close> is non-negative, at most the cap
  and at most \<open>base * factor ** a\<close>.
\<close>

lemma delay_within_full_jitter:
  assumes "delay_for p a u = Inr d" and "0 \<le> u" "u < 1"
    and "0 \<le> rp_base p" "0 \<le> rp_factor p" "0 \<le> rp_cap p"
  shows "0 \<le> d \<and> d \<le> min (rp_cap p) (rp_base p * rp_factor p ^ a)"
  using delay_for_bounds [OF assms] by simp

lemma delay_within_full_jitter_example:
  "\<exists>d. delay_for (make_retry_policy 1 2 30 5 None) 4 (1 / 2) = Inr d \<and> 0 \<le> d \<and> d \<le> 16"
proof -
  let ?p = "make_retry_policy 1 2 30 5 None"
  have d: "delay_for ?p 4 (1 / 2) = Inr 8"
    by (simp add: delay_for_def float_pow_def float_limit_def make_retry_policy_def)
  have "0 \<le> (8 :: rat) \<and> 8 \<le> min (rp_cap ?p) (rp_base ?p * rp_factor ?p ^ 4)"
    by (rule delay_within_full_jitter [OF d]) (simp_all add: make_retry_policy_def)
  with d show ?thesis by (simp add: make_retry_policy_def)
qed

lemma delay_for_returns:
  assumes "0 \<le> rp_factor p" "rp_factor p \<le> 2" "a < 1024"
  shows "\<exists>d. delay_for p a u = Inr d"
proof -
  have "rp_factor p ^ a \<le> 2 ^ a" using assms by (intro power_mono)
  also have "(2 :: rat) ^ a \<le> 2 ^ 1023" using assms by (intro power_increasing) auto
  also have "(2 :: rat) ^ 1023 < float_limit" by (simp add: float_limit_def)
  finally have "\<not> float_limit \<le> \<bar>rp_factor p ^ a\<bar>" using assms by simp
  then show ?thesis by (simp add: delay_for_def float_pow_def Let_def)
qed

text \<open>
  C32: With the shipped factor of 2 (or less) the delay is defined for the first 1024 attempts;
  attempt 1024 raises \<open>OverflowError\<close> before the cap is applied.
\<close>

theorem delay_defined_until_overflow:
  "(0 \<le> rp_factor p \<and> rp_factor p \<le> 2 \<and> a < 1024 \<longrightarrow> (\<exists>d. delay_for p a u = Inr d)) \<and>
   (rp_factor p = 2 \<longrightarrow>
      delay_for p 1024 u = Inl (OverflowError ''Numerical result out of range''))"
  using delay_for_returns [of p a u]
  by (simp add: delay_for_def float_pow_def float_limit_def)

theorem delay_defined_until_overflow_witness:
  "(\<exists>d. delay_for (make_retry_policy 1 2 30 5 None) 1023 0 = Inr d) \<and>
   delay_for (make_retry_policy 1 2 30 5 None) 1024 0 = Inl (OverflowError ''Numerical result out of range'')"
  using delay_defined_until_overflow [of "make_retry_policy 1 2 30 5 None" 1023 0]
  by (simp add: make_retry_policy_def)

end
