(* ===== verification/Inference.thy ===== *)
theory Inference
  imports Retry
begin

text \<open>
  The inference clients: \<open>MockInferenceClient\<close>
  (\<open>app/infrastructure/inference/mock_client.py\<close>), with its per-prompt failure counter
  as explicit state, and \<open>DOInferenceClient\<close> (\<open>openai_client.py\<close>), whose call to the
  \<open>openai\<close> package is the parameter \<open>api_result\<close>: what the package returned or
  raised.
\<close>

section \<open>The mock client\<close>

record mock_client =
  mc_fail_substring :: "string option"
  mc_transient_fail :: int
  mc_latency_ms :: nat
  mc_seen :: "string \<Rightarrow> nat option"

definition make_mock :: "string option \<Rightarrow> int \<Rightarrow> nat \<Rightarrow> mock_client" where
  "make_mock fail_substring transient_fail latency_ms =
     \<lparr>mc_fail_substring = fail_substring, mc_transient_fail = transient_fail,
      mc_latency_ms = latency_ms, mc_seen = Map.empty\<rparr>"

definition mock_rejects :: "mock_client \<Rightarrow> string \<Rightarrow> bool" where
  "mock_rejects c prompt \<longleftrightarrow>
     (case mc_fail_substring c of None \<Rightarrow> False | Some s \<Rightarrow> s \<noteq> [] \<and> str_contains s prompt)"

definition mock_seen :: "mock_client \<Rightarrow> string \<Rightarrow> nat" where
  "mock_seen c prompt = (case mc_seen c prompt of None \<Rightarrow> 0 | Some n \<Rightarrow> n)"

definition mock_complete ::
  "mock_client \<Rightarrow> inference_request \<Rightarrow> mock_client \<times> (exn + inference_response)" where
  "mock_complete c request =
     (let prompt = rq_prompt request
      in if mock_rejects c prompt
         then (c, Inl (PermanentInferenceError ''mock permanent failure''))
         else if int (mock_seen c prompt) < mc_transient_fail c
         then (c\<lparr>mc_seen := (mc_seen c)(prompt \<mapsto> mock_seen c prompt + 1)\<rparr>,
               Inl (RetryableInferenceError ''mock transient failure''))
         else (c, Inr \<lparr>rs_text = ''[mock] '' @ prompt,
                       rs_prompt_tokens = max 1 (length prompt div 4),
                       rs_completion_tokens = 5, rs_latency_ms = mc_latency_ms c\<rparr>))"

text \<open>The client after \<open>k\<close> calls with one request, and its answer to call \<open>k\<close>.\<close>

fun mock_after :: "mock_client \<Rightarrow> inference_request \<Rightarrow> nat \<Rightarrow> mock_client" where
  "mock_after c rq 0 = c"
| "mock_after c rq (Suc k) = fst (mock_complete (mock_after c rq k) rq)"

definition mock_answer :: "mock_client \<Rightarrow> inference_request \<Rightarrow> nat \<Rightarrow> exn + inference_response" where
  "mock_answer c rq k = snd (mock_complete (mock_after c rq k) rq)"

lemma mock_complete_config [simp]:
  "mc_fail_substring (fst (mock_complete c rq)) = mc_fail_substring c"
  "mc_transient_fail (fst (mock_complete c rq)) = mc_transient_fail c"
  "mc_latency_ms (fst (mock_complete c rq)) = mc_latency_ms c"
  by (simp_all add: mock_complete_def Let_def)

lemma mock_rejects_cong:
  "mc_fail_substring c = mc_fail_substring c' \<Longrightarrow> mock_rejects c p = mock_rejects c' p"
  by (simp add: mock_rejects_def)

lemma mock_after_config [simp]:
  "mc_fail_substring (mock_after c rq k) = mc_fail_substring c"
  "mc_transient_fail (mock_after c rq k) = mc_transient_fail c"
  "mc_latency_ms (mock_after c rq k) = mc_latency_ms c"
  "mock_rejects (mock_after c rq k) p = mock_rejects c p"
proof -
  show cfg: "mc_fail_substring (mock_after c rq k) = mc_fail_substring c"
    "mc_transient_fail (mock_after c rq k) = mc_transient_fail c"
    "mc_latency_ms (mock_after c rq k) = mc_latency_ms c"
    by (induction k) simp_all
  show "mock_rejects (mock_after c rq k) p = mock_rejects c p"
    by (rule mock_rejects_cong) (rule cfg)
qed

lemma mock_seen_after:
  assumes "\<not> mock_rejects c (rq_prompt rq)"
  shows "mock_seen (mock_after c rq k) (rq_prompt rq) =
    mock_seen c (rq_prompt rq) + min k (nat (mc_transient_fail c - int (mock_seen c (rq_prompt rq))))"
proof (induction k)
  case (Suc k)
  show ?case
  proof (cases "int (mock_seen (mock_after c rq k) (rq_prompt rq)) < mc_transient_fail c")
    case True
    then have "mock_seen (mock_after c rq (Suc k)) (rq_prompt rq) =
        mock_seen (mock_after c rq k) (rq_prompt rq) + 1"
      using assms by (simp add: mock_complete_def Let_def) (simp add: mock_seen_def)
    with True Suc.IH show ?thesis by simp
  next
    case False
    then have "mock_seen (mock_after c rq (Suc k)) (rq_prompt rq) =
        mock_seen (mock_after c rq k) (rq_prompt rq)"
      using assms by (simp add: mock_complete_def Let_def)
    with False Suc.IH show ?thesis by simp
  qed
qed simp

lemma mock_answer_transient:
  assumes "\<not> mock_rejects c (rq_prompt rq)" and "mc_seen c (rq_prompt rq) = None"
    and "int k < mc_transient_fail c"
  shows "mock_answer c rq k = Inl (RetryableInferenceError ''mock transient failure'')"
  using assms mock_seen_after [OF assms(1), of k]
  by (simp add: mock_answer_def mock_complete_def Let_def mock_seen_def [of c])

lemma mock_answer_success:
  assumes "\<not> mock_rejects c (rq_prompt rq)" and "mc_seen c (rq_prompt rq) = None"
    and "mc_transient_fail c \<le> int k"
  shows "\<exists>resp. mock_answer c rq k = Inr resp \<and> rs_text resp = ''[mock] '' @ rq_prompt rq"
  using assms mock_seen_after [OF assms(1), of k]
  by (simp add: mock_answer_def mock_complete_def Let_def mock_seen_def [of c])

section \<open>The provider client\<close>

text \<open>
  The exceptions of the \<open>openai\<close> package the code names. \<open>RateLimitError\<close> and
  \<open>InternalServerError\<close> are also \<open>APIStatusError\<close>s and \<open>APITimeoutError\<close> is an
  \<open>APIConnectionError\<close>, which the order of the \<open>except\<close> clauses makes immaterial;
  \<open>APIStatusError\<close> here is any other status error. \<open>OtherError\<close> is any exception
  neither clause names.
\<close>

datatype api_error =
    RateLimitError string
  | APITimeoutError string
  | APIConnectionError string
  | InternalServerError string
  | APIStatusError int string
  | OtherError string

record api_usage =
  us_prompt_tokens :: "nat option"
  us_completion_tokens :: "nat option"

record api_response =
  ar_choices :: "string option list"
  ar_usage :: "api_usage option"

definition do_retryable_status :: "int list" where
  "do_retryable_status = [429, 500, 502, 503, 504]"

fun translate_error :: "api_error \<Rightarrow> exn" where
  "translate_error (RateLimitError m) = RetryableInferenceError m"
| "translate_error (APITimeoutError m) = RetryableInferenceError m"
| "translate_error (APIConnectionError m) = RetryableInferenceError m"
| "translate_error (InternalServerError m) = RetryableInferenceError m"
| "translate_error (APIStatusError code m) =
     (if code \<in> set do_retryable_status then RetryableInferenceError m
      else PermanentInferenceError m)"
| "translate_error (OtherError m) = LibraryError m"

definition tokens_or_0 :: "nat option \<Rightarrow> nat" where
  "tokens_or_0 t = (case t of None \<Rightarrow> 0 | Some n \<Rightarrow> n)"

definition do_complete :: "api_error + api_response \<Rightarrow> nat \<Rightarrow> exn + inference_response" where
  "do_complete api_result latency_ms =
     (case api_result of
        Inl e \<Rightarrow> Inl (translate_error e)
      | Inr resp \<Rightarrow>
          Inr \<lparr>rs_text = (case ar_choices resp of [] \<Rightarrow> [] | c # _ \<Rightarrow> (case c of None \<Rightarrow> [] | Some t \<Rightarrow> t)),
               rs_prompt_tokens = (case ar_usage resp of None \<Rightarrow> 0 | Some u \<Rightarrow> tokens_or_0 (us_prompt_tokens u)),
               rs_completion_tokens =
                 (case ar_usage resp of None \<Rightarrow> 0 | Some u \<Rightarrow> tokens_or_0 (us_completion_tokens u)),
               rs_latency_ms = latency_ms\<rparr>)"

text \<open>
  The client and the retry policy agree on what to retry: a status error becomes a
  \<open>RetryableInferenceError\<close> exactly when the default policy lists its status code.
\<close>

lemma client_and_policy_agree:
  "do_complete (Inl (APIStatusError code m)) lat =
     Inl (if is_retryable_status (make_retry_policy base factor cap n None) code
          then RetryableInferenceError m else PermanentInferenceError m)"
  by (simp add: do_complete_def do_retryable_status_def is_retryable_status_def
      make_retry_policy_def default_retryable_status_def)

end
