(* ===== verification/Worker.thy ===== *)
theory Worker
  imports QueueLaws Storage Inference
begin

text \<open>
  The worker (\<open>app/engine/worker.py\<close>): \<open>_process_row\<close> with its retry loop,
  \<open>_process_chunk\<close>, and the claim / process / flush / commit loop \<open>run\<close> over the ports
  the constructor injects.

  What the surroundings answer is an argument. \<open>row_env\<close> gives, for one row, the client's
  answer to each attempt (under whatever interleaving produced it), the random draw of each
  back-off and the measured latency. \<open>run_env\<close> gives, for each iteration of \<open>run\<close>, the
  clock at the claim, at each heartbeat and at the completion, and the fresh chunk id.
\<close>

section \<open>\<open>_process_row\<close>\<close>

record metrics =
  m_inflight :: int
  m_success :: nat
  m_retryable :: nat
  m_permanent :: nat
  m_unexpected :: nat
  m_retries :: nat
  m_succeeded :: nat
  m_failed :: nat
  m_chunks :: nat

definition no_metrics :: metrics where
  "no_metrics = \<lparr>m_inflight = 0, m_success = 0, m_retryable = 0, m_permanent = 0,
     m_unexpected = 0, m_retries = 0, m_succeeded = 0, m_failed = 0, m_chunks = 0\<rparr>"

record row_env =
  re_answer :: "inference_request \<Rightarrow> nat \<Rightarrow> exn + inference_response"
  re_draw :: "nat \<Rightarrow> rat"
  re_latency_ms :: nat

definition build_request :: "settings \<Rightarrow> claimed_item \<Rightarrow> inference_request" where
  "build_request s item =
     \<lparr>rq_model = llm_model s, rq_prompt = ci_prompt item, rq_max_tokens = max_output_tokens s,
      rq_temperature = 7 / 10, rq_top_p = 1\<rparr>"

text \<open>How the loop ends; the number is the loop variable \<open>attempt\<close> at that point.\<close>

datatype loop_exit =
    Succeeded string nat
  | GaveUp "string option" nat
  | Escaped exn

text \<open>
  \<open>for attempt in range(N)\<close>: \<open>left\<close> iterations remain. The last list collects the
  delays slept.
\<close>

fun attempt_loop ::
  "settings \<Rightarrow> retry_policy \<Rightarrow> row_env \<Rightarrow> inference_request \<Rightarrow> nat \<Rightarrow> nat \<Rightarrow> string option \<Rightarrow>
   metrics \<Rightarrow> rat list \<Rightarrow> loop_exit \<times> metrics \<times> rat list" where
  "attempt_loop s p env rq attempt 0 last_error m slept = (GaveUp last_error (attempt - 1), m, slept)"
| "attempt_loop s p env rq attempt (Suc left) last_error m slept =
     (case re_answer env rq attempt of
        Inr response \<Rightarrow>
          (Succeeded (rs_text response) attempt,
           m\<lparr>m_success := m_success m + 1, m_succeeded := m_succeeded m + 1\<rparr>, slept)
      | Inl e \<Rightarrow>
          (case e of
             RetryableInferenceError msg \<Rightarrow>
               (let m1 = m\<lparr>m_retryable := m_retryable m + 1\<rparr>
                in if int attempt < retry_max_attempts s - 1
                   then (let m2 = m1\<lparr>m_retries := m_retries m1 + 1\<rparr>
                         in case delay_for p attempt (re_draw env attempt) of
                              Inl err \<Rightarrow> (Escaped err, m2, slept)
                            | Inr d \<Rightarrow>
                                attempt_loop s p env rq (Suc attempt) left (Some msg) m2 (slept @ [d]))
                   else attempt_loop s p env rq (Suc attempt) left (Some msg) m1 slept)
           | PermanentInferenceError msg \<Rightarrow>
               (GaveUp (Some msg) attempt, m\<lparr>m_permanent := m_permanent m + 1\<rparr>, slept)
           | _ \<Rightarrow>
               (GaveUp (Some (''unexpected: '' @ exn_str e)) attempt,
                m\<lparr>m_unexpected := m_unexpected m + 1\<rparr>, slept)))"

definition process_row ::
  "settings \<Rightarrow> retry_policy \<Rightarrow> row_env \<Rightarrow> claimed_item \<Rightarrow> metrics \<Rightarrow>
   (exn + result_record) \<times> metrics \<times> rat list" where
  "process_row s p env item m =
     (case attempt_loop s p env (build_request s item) 0 (nat (retry_max_attempts s)) None
             (m\<lparr>m_inflight := m_inflight m + 1\<rparr>) [] of
        (ex, m1, slept) \<Rightarrow>
          (let m2 = m1\<lparr>m_inflight := m_inflight m1 - 1\<rparr>
           in case ex of
                Succeeded text attempt \<Rightarrow>
                  (Inr \<lparr>rr_external_id = ci_external_id item, rr_status = I_SUCCEEDED,
                        rr_response = Some text, rr_error = None, rr_attempts = attempt + 1,
                        rr_latency_ms = Some (re_latency_ms env)\<rparr>, m2, slept)
              | GaveUp last_error attempt \<Rightarrow>
                  (Inr \<lparr>rr_external_id = ci_external_id item, rr_status = I_FAILED,
                        rr_response = None, rr_error = last_error, rr_attempts = attempt + 1,
                        rr_latency_ms = Some (re_latency_ms env)\<rparr>,
                   m2\<lparr>m_failed := m_failed m2 + 1\<rparr>, slept)
              | Escaped e \<Rightarrow> (Inl e, m2, slept)))"

section \<open>\<open>_process_chunk\<close>\<close>

text \<open>
  \<open>asyncio.gather\<close>: the results in the order of the rows, or the exception of a row that
  raised, as if the rows ran one after the other; \<open>Interleave\<close> shows that this is what every
  interleaving of them computes.
\<close>

fun process_rows ::
  "settings \<Rightarrow> retry_policy \<Rightarrow> (claimed_item \<Rightarrow> row_env) \<Rightarrow> claimed_item list \<Rightarrow> metrics \<Rightarrow>
   (exn + result_record) list \<times> metrics" where
  "process_rows s p env [] m = ([], m)"
| "process_rows s p env (c # cs) m =
     (case process_row s p (env c) c m of
        (r, m', _) \<Rightarrow> (case process_rows s p env cs m' of (rs, m'') \<Rightarrow> (r # rs, m'')))"

fun gather :: "(exn + 'a) list \<Rightarrow> exn + 'a list" where
  "gather [] = Inr []"
| "gather (x # xs) =
     (case x of Inl e \<Rightarrow> Inl e
      | Inr a \<Rightarrow> (case gather xs of Inl e \<Rightarrow> Inl e | Inr as \<Rightarrow> Inr (a # as)))"

definition process_chunk ::
  "settings \<Rightarrow> retry_policy \<Rightarrow> (claimed_item \<Rightarrow> row_env) \<Rightarrow> claimed_item list \<Rightarrow> metrics \<Rightarrow>
   (exn + result_record list) \<times> metrics" where
  "process_chunk s p env chunk m =
     (case process_rows s p env chunk m of (rs, m') \<Rightarrow> (gather rs, m'))"

section \<open>\<open>run\<close>\<close>

record ('q, 's) worker_state =
  ws_queue :: 'q
  ws_store :: 's
  ws_metrics :: metrics

record run_env =
  en_claim_time :: "nat \<Rightarrow> time"
  en_beats :: "nat \<Rightarrow> time list"
  en_commit_time :: "nat \<Rightarrow> time"
  en_chunk_id :: "nat \<Rightarrow> string"
  en_rows :: "nat \<Rightarrow> claimed_item \<Rightarrow> row_env"

definition heartbeats ::
  "(string \<Rightarrow> int \<Rightarrow> time \<Rightarrow> 'q \<Rightarrow> 'q) \<Rightarrow> string \<Rightarrow> int \<Rightarrow> time list \<Rightarrow> 'q \<Rightarrow> 'q" where
  "heartbeats renew worker ttl ts q = fold (\<lambda>t q. renew worker ttl t q) ts q"

text \<open>
  The loop over the queue's and the storage's operations; \<open>k\<close> counts the iterations.
  \<open>None\<close>: the fuel ran out. \<open>Some (Inl e)\<close>: \<open>run\<close> raised \<open>e\<close>, with the
  state it left behind.
\<close>

fun worker_run ::
  "(uuid \<Rightarrow> string \<Rightarrow> nat \<Rightarrow> int \<Rightarrow> time \<Rightarrow> 'q \<Rightarrow> 'q \<times> claimed_item list) \<Rightarrow>
   (string \<Rightarrow> result_record list \<Rightarrow> string \<Rightarrow> time \<Rightarrow> 'q \<Rightarrow> 'q \<times> nat) \<Rightarrow>
   (string \<Rightarrow> int \<Rightarrow> time \<Rightarrow> 'q \<Rightarrow> 'q) \<Rightarrow>
   (string \<Rightarrow> string \<Rightarrow> result_record list \<Rightarrow> 's \<Rightarrow> exn + 's \<times> string) \<Rightarrow>
   settings \<Rightarrow> retry_policy \<Rightarrow> run_env \<Rightarrow> uuid \<Rightarrow> string \<Rightarrow> nat \<Rightarrow> nat \<Rightarrow>
   ('q, 's) worker_state \<Rightarrow> ((exn + unit) \<times> ('q, 's) worker_state) option" where
  "worker_run claim commit renew store s p env job w 0 k st = None"
| "worker_run claim commit renew store s p env job w (Suc fuel) k st =
     (case claim job w (chunk_size s) (lease_ttl_seconds s) (en_claim_time env k) (ws_queue st) of
        (q1, chunk) \<Rightarrow>
          if chunk = [] then Some (Inr (), st\<lparr>ws_queue := q1\<rparr>)
          else
            (let m1 = (ws_metrics st)\<lparr>m_chunks := m_chunks (ws_metrics st) + 1\<rparr>;
                 q2 = heartbeats renew w (lease_ttl_seconds s) (en_beats env k) q1
             in case process_chunk s p (en_rows env k) chunk m1 of
                  (Inl e, m2) \<Rightarrow> Some (Inl e, st\<lparr>ws_queue := q2, ws_metrics := m2\<rparr>)
                | (Inr results, m2) \<Rightarrow>
                    (case store job (en_chunk_id env k) results (ws_store st) of
                       Inl e \<Rightarrow> Some (Inl e, st\<lparr>ws_queue := q2, ws_metrics := m2\<rparr>)
                     | Inr (store', ref) \<Rightarrow>
                         worker_run claim commit renew store s p env job w fuel (Suc k)
                           (st\<lparr>ws_queue := fst (commit w results ref (en_commit_time env k) q2),
                               ws_store := store', ws_metrics := m2\<rparr>))))"

section \<open>The retry loop against its specification\<close>

definition is_retryable :: "exn + inference_response \<Rightarrow> bool" where
  "is_retryable a = (case a of Inl (RetryableInferenceError m) \<Rightarrow> True | _ \<Rightarrow> False)"

text \<open>
  What the retry loop means, without the loop: the first attempt whose answer is not retryable
  decides the row; without one the row fails with the last error.
\<close>

definition decide :: "exn + inference_response \<Rightarrow> nat \<Rightarrow> loop_exit" where
  "decide a k =
     (case a of Inr response \<Rightarrow> Succeeded (rs_text response) k
      | Inl e \<Rightarrow>
         (case e of PermanentInferenceError m \<Rightarrow> GaveUp (Some m) k
          | _ \<Rightarrow> GaveUp (Some (''unexpected: '' @ exn_str e)) k))"

definition error_text :: "exn + inference_response \<Rightarrow> string" where
  "error_text a = (case a of Inl e \<Rightarrow> exn_str e | Inr _ \<Rightarrow> [])"

definition row_spec :: "(nat \<Rightarrow> exn + inference_response) \<Rightarrow> nat \<Rightarrow> loop_exit" where
  "row_spec answer n =
     (case find (\<lambda>k. \<not> is_retryable (answer k)) [0..<n] of
        Some k \<Rightarrow> decide (answer k) k
      | None \<Rightarrow> if n = 0 then GaveUp None 0 else GaveUp (Some (error_text (answer (n - 1)))) (n - 1))"

definition delays_defined :: "retry_policy \<Rightarrow> row_env \<Rightarrow> nat \<Rightarrow> bool" where
  "delays_defined p env n \<longleftrightarrow> (\<forall>a < n. \<exists>d. delay_for p a (re_draw env a) = Inr d)"

lemma find_upt_Cons: "i < n \<Longrightarrow> find P [i..<n] = (if P i then Some i else find P [Suc i..<n])"
  by (simp add: upt_conv_Cons)

lemma attempt_loop_exit:
  assumes "delays_defined p env n" and "n = nat (retry_max_attempts s)" and "a + left = n"
    and "lst = (if a = 0 then None else Some (error_text (re_answer env rq (a - 1))))"
  shows "fst (attempt_loop s p env rq a left lst m slept) =
    (case find (\<lambda>k. \<not> is_retryable (re_answer env rq k)) [a..<n] of
       Some k \<Rightarrow> decide (re_answer env rq k) k
     | None \<Rightarrow> if n = 0 then GaveUp None 0
               else GaveUp (Some (error_text (re_answer env rq (n - 1)))) (n - 1))"
  using assms
proof (induction left arbitrary: a lst m slept)
  case (Suc left)
  have a: "a < n" using Suc.prems by simp
  then obtain d where d: "delay_for p a (re_draw env a) = Inr d"
    using Suc.prems(1) by (auto simp: delays_defined_def)
  note IH = Suc.IH [of "Suc a" "Some (error_text (re_answer env rq a))"]
  show ?case
  proof (cases "is_retryable (re_answer env rq a)")
    case True
    then obtain msg where "re_answer env rq a = Inl (RetryableInferenceError msg)"
      by (auto simp: is_retryable_def split: sum.splits exn.splits)
    with True d IH Suc.prems a show ?thesis
      by (auto simp: Let_def find_upt_Cons error_text_def)
  next
    case False
    with a show ?thesis
      by (auto simp: find_upt_Cons decide_def is_retryable_def split: sum.splits exn.splits)
  qed
qed auto

lemma attempt_loop_spec:
  assumes "delays_defined p env (nat (retry_max_attempts s))"
  shows "fst (attempt_loop s p env rq 0 (nat (retry_max_attempts s)) None m []) =
    row_spec (re_answer env rq) (nat (retry_max_attempts s))"
  using attempt_loop_exit [OF assms refl, of 0] by (simp add: row_spec_def)

definition result_of :: "claimed_item \<Rightarrow> nat \<Rightarrow> loop_exit \<Rightarrow> exn + result_record" where
  "result_of item latency ex =
     (case ex of
        Succeeded text k \<Rightarrow> Inr \<lparr>rr_external_id = ci_external_id item, rr_status = I_SUCCEEDED,
          rr_response = Some text, rr_error = None, rr_attempts = k + 1, rr_latency_ms = Some latency\<rparr>
      | GaveUp err k \<Rightarrow> Inr \<lparr>rr_external_id = ci_external_id item, rr_status = I_FAILED,
          rr_response = None, rr_error = err, rr_attempts = k + 1, rr_latency_ms = Some latency\<rparr>
      | Escaped e \<Rightarrow> Inl e)"

lemma process_row_result_of:
  "fst (process_row s p env item m) =
     result_of item (re_latency_ms env)
       (fst (attempt_loop s p env (build_request s item) 0 (nat (retry_max_attempts s)) None
          (m\<lparr>m_inflight := m_inflight m + 1\<rparr>) []))"
  by (simp add: process_row_def result_of_def Let_def split: prod.split loop_exit.split)

lemma process_row_eq_spec:
  "delays_defined p env (nat (retry_max_attempts s)) \<Longrightarrow>
   fst (process_row s p env item m) =
     result_of item (re_latency_ms env)
       (row_spec (re_answer env (build_request s item)) (nat (retry_max_attempts s)))"
  by (simp add: process_row_result_of attempt_loop_spec)

section \<open>What the loop does to the counters and the clock\<close>

lemma attempt_loop_inflight:
  "m_inflight (fst (snd (attempt_loop s p env rq a left lst m slept))) = m_inflight m"
  by (induction left arbitrary: a lst m slept)
     (auto simp: Let_def split: sum.splits exn.splits)

lemma process_row_inflight:
  "m_inflight (fst (snd (process_row s p env item m))) = m_inflight m"
  using attempt_loop_inflight [of s p env "build_request s item" 0 "nat (retry_max_attempts s)" None
      "m\<lparr>m_inflight := m_inflight m + 1\<rparr>" "[]"]
  by (auto simp: process_row_def Let_def split: prod.splits loop_exit.splits)

definition policy_ok :: "retry_policy \<Rightarrow> bool" where
  "policy_ok p \<longleftrightarrow> 0 \<le> rp_base p \<and> 0 \<le> rp_factor p \<and> 0 \<le> rp_cap p"

definition draws_ok :: "row_env \<Rightarrow> bool" where
  "draws_ok env \<longleftrightarrow> (\<forall>k. 0 \<le> re_draw env k \<and> re_draw env k < 1)"

lemma attempt_loop_slept:
  assumes "policy_ok p" and "draws_ok env"
  shows "list_all (\<lambda>d. 0 \<le> d \<and> d \<le> rp_cap p) slept \<Longrightarrow>
    list_all (\<lambda>d. 0 \<le> d \<and> d \<le> rp_cap p) (snd (snd (attempt_loop s p env rq a left lst m slept)))"
proof (induction left arbitrary: a lst m slept)
  case (Suc left)
  have bound: "0 \<le> d \<and> d \<le> rp_cap p" if "delay_for p a (re_draw env a) = Inr d" for d
    using delay_for_bounds [OF that] assms by (simp add: policy_ok_def draws_ok_def)
  show ?case using Suc bound
    by (auto simp: Let_def split: sum.splits exn.splits)
qed simp

lemma attempt_loop_slept_length:
  "length (snd (snd (attempt_loop s p env rq a left lst m slept))) \<le>
     length slept + (nat (retry_max_attempts s - 1) - a)"
proof (induction left arbitrary: a lst m slept)
  case (Suc left)
  have keep: "length (snd (snd (attempt_loop s p env rq (Suc a) left l m' slept))) \<le>
      length slept + (nat (retry_max_attempts s - 1) - a)" for l m'
    using Suc.IH [of "Suc a" l m' slept] by linarith
  have sleep: "length (snd (snd (attempt_loop s p env rq (Suc a) left l m' (slept @ [d])))) \<le>
      length slept + (nat (retry_max_attempts s - 1) - a)"
    if "int a < retry_max_attempts s - 1" for l m' d
    using Suc.IH [of "Suc a" l m' "slept @ [d]"] that by simp
  show ?case using keep sleep
    by (cases "int a < retry_max_attempts s - 1") (auto simp: Let_def split: sum.split exn.split)
qed simp

end
