(* ===== verification/WorkerProps.thy ===== *)
theory WorkerProps
  imports Worker
begin

text \<open>
  What the worker guarantees. The row loop equals its specification \<open>row_spec\<close> and keeps
  the gauge balanced; a chunk's results are one terminal record per claimed row. The loop
  \<open>run\<close> is proved to return, over any queue that keeps the port's laws (the locales
  \<open>work_queue\<close> and \<open>draining_queue\<close>), with the number of open rows as its measure.
\<close>

section \<open>Results of a chunk\<close>

text \<open>The counters do not influence the result.\<close>

lemma attempt_loop_exit_indep:
  "fst (attempt_loop s p env rq a left lst m slept) = fst (attempt_loop s p env rq a left lst m' slept')"
proof (induction left arbitrary: a lst m slept m' slept')
  case (Suc left)
  note IH = Suc.IH [of "Suc a"]
  show ?case
    by (auto simp: Let_def split: sum.split exn.split intro: IH)
qed simp

definition row_result :: "settings \<Rightarrow> retry_policy \<Rightarrow> row_env \<Rightarrow> claimed_item \<Rightarrow> exn + result_record" where
  "row_result s p env item = fst (process_row s p env item no_metrics)"

lemma process_row_result: "fst (process_row s p env item m) = row_result s p env item"
  unfolding row_result_def process_row_result_of by (subst attempt_loop_exit_indep) (rule refl)

lemma process_rows_results:
  "fst (process_rows s p env cs m) = map (\<lambda>c. row_result s p (env c) c) cs"
proof (induction cs arbitrary: m)
  case (Cons c cs)
  then show ?case using process_row_result [of s p "env c" c m]
    by (auto split: prod.split) (metis fst_conv)
qed simp

lemma process_chunk_results:
  "fst (process_chunk s p env chunk m) = gather (map (\<lambda>c. row_result s p (env c) c) chunk)"
  using process_rows_results [of s p env chunk m]
  by (cases "process_rows s p env chunk m") (simp add: process_chunk_def)

lemma gather_Inr_iff: "gather xs = Inr ys \<longleftrightarrow> xs = map Inr ys"
proof
  show "gather xs = Inr ys \<Longrightarrow> xs = map Inr ys"
    by (induction xs arbitrary: ys) (auto split: sum.splits)
  have "gather (map Inr ys) = Inr ys" by (induction ys) simp_all
  then show "xs = map Inr ys \<Longrightarrow> gather xs = Inr ys" by simp
qed

lemma gather_Inl: "gather xs = Inl e \<Longrightarrow> Inl e \<in> set xs"
  by (induction xs) (auto split: sum.splits)

lemma row_result_Inr:
  "row_result s p env item = Inr r \<Longrightarrow> rr_external_id r = ci_external_id item \<and> is_terminal (rr_status r)"
  unfolding row_result_def process_row_result_of
  by (auto simp: result_of_def split: loop_exit.splits)

lemma row_result_defined:
  "delays_defined p env (nat (retry_max_attempts s)) \<Longrightarrow> \<exists>r. row_result s p env item = Inr r"
  unfolding row_result_def process_row_eq_spec
  by (auto simp: result_of_def row_spec_def decide_def split: option.split sum.split exn.split)

text \<open>One record per claimed row, in order, each terminal.\<close>

lemma process_chunk_Inr:
  assumes "fst (process_chunk s p env chunk m) = Inr rs"
  shows "map rr_external_id rs = map ci_external_id chunk" and "results_terminal rs"
proof -
  have rs: "map (\<lambda>c. row_result s p (env c) c) chunk = map Inr rs"
    using assms by (simp add: process_chunk_results gather_Inr_iff)
  then have "list_all2 (\<lambda>c r. row_result s p (env c) c = Inr r) chunk rs"
    by (simp add: list_eq_iff_nth_eq list_all2_conv_all_nth)
  then have "list_all2 (\<lambda>c r. rr_external_id r = ci_external_id c \<and> is_terminal (rr_status r)) chunk rs"
    by (rule list_all2_mono) (rule row_result_Inr)
  then show "map rr_external_id rs = map ci_external_id chunk" and "results_terminal rs"
    by (induction rule: list_all2_induct) (simp_all add: results_terminal_def)
qed

lemma process_chunk_defined:
  assumes "\<And>c. c \<in> set chunk \<Longrightarrow> delays_defined p (env c) (nat (retry_max_attempts s))"
  shows "\<exists>rs. fst (process_chunk s p env chunk m) = Inr rs"
proof (cases "fst (process_chunk s p env chunk m)")
  case (Inl e)
  then have "Inl e \<in> (\<lambda>c. row_result s p (env c) c) ` set chunk"
    using gather_Inl [of "map (\<lambda>c. row_result s p (env c) c) chunk"] by (simp add: process_chunk_results)
  then obtain c where "c \<in> set chunk" and e: "row_result s p (env c) c = Inl e" by auto
  with row_result_defined [OF assms, of c c] show ?thesis by simp
qed simp

section \<open>The loop returns\<close>

text \<open>No row of the job is held by anyone.\<close>

definition unheld :: "('q \<Rightarrow> uuid \<Rightarrow> string \<Rightarrow> item_view option) \<Rightarrow> 'q \<Rightarrow> uuid \<Rightarrow> bool" where
  "unheld view q job \<longleftrightarrow> (\<forall>e v. view q job e \<noteq> Some (Held v))"

context work_queue
begin

lemma heartbeats_keep: "invar q \<Longrightarrow> invar (heartbeats renew w l ts q) \<and>
    view (heartbeats renew w l ts q) job e = view q job e"
proof (induction ts arbitrary: q)
  case (Cons t ts)
  then show ?case using Cons.IH [OF invar_renew [OF Cons.prems, of w l t]] renew_law
    by (simp add: heartbeats_def)
qed (simp add: heartbeats_def)

end

context draining_queue
begin

lemma round_unheld:
  assumes inv: "invar q" and un: "unheld view q job" and cl: "claim job w n l now q = (q1, chunk)"
    and rs: "results_terminal rs" and ids: "map rr_external_id rs = map ci_external_id chunk"
  shows "unheld view (fst (complete w rs ref now' (heartbeats renew w l' ts q1))) job"
proof -
  have inv1: "invar q1" using invar_claim [OF inv, of job w n l now] cl by simp
  note hb = heartbeats_keep [OF inv1, of w l' ts]
  have "finish_view w rs ref e (Held w) = Held v \<Longrightarrow> e \<notin> set (map rr_external_id rs)" for e v
    by (auto simp: finish_view_def first_result_def find_None_iff split: option.splits)
  then show ?thesis
    using un claim_law [OF inv, of job w n l now job] cl ids complete_law [OF conjunct1 [OF hb] rs] hb
    by (fastforce simp: unheld_def finish_view_def split: if_splits option.splits)
qed

lemma worker_run_drains:
  assumes "invar (ws_queue st)" and "unheld view (ws_queue st) job" and "0 < chunk_size s"
    and delays: "\<And>k c. delays_defined p (en_rows env k c) (nat (retry_max_attempts s))"
    and store: "\<And>c rs st. \<exists>st' ref. store job c rs st = Inr (st', ref)"
    and "card (open_items view (ws_queue st) job) < fuel"
  shows "\<exists>st'. worker_run claim complete renew store s p env job w fuel k st = Some (Inr (), st') \<and>
    invar (ws_queue st') \<and> open_items view (ws_queue st') job = {}"
  using assms(1-3,6)
proof (induction fuel arbitrary: k st)
  case (Suc fuel)
  let ?q = "ws_queue st"
  obtain q1 chunk where cl: "claim job w (chunk_size s) (lease_ttl_seconds s) (en_claim_time env k) ?q = (q1, chunk)"
    by fastforce
  have inv1: "invar q1" using invar_claim [OF Suc.prems(1)] cl by (metis fst_conv)
  show ?case
  proof (cases "chunk = []")
    case True
    have "open_items view ?q job = {}"
      using drained_rows_held [OF Suc.prems(1,3), of job w "lease_ttl_seconds s" "en_claim_time env k"]
        cl True Suc.prems(2)
      by (auto simp: open_items_def unheld_def)
    moreover have "open_items view q1 job = open_items view ?q job"
      using claim_keeps_open [OF Suc.prems(1)] cl by (metis fst_conv)
    ultimately show ?thesis using cl True inv1 by simp
  next
    case False
    let ?q2 = "heartbeats renew w (lease_ttl_seconds s) (en_beats env k) q1"
    let ?m = "(ws_metrics st)\<lparr>m_chunks := m_chunks (ws_metrics st) + 1\<rparr>"
    obtain rs m2 where pc: "process_chunk s p (en_rows env k) chunk ?m = (Inr rs, m2)"
      using process_chunk_defined [of chunk p "en_rows env k" s ?m] delays by (metis prod.collapse)
    note res = process_chunk_Inr [of s p "en_rows env k" chunk ?m rs]
    obtain store' ref where st': "store job (en_chunk_id env k) rs (ws_store st) = Inr (store', ref)"
      using store by blast
    let ?q3 = "fst (complete w rs ref (en_commit_time env k) ?q2)"
    have cover: "ci_external_id ` set chunk = rr_external_id ` set rs"
      using res pc by (metis fst_conv set_map)
    note hb = heartbeats_keep [OF inv1, of w "lease_ttl_seconds s" "en_beats env k"]
    have "card (open_items view ?q3 job) < card (open_items view ?q job)"
      using round_progress [OF Suc.prems(1) cl False conjunct1 [OF hb]] hb res pc cover by simp
    moreover have "invar ?q3" using invar_complete hb res pc by simp
    moreover have "unheld view ?q3 job"
      using round_unheld [OF Suc.prems(1,2) cl] res pc by simp
    ultimately show ?thesis
      using Suc.IH [of "st\<lparr>ws_queue := ?q3, ws_store := store', ws_metrics := m2\<rparr>" "Suc k"]
        Suc.prems(3,4) False cl pc st' by (simp add: Let_def)
  qed
qed simp

end

section \<open>Properties of a row\<close>

text \<open>Up to 1024 attempts with a factor of at most 2 every delay is defined.\<close>

lemma delays_defined_shipped:
  "0 \<le> rp_factor p \<Longrightarrow> rp_factor p \<le> 2 \<Longrightarrow> n \<le> 1024 \<Longrightarrow> delays_defined p env n"
  using delay_for_returns by (auto simp: delays_defined_def)

text \<open>The back-off of the shipped settings.\<close>

definition shipped_policy :: retry_policy where
  "shipped_policy = make_retry_policy (retry_base default_settings) (retry_factor default_settings)
     (retry_cap default_settings) (retry_max_attempts default_settings) None"

lemma shipped_policy_sel [simp]:
  "rp_base shipped_policy = 1" "rp_factor shipped_policy = 2" "rp_cap shipped_policy = 30"
  by (simp_all add: shipped_policy_def make_retry_policy_def default_settings_def)

definition demo_env :: "(inference_request \<Rightarrow> nat \<Rightarrow> exn + inference_response) \<Rightarrow> row_env" where
  "demo_env answer = \<lparr>re_answer = answer, re_draw = (\<lambda>_. 1 / 2), re_latency_ms = 3\<rparr>"

definition demo_item :: claimed_item where
  "demo_item = \<lparr>ci_id = 1, ci_external_id = ''a'', ci_prompt = ''hi'', ci_attempts = 1\<rparr>"

text \<open>
  C20: The retry loop computes its specification: the first attempt whose answer is not
  retryable decides the row (its text on success, its message on a permanent error, its message
  behind a marker on an unknown exception, and its number plus one as the attempt count); when
  all attempts are retryable the row fails with the last message and the full attempt count.
\<close>

theorem process_row_meets_spec:
  assumes "\<And>a. a < nat (retry_max_attempts s) \<Longrightarrow> \<exists>d. delay_for p a (re_draw env a) = Inr d"
  shows "fst (process_row s p env item m) =
    result_of item (re_latency_ms env)
      (case find (\<lambda>k. \<not> is_retryable (re_answer env (build_request s item) k))
              [0..<nat (retry_max_attempts s)] of
         Some k \<Rightarrow> decide (re_answer env (build_request s item) k) k
       | None \<Rightarrow>
           if retry_max_attempts s \<le> 0 then GaveUp None 0
           else GaveUp (Some (error_text (re_answer env (build_request s item)
                                (nat (retry_max_attempts s) - 1)))) (nat (retry_max_attempts s) - 1))"
proof -
  have "delays_defined p env (nat (retry_max_attempts s))" using assms by (simp add: delays_defined_def)
  then show ?thesis by (simp add: process_row_eq_spec row_spec_def split: option.split)
qed

theorem process_row_meets_spec_witness:
  "fst (process_row default_settings shipped_policy
      (demo_env (\<lambda>rq k. if k = 0 then Inl (RetryableInferenceError ''busy'')
                        else Inl (PermanentInferenceError ''bad''))) demo_item no_metrics) =
   Inr \<lparr>rr_external_id = ''a'', rr_status = I_FAILED, rr_response = None, rr_error = Some ''bad'',
        rr_attempts = 2, rr_latency_ms = Some 3\<rparr>"
  by (subst process_row_meets_spec)
     (auto intro!: delay_for_returns
       simp: default_settings_def demo_env_def demo_item_def is_retryable_def decide_def result_of_def
         upt_rec)

lemma attempt_loop_items:
  "fst (attempt_loop s p env rq a left lst m slept) = ex \<Longrightarrow>
   m_failed (fst (snd (attempt_loop s p env rq a left lst m slept))) = m_failed m \<and>
   m_succeeded (fst (snd (attempt_loop s p env rq a left lst m slept))) =
     m_succeeded m + (case ex of Succeeded t k \<Rightarrow> 1 | _ \<Rightarrow> 0)"
proof (induction left arbitrary: a lst m slept)
  case (Suc left)
  note IH = Suc.IH [of "Suc a"]
  show ?case using Suc.prems IH
    by (auto simp: Let_def split: sum.splits exn.splits if_splits)
qed auto

text \<open>
  Every way out of a row, an exception out of the back-off included, leaves the in-flight
  gauge where it was, and the item counters count exactly the results returned: one success or
  one failure with the result's status, none when the row raised.
\<close>

lemma process_row_metrics_balanced:
  "case process_row s p env item m of
     (outcome, m', _) \<Rightarrow>
       m_inflight m' = m_inflight m \<and>
       m_succeeded m' = m_succeeded m +
         (case outcome of Inr r \<Rightarrow> if rr_status r = I_SUCCEEDED then 1 else 0 | Inl e \<Rightarrow> 0) \<and>
       m_failed m' = m_failed m +
         (case outcome of Inr r \<Rightarrow> if rr_status r = I_FAILED then 1 else 0 | Inl e \<Rightarrow> 0)"
proof -
  let ?l = "attempt_loop s p env (build_request s item) 0 (nat (retry_max_attempts s)) None
      (m\<lparr>m_inflight := m_inflight m + 1\<rparr>) []"
  show ?thesis
    using attempt_loop_items [of s p env "build_request s item" 0 "nat (retry_max_attempts s)" None
        "m\<lparr>m_inflight := m_inflight m + 1\<rparr>" "[]", OF refl] process_row_inflight [of s p env item m]
    by (cases ?l) (auto simp: process_row_def Let_def split: loop_exit.splits)
qed

text \<open>
  A row sleeps fewer times than it has attempts, and every sleep lies between 0 and the
  policy's cap.
\<close>

lemma row_backoff_bounded:
  assumes "policy_ok p" and "draws_ok env"
  shows "list_all (\<lambda>d. 0 \<le> d \<and> d \<le> rp_cap p) (snd (snd (process_row s p env item m))) \<and>
    length (snd (snd (process_row s p env item m))) \<le> nat (retry_max_attempts s - 1)"
proof (rule conjI)
  let ?l = "attempt_loop s p env (build_request s item) 0 (nat (retry_max_attempts s)) None
      (m\<lparr>m_inflight := m_inflight m + 1\<rparr>) []"
  have same: "snd (snd (process_row s p env item m)) = snd (snd ?l)"
    by (cases ?l) (auto simp: process_row_def Let_def split: loop_exit.split)
  show "list_all (\<lambda>d. 0 \<le> d \<and> d \<le> rp_cap p) (snd (snd (process_row s p env item m)))"
    unfolding same by (rule attempt_loop_slept [OF assms]) simp
  show "length (snd (snd (process_row s p env item m))) \<le> nat (retry_max_attempts s - 1)"
    unfolding same
    using attempt_loop_slept_length [of s p env "build_request s item" 0 "nat (retry_max_attempts s)"
        None "m\<lparr>m_inflight := m_inflight m + 1\<rparr>" "[]"] by simp
qed

text \<open>
  With no attempts configured a row still fails cleanly, without any call, but it reports one
  attempt: the loop variable starts at 0 and is reported plus one.
\<close>

lemma zero_attempts_reports_one:
  assumes "retry_max_attempts s \<le> 0"
  shows "process_row s p env item m =
    (Inr \<lparr>rr_external_id = ci_external_id item, rr_status = I_FAILED, rr_response = None,
          rr_error = None, rr_attempts = 1, rr_latency_ms = Some (re_latency_ms env)\<rparr>,
     m\<lparr>m_failed := m_failed m + 1\<rparr>, [])"
  using assms by (simp add: process_row_def Let_def)

lemma row_backoff_bounded_example:
  "let slept = snd (snd (process_row default_settings shipped_policy
       (demo_env (\<lambda>rq k. Inl (RetryableInferenceError ''busy''))) demo_item no_metrics))
   in list_all (\<lambda>d. 0 \<le> d \<and> d \<le> 30) slept \<and> length slept \<le> 4"
  using row_backoff_bounded [of shipped_policy "demo_env (\<lambda>rq k. Inl (RetryableInferenceError ''busy''))"
      default_settings demo_item no_metrics]
  by (simp add: Let_def policy_ok_def draws_ok_def demo_env_def) (simp add: default_settings_def)

lemma find_upt_first:
  "k < n \<Longrightarrow> P k \<Longrightarrow> (\<And>j. j < k \<Longrightarrow> \<not> P j) \<Longrightarrow> find P [0..<n] = Some k"
  by (auto simp: find_Some_iff intro!: exI [of _ k])

lemma find_upt_none: "(\<And>j. j < n \<Longrightarrow> \<not> P j) \<Longrightarrow> find P [0..<n] = None"
  by (auto simp: find_None_iff)

text \<open>
  A row against a fresh mock client that fails its first \<open>t\<close> calls: with fewer failures
  than attempts it succeeds on attempt \<open>t + 1\<close> with the mock text; otherwise it fails after
  all attempts with the transient message; a rejected prompt fails at once, without a retry.
\<close>

lemma mock_row_spec:
  fixes c :: mock_client and rq :: inference_request
  assumes "mc_seen c = Map.empty" and n: "0 < n"
  shows "row_spec (mock_answer c rq) n =
    (if mock_rejects c (rq_prompt rq) then GaveUp (Some ''mock permanent failure'') 0
     else if mc_transient_fail c < int n then Succeeded (''[mock] '' @ rq_prompt rq) (nat (mc_transient_fail c))
     else GaveUp (Some ''mock transient failure'') (n - 1))"
proof -
  let ?t = "mc_transient_fail c"
  consider (rejected) "mock_rejects c (rq_prompt rq)"
    | (early) "\<not> mock_rejects c (rq_prompt rq)" "?t < int n"
    | (late) "\<not> mock_rejects c (rq_prompt rq)" "int n \<le> ?t" by linarith
  then show ?thesis
  proof cases
    case rejected
    then have "mock_answer c rq 0 = Inl (PermanentInferenceError ''mock permanent failure'')"
      by (simp add: mock_answer_def mock_complete_def)
    with rejected show ?thesis
      using find_upt_first [of 0 n "\<lambda>k. \<not> is_retryable (mock_answer c rq k)"] n
      by (simp add: row_spec_def is_retryable_def decide_def)
  next
    case early
    have bad: "is_retryable (mock_answer c rq k)" if "k < nat ?t" for k
      using mock_answer_transient [of c rq k] early(1) assms(1) that by (simp add: is_retryable_def)
    obtain resp where good: "mock_answer c rq (nat ?t) = Inr resp"
      and resp: "rs_text resp = ''[mock] '' @ rq_prompt rq"
      using mock_answer_success [of c rq "nat ?t"] early(1) assms(1)
      by (metis Orderings.order.refl int_nat_eq linorder_linear)
    then show ?thesis
      using find_upt_first [of "nat ?t" n "\<lambda>k. \<not> is_retryable (mock_answer c rq k)"] bad early n
      by (simp add: row_spec_def is_retryable_def decide_def)
  next
    case late
    have ans: "mock_answer c rq k = Inl (RetryableInferenceError ''mock transient failure'')" if "k < n" for k
      using mock_answer_transient [of c rq k] late assms(1) that by simp
    then have "find (\<lambda>k. \<not> is_retryable (mock_answer c rq k)) [0..<n] = None"
      by (intro find_upt_none) (simp add: is_retryable_def)
    with late show ?thesis using ans [of "n - 1"] n by (simp add: row_spec_def error_text_def)
  qed
qed

lemma mock_row_outcome:
  assumes "mc_seen c = Map.empty" and "0 < retry_max_attempts s"
    and "\<And>a. a < nat (retry_max_attempts s) \<Longrightarrow> \<exists>d. delay_for p a (re_draw env a) = Inr d"
    and "re_answer env = mock_answer c"
  shows "fst (process_row s p env item m) = Inr
    (if mock_rejects c (ci_prompt item)
     then \<lparr>rr_external_id = ci_external_id item, rr_status = I_FAILED, rr_response = None,
           rr_error = Some ''mock permanent failure'', rr_attempts = 1,
           rr_latency_ms = Some (re_latency_ms env)\<rparr>
     else if mc_transient_fail c < retry_max_attempts s
     then \<lparr>rr_external_id = ci_external_id item, rr_status = I_SUCCEEDED,
           rr_response = Some (''[mock] '' @ ci_prompt item), rr_error = None,
           rr_attempts = nat (mc_transient_fail c) + 1, rr_latency_ms = Some (re_latency_ms env)\<rparr>
     else \<lparr>rr_external_id = ci_external_id item, rr_status = I_FAILED, rr_response = None,
           rr_error = Some ''mock transient failure'', rr_attempts = nat (retry_max_attempts s),
           rr_latency_ms = Some (re_latency_ms env)\<rparr>)"
proof -
  have "fst (process_row s p env item m) = result_of item (re_latency_ms env)
      (row_spec (mock_answer c (build_request s item)) (nat (retry_max_attempts s)))"
    using process_row_eq_spec [of p env s item m] assms(3,4) by (simp add: delays_defined_def)
  then show ?thesis
    using assms(2) by (simp add: mock_row_spec [OF assms(1)] result_of_def build_request_def)
qed

lemma mock_row_outcome_example:
  "fst (process_row default_settings shipped_policy (demo_env (mock_answer (make_mock None 2 0)))
      demo_item no_metrics) =
   Inr \<lparr>rr_external_id = ''a'', rr_status = I_SUCCEEDED, rr_response = Some ''[mock] hi'',
        rr_error = None, rr_attempts = 3, rr_latency_ms = Some 3\<rparr>"
  by (subst mock_row_outcome [where c = "make_mock None 2 0"])
     (auto intro!: delay_for_returns
       simp: default_settings_def demo_env_def demo_item_def make_mock_def mock_rejects_def)

section \<open>Properties of the loop\<close>

definition local_store :: "dumper \<Rightarrow> string \<Rightarrow> string \<Rightarrow> result_record list \<Rightarrow> chunk_store \<Rightarrow> exn + chunk_store \<times> string" where
  "local_store dump = backend_write dump (LocalBackend [])"

lemma unheld_queue:
  "db_wf db \<Longrightarrow> (\<And>r. r \<in> set (items db) \<Longrightarrow> i_job_id r = job \<Longrightarrow> i_status r \<noteq> I_CLAIMED) \<Longrightarrow>
   unheld queue_view db job"
  using lookup_item_Some by (fastforce simp: unheld_def queue_view_def view_row_def split: item_status.splits)

lemma open_items_empty:
  assumes wf: "db_wf db" and "open_items queue_view db job = {}" and r: "r \<in> set (items db)" "i_job_id r = job"
  shows "is_terminal (i_status r)"
proof -
  have "queue_view db job (i_external_id r) = Some (view_row r)"
    using lookup_item_wf [OF wf r(1)] r(2) by (simp add: queue_view_def)
  with assms(2) have "\<not> is_open (view_row r)" by (auto simp: open_items_def)
  then show ?thesis by (simp add: view_row_open)
qed

lemma card_open_items: "card (open_items queue_view db job) \<le> length (items db)"
proof -
  have "open_items queue_view db job \<subseteq> i_external_id ` set (items db)"
    using lookup_item_Some by (fastforce simp: open_items_def queue_view_def)
  then have "card (open_items queue_view db job) \<le> card (i_external_id ` set (items db))"
    by (rule card_mono [rotated]) simp
  also have "\<dots> \<le> length (items db)" by (meson card_image_le card_length finite_set order_trans)
  finally show ?thesis .
qed

lemma lone_worker_returns:
  assumes "db_wf (ws_queue st)"
    and "\<And>r. r \<in> set (items (ws_queue st)) \<Longrightarrow> i_job_id r = job \<Longrightarrow> i_status r \<noteq> I_CLAIMED"
    and "0 < chunk_size s" and "length (items (ws_queue st)) < fuel"
    and "\<And>k c a. a < nat (retry_max_attempts s) \<Longrightarrow>
      \<exists>d. delay_for p a (re_draw (en_rows env k c) a) = Inr d"
  shows "\<exists>st'. worker_run (\<lambda>job w n l now. claim_chunk job w n l now {}) complete_items renew_lease
        (local_store dump) s p env job w fuel 0 st = Some (Inr (), st') \<and>
      db_wf (ws_queue st') \<and>
      (\<forall>r \<in> set (items (ws_queue st')). i_job_id r = job \<longrightarrow> is_terminal (i_status r))"
proof -
  have "delays_defined p (en_rows env k c) (nat (retry_max_attempts s))" for k c
    using assms(5) by (simp add: delays_defined_def)
  moreover have "\<exists>st' ref. local_store dump job c rs st = Inr (st', ref)" for c rs st
    by (simp add: local_store_def write_chunk_def)
  moreover have "card (open_items queue_view (ws_queue st) job) < fuel"
    using card_open_items le_less_trans assms(4) by blast
  ultimately obtain st' where
    "worker_run (\<lambda>job w n l now. claim_chunk job w n l now {}) complete_items renew_lease
        (local_store dump) s p env job w fuel 0 st = Some (Inr (), st')"
    and wf: "db_wf (ws_queue st')" and none: "open_items queue_view (ws_queue st') job = {}"
    using pg_drain.worker_run_drains [OF assms(1) unheld_queue [OF assms(1,2)] assms(3), of job p env "local_store dump" fuel w 0]
    by metis
  with open_items_empty [OF wf none] show ?thesis by blast
qed

text \<open>
  C18: A worker alone on a job finishes it: whatever the clock, the heartbeats and the answers
  of the client, \<open>run\<close> returns normally after at most one round per row, and every row of
  the job is then \<open>SUCCEEDED\<close> or \<open>FAILED\<close>.
\<close>

theorem single_worker_finishes_job:
  assumes "db_wf (ws_queue st)"
    and "\<And>r. r \<in> set (items (ws_queue st)) \<Longrightarrow> i_job_id r = job \<Longrightarrow> i_status r \<noteq> I_CLAIMED"
    and "0 < chunk_size s" and "length (items (ws_queue st)) < fuel"
    and "\<And>k c a. a < nat (retry_max_attempts s) \<Longrightarrow>
      \<exists>d. delay_for p a (re_draw (en_rows env k c) a) = Inr d"
  shows "\<exists>st'. worker_run (\<lambda>job w n l now. claim_chunk job w n l now {}) complete_items renew_lease
        (local_store dump) s p env job w fuel 0 st = Some (Inr (), st') \<and>
      db_wf (ws_queue st') \<and>
      (\<forall>r \<in> set (items (ws_queue st')). i_job_id r = job \<longrightarrow> is_terminal (i_status r))"
  using assms by (rule lone_worker_returns)

theorem single_worker_finishes_job_witness:
  "\<exists>st'. worker_run (\<lambda>job w n l now. claim_chunk job w n l now {}) complete_items renew_lease
      (local_store json_dump) default_settings shipped_policy
      \<lparr>en_claim_time = int, en_beats = (\<lambda>k. [int k]), en_commit_time = int, en_chunk_id = nat_str,
       en_rows = (\<lambda>k c. demo_env (mock_answer (make_mock None 1 0)))\<rparr>
      ''j'' ''w'' 3 0 \<lparr>ws_queue = demo_db, ws_store = [], ws_metrics = no_metrics\<rparr> = Some (Inr (), st') \<and>
    (\<forall>r \<in> set (items (ws_queue st')). i_job_id r = ''j'' \<longrightarrow> is_terminal (i_status r))"
proof -
  let ?env = "\<lparr>en_claim_time = int, en_beats = (\<lambda>k. [int k]), en_commit_time = int,
      en_chunk_id = nat_str, en_rows = (\<lambda>k c. demo_env (mock_answer (make_mock None 1 0)))\<rparr>"
  have "a < nat (retry_max_attempts default_settings) \<Longrightarrow>
      \<exists>d. delay_for shipped_policy a (re_draw (en_rows ?env k c) a) = Inr d" for k c a
    by (rule delay_for_returns) (simp_all add: default_settings_def)
  moreover have "0 < chunk_size default_settings" by (simp add: default_settings_def)
  moreover have "r \<in> set (items demo_db) \<Longrightarrow> i_status r \<noteq> I_CLAIMED" for r
    by (auto simp: demo_db_def demo_row_def)
  moreover have "length (items demo_db) < 3" by (simp add: demo_db_def)
  ultimately show ?thesis
    using single_worker_finishes_job [of "\<lparr>ws_queue = demo_db, ws_store = [], ws_metrics = no_metrics\<rparr>" "''j''"
        default_settings 3 shipped_policy ?env json_dump "''w''"] demo_db_wf by auto
qed

end
