(* ===== verification/Limiter.thy ===== *)
theory Limiter
  imports Domain
begin

text \<open>
  \<open>ConcurrencyLimiter\<close> (\<open>app/engine/concurrency.py\<close>) over the
  \<open>asyncio.Semaphore\<close> it wraps. \<open>run\<close> is \<open>acquire\<close>, the wrapped call,
  \<open>release\<close>; a task is inside the call while it is in \<open>sem_active\<close>. A waiter is a
  task with a flag: whether its future has been resolved, that is, whether a permit has been set
  aside for it that it has not picked up yet.
\<close>

record semaphore =
  sem_value :: nat
  sem_waiters :: "(nat \<times> bool) list"
  sem_active :: "nat list"

definition make_limiter :: "int \<Rightarrow> exn + semaphore" where
  "make_limiter n =
     (if n < 1 then Inl (ValueError ''max_concurrency must be >= 1'')
      else Inr \<lparr>sem_value = nat n, sem_waiters = [], sem_active = []\<rparr>)"

definition sem_locked :: "semaphore \<Rightarrow> bool" where
  "sem_locked s \<longleftrightarrow> sem_value s = 0 \<or> sem_waiters s \<noteq> []"

text \<open>Resolve the first unresolved waiter.\<close>

fun wake_first :: "(nat \<times> bool) list \<Rightarrow> (nat \<times> bool) list" where
  "wake_first [] = []"
| "wake_first ((t, w) # ws) = (if w then (t, w) # wake_first ws else (t, True) # ws)"

definition wake_up_next :: "semaphore \<Rightarrow> semaphore" where
  "wake_up_next s =
     (if list_all snd (sem_waiters s) then s
      else s\<lparr>sem_value := sem_value s - 1, sem_waiters := wake_first (sem_waiters s)\<rparr>)"

datatype sem_event = Enter nat | Resume nat | Leave nat

text \<open>
  One scheduling step; \<open>None\<close> where the event cannot happen (a task that is already inside
  or waiting does not enter, only a woken waiter resumes, only a running task leaves).
\<close>

fun sem_step :: "sem_event \<Rightarrow> semaphore \<Rightarrow> semaphore option" where
  "sem_step (Enter t) s =
     (if t \<in> set (sem_active s) \<or> t \<in> set (map fst (sem_waiters s)) then None
      else if sem_locked s then Some (s\<lparr>sem_waiters := sem_waiters s @ [(t, False)]\<rparr>)
      else Some (s\<lparr>sem_value := sem_value s - 1, sem_active := sem_active s @ [t]\<rparr>))"
| "sem_step (Resume t) s =
     (if (t, True) \<notin> set (sem_waiters s) then None
      else let s' = s\<lparr>sem_waiters := remove1 (t, True) (sem_waiters s),
                      sem_active := sem_active s @ [t]\<rparr>
           in Some (if sem_value s' > 0 then wake_up_next s' else s'))"
| "sem_step (Leave t) s =
     (if t \<notin> set (sem_active s) then None
      else Some (wake_up_next (s\<lparr>sem_value := sem_value s + 1,
                                 sem_active := remove1 t (sem_active s)\<rparr>)))"

inductive limiter_reach :: "int \<Rightarrow> semaphore \<Rightarrow> bool" for n where
  limiter_start: "make_limiter n = Inr s \<Longrightarrow> limiter_reach n s"
| limiter_step: "limiter_reach n s \<Longrightarrow> sem_step ev s = Some s' \<Longrightarrow> limiter_reach n s'"

inductive_cases limiter_reachE: "limiter_reach n s"

text \<open>
  The invariant: permits are conserved; a free permit beside an unresolved waiter means some
  resolved waiter is about to hand it on; resolved waiters come before unresolved ones.
\<close>

definition woken :: "(nat \<times> bool) list \<Rightarrow> nat" where
  "woken ws = length (filter snd ws)"

definition sem_inv :: "int \<Rightarrow> semaphore \<Rightarrow> bool" where
  "sem_inv n s \<longleftrightarrow>
     int (sem_value s + length (sem_active s) + woken (sem_waiters s)) = n \<and>
     (\<not> list_all snd (sem_waiters s) \<and> 0 < sem_value s \<longrightarrow> 0 < woken (sem_waiters s)) \<and>
     sorted_wrt (\<lambda>a b. snd b \<longrightarrow> snd a) (sem_waiters s)"

lemma woken_wake_first: "\<not> list_all snd ws \<Longrightarrow> woken (wake_first ws) = Suc (woken ws)"
  by (induction ws rule: wake_first.induct) (auto simp: woken_def)

lemma set_wake_first: "p \<in> set (wake_first ws) \<Longrightarrow> fst p \<in> fst ` set ws"
  by (induction ws rule: wake_first.induct) (auto split: if_splits)

lemma sorted_wake_first:
  "sorted_wrt (\<lambda>a b. snd b \<longrightarrow> snd a) ws \<Longrightarrow> sorted_wrt (\<lambda>a b. snd b \<longrightarrow> snd a) (wake_first ws)"
proof (induction ws rule: wake_first.induct)
  case (2 t w ws)
  then show ?case by (cases w) auto
qed simp

lemma sorted_remove1:
  "sorted_wrt P ws \<Longrightarrow> sorted_wrt P (remove1 x ws)"
  by (induction ws) (auto dest: set_remove1_subset [THEN subsetD])

lemma woken_remove1: "(t, True) \<in> set ws \<Longrightarrow> Suc (woken (remove1 (t, True) ws)) = woken ws"
proof (induction ws)
  case (Cons w ws)
  then show ?case by (cases w) (auto simp: woken_def)
qed simp

lemma wake_up_next_inv:
  assumes "int (sem_value s + length (sem_active s) + woken (sem_waiters s)) = n"
    and "0 < sem_value s" and "sorted_wrt (\<lambda>a b. snd b \<longrightarrow> snd a) (sem_waiters s)"
  shows "sem_inv n (wake_up_next s)"
  using assms by (auto simp: wake_up_next_def sem_inv_def woken_wake_first sorted_wake_first)

lemma sem_step_inv:
  assumes inv: "sem_inv n s" and step: "sem_step ev s = Some s'"
  shows "sem_inv n s'"
proof (cases ev)
  case (Enter t)
  with step inv show ?thesis
    by (cases "sem_waiters s") (auto simp: sem_inv_def sem_locked_def woken_def sorted_wrt_append filter_empty_conv
        list_all_iff split: if_splits)
next
  case (Leave t)
  then have s': "s' = wake_up_next (s\<lparr>sem_value := sem_value s + 1, sem_active := remove1 t (sem_active s)\<rparr>)"
    and t: "t \<in> set (sem_active s)" using step by (auto split: if_splits)
  have "length (sem_active s) = Suc (length (remove1 t (sem_active s)))"
    using t length_pos_if_in_set [OF t] by (simp add: length_remove1)
  with inv show ?thesis unfolding s'
    by (intro wake_up_next_inv) (auto simp: sem_inv_def)
next
  case (Resume t)
  let ?s = "s\<lparr>sem_waiters := remove1 (t, True) (sem_waiters s), sem_active := sem_active s @ [t]\<rparr>"
  from Resume step have t: "(t, True) \<in> set (sem_waiters s)"
    and s': "s' = (if sem_value ?s > 0 then wake_up_next ?s else ?s)"
    by (auto simp: Let_def split: if_splits)
  have sum: "int (sem_value ?s + length (sem_active ?s) + woken (sem_waiters ?s)) = n"
    using inv woken_remove1 [OF t] by (auto simp: sem_inv_def)
  have srt: "sorted_wrt (\<lambda>a b. snd b \<longrightarrow> snd a) (sem_waiters ?s)"
    using inv by (simp add: sem_inv_def sorted_remove1)
  show ?thesis
  proof (cases "0 < sem_value ?s")
    case True
    with s' sum srt show ?thesis by (simp add: wake_up_next_inv)
  next
    case False
    with s' sum srt show ?thesis by (simp add: sem_inv_def)
  qed
qed

lemma limiter_reach_inv: "limiter_reach n s \<Longrightarrow> sem_inv n s"
proof (induction rule: limiter_reach.induct)
  case (limiter_start s)
  then show ?case by (auto simp: make_limiter_def sem_inv_def woken_def split: if_splits)
qed (rule sem_step_inv)

lemma limiter_reach_pos: "limiter_reach n s \<Longrightarrow> 1 \<le> n"
  by (induction rule: limiter_reach.induct) (auto simp: make_limiter_def split: if_splits)

section \<open>Safety and progress\<close>

text \<open>
  However many tasks enter, wait and leave, in every reachable state at most
  \<open>max_concurrency\<close> calls are in flight, and free permits, calls in flight and permits set
  aside for woken waiters add up to exactly that bound (no permit is lost or forged).
\<close>

lemma limiter_never_exceeds_max:
  assumes "limiter_reach n s"
  shows "int (length (sem_active s)) \<le> n \<and>
    int (sem_value s) + int (length (sem_active s)) + int (woken (sem_waiters s)) = n"
  using limiter_reach_inv [OF assms] by (simp add: sem_inv_def)

text \<open>
  The limiter never deadlocks: while some task still waits, a task that can move holds a
  permit, so either a call in flight will leave or a woken waiter will resume; and waiters are
  woken in arrival order.
\<close>

lemma limiter_no_deadlock:
  assumes "limiter_reach n s" and "sem_waiters s \<noteq> []"
  shows "(\<exists>t s'. sem_step (Leave t) s = Some s' \<or> sem_step (Resume t) s = Some s') \<and>
    sorted_wrt (\<lambda>a b. snd b \<longrightarrow> snd a) (sem_waiters s)"
proof -
  note inv = limiter_reach_inv [OF assms(1)] and pos = limiter_reach_pos [OF assms(1)]
  have "0 < length (sem_active s) \<or> 0 < woken (sem_waiters s)"
  proof (cases "list_all snd (sem_waiters s)")
    case True
    with assms(2) show ?thesis by (cases "sem_waiters s") (auto simp: woken_def)
  next
    case False
    with inv pos show ?thesis by (auto simp: sem_inv_def)
  qed
  then have "(\<exists>t. t \<in> set (sem_active s)) \<or> (\<exists>t. (t, True) \<in> set (sem_waiters s))"
    by (cases "sem_active s") (auto simp: woken_def filter_empty_conv)
  then have "\<exists>t s'. sem_step (Leave t) s = Some s' \<or> sem_step (Resume t) s = Some s'"
    by (auto simp: Let_def)
  with inv show ?thesis by (simp add: sem_inv_def)
qed

lemma limiter_demo:
  "limiter_reach 1 \<lparr>sem_value = 0, sem_waiters = [(8, False)], sem_active = [7]\<rparr>"
proof -
  have "limiter_reach 1 \<lparr>sem_value = 1, sem_waiters = [], sem_active = []\<rparr>"
    by (rule limiter_start) (simp add: make_limiter_def)
  then have "limiter_reach 1 \<lparr>sem_value = 0, sem_waiters = [], sem_active = [7]\<rparr>"
    by (rule limiter_step [where ev = "Enter 7"]) (simp add: sem_locked_def)
  then show ?thesis by (rule limiter_step [where ev = "Enter 8"]) (simp add: sem_locked_def)
qed

lemma limiter_never_exceeds_max_example:
  "\<exists>s. limiter_reach 1 s \<and> length (sem_active s) = 1 \<and> int (length (sem_active s)) \<le> 1"
  using limiter_demo limiter_never_exceeds_max [OF limiter_demo] by force

lemma limiter_no_deadlock_example:
  "\<exists>s t s'. limiter_reach 1 s \<and> sem_waiters s \<noteq> [] \<and>
     (sem_step (Leave t) s = Some s' \<or> sem_step (Resume t) s = Some s')"
  using limiter_demo limiter_no_deadlock [OF limiter_demo] by fastforce

end
