(* ===== verification/Interleave.thy ===== *)
theory Interleave
  imports WorkerProps Limiter
begin

text \<open>
  The rows of a process under interleaving: \<open>_process_chunk\<close> starts one task per row, the tasks
  of all chunks share the limiter and the counters, and between two awaits of a task any other may run.
  \<open>row_step\<close> runs one task from one await to the next.

    \<^item> \<open>Arrived\<close>: created by \<open>gather\<close>; \<open>Queued\<close>: in the limiter's queue;
    \<^item> \<open>Calling k\<close>: attempt \<open>k\<close> awaits \<open>client.complete\<close>;
      \<open>Sleeping k\<close>: awaits the back-off before attempt \<open>k\<close>;
    \<^item> \<open>Ended\<close>: returned its record, or raised.
\<close>

section \<open>The machine\<close>

datatype row_phase =
    Arrived
  | Queued
  | Calling nat "string option"
  | Sleeping nat "string option" rat
  | Ended "exn + result_record"

record row_tasks =
  rt_sem :: semaphore
  rt_metrics :: metrics
  rt_phases :: "row_phase list"

text \<open>From the answer to an attempt to the next await, or out of the loop.\<close>

datatype row_move = Again string rat | Over loop_exit

definition on_answer ::
  "settings \<Rightarrow> retry_policy \<Rightarrow> row_env \<Rightarrow> inference_request \<Rightarrow> nat \<Rightarrow> metrics \<Rightarrow> row_move \<times> metrics" where
  "on_answer s p env rq k m =
     (case re_answer env rq k of
        Inr response \<Rightarrow>
          (Over (Succeeded (rs_text response) k),
           m\<lparr>m_success := m_success m + 1, m_succeeded := m_succeeded m + 1\<rparr>)
      | Inl e \<Rightarrow>
          (case e of
             RetryableInferenceError msg \<Rightarrow>
               (let m1 = m\<lparr>m_retryable := m_retryable m + 1\<rparr>
                in if int k < retry_max_attempts s - 1
                   then (let m2 = m1\<lparr>m_retries := m_retries m1 + 1\<rparr>
                         in case delay_for p k (re_draw env k) of
                              Inl err \<Rightarrow> (Over (Escaped err), m2)
                            | Inr d \<Rightarrow> (Again msg d, m2))
                   else (Over (GaveUp (Some msg) k), m1))
           | PermanentInferenceError msg \<Rightarrow>
               (Over (GaveUp (Some msg) k), m\<lparr>m_permanent := m_permanent m + 1\<rparr>)
           | _ \<Rightarrow>
               (Over (GaveUp (Some (''unexpected: '' @ exn_str e)) k),
                m\<lparr>m_unexpected := m_unexpected m + 1\<rparr>)))"

text \<open>After the loop: \<open>finally\<close>, and the record or the exception.\<close>

definition end_row :: "claimed_item \<Rightarrow> row_env \<Rightarrow> loop_exit \<Rightarrow> metrics \<Rightarrow> (exn + result_record) \<times> metrics" where
  "end_row item env ex m =
     (let m1 = m\<lparr>m_inflight := m_inflight m - 1\<rparr>
      in case ex of
           Succeeded text k \<Rightarrow>
             (Inr \<lparr>rr_external_id = ci_external_id item, rr_status = I_SUCCEEDED, rr_response = Some text,
                   rr_error = None, rr_attempts = k + 1, rr_latency_ms = Some (re_latency_ms env)\<rparr>, m1)
         | GaveUp err k \<Rightarrow>
             (Inr \<lparr>rr_external_id = ci_external_id item, rr_status = I_FAILED, rr_response = None,
                   rr_error = err, rr_attempts = k + 1, rr_latency_ms = Some (re_latency_ms env)\<rparr>,
              m1\<lparr>m_failed := m_failed m1 + 1\<rparr>)
         | Escaped e \<Rightarrow> (Inl e, m1))"

text \<open>The task leaves the limiter as it ends.\<close>

definition leave_row :: "claimed_item \<Rightarrow> row_env \<Rightarrow> nat \<Rightarrow> loop_exit \<Rightarrow> row_tasks \<Rightarrow> row_tasks option" where
  "leave_row item env i ex st =
     (case sem_step (Leave i) (rt_sem st) of
        None \<Rightarrow> None
      | Some sem \<Rightarrow>
          (case end_row item env ex (rt_metrics st) of
             (r, m) \<Rightarrow> Some \<lparr>rt_sem = sem, rt_metrics = m, rt_phases = (rt_phases st)[i := Ended r]\<rparr>))"

text \<open>With its permit the task runs up to the first call; without attempts it ends at once.\<close>

definition begin_row :: "settings \<Rightarrow> claimed_item \<Rightarrow> row_env \<Rightarrow> nat \<Rightarrow> row_tasks \<Rightarrow> row_tasks option" where
  "begin_row s item env i st =
     (let st1 = st\<lparr>rt_metrics := (rt_metrics st)\<lparr>m_inflight := m_inflight (rt_metrics st) + 1\<rparr>\<rparr>
      in if retry_max_attempts s \<le> 0 then leave_row item env i (GaveUp None 0) st1
         else Some (st1\<lparr>rt_phases := (rt_phases st1)[i := Calling 0 None]\<rparr>))"

definition row_step ::
  "settings \<Rightarrow> retry_policy \<Rightarrow> (nat \<Rightarrow> row_env) \<Rightarrow> claimed_item list \<Rightarrow> nat \<Rightarrow> row_tasks \<Rightarrow> row_tasks option" where
  "row_step s p env rows i st =
     (if i < length (rt_phases st) then
        (case rt_phases st ! i of
           Arrived \<Rightarrow>
             (case sem_step (Enter i) (rt_sem st) of
                None \<Rightarrow> None
              | Some sem \<Rightarrow>
                  if i \<in> set (sem_active sem) then begin_row s (rows ! i) (env i) i (st\<lparr>rt_sem := sem\<rparr>)
                  else Some (st\<lparr>rt_sem := sem, rt_phases := (rt_phases st)[i := Queued]\<rparr>))
         | Queued \<Rightarrow>
             (case sem_step (Resume i) (rt_sem st) of
                None \<Rightarrow> None
              | Some sem \<Rightarrow> begin_row s (rows ! i) (env i) i (st\<lparr>rt_sem := sem\<rparr>))
         | Calling k lst \<Rightarrow>
             (case on_answer s p (env i) (build_request s (rows ! i)) k (rt_metrics st) of
                (Again msg d, m) \<Rightarrow>
                  Some (st\<lparr>rt_metrics := m, rt_phases := (rt_phases st)[i := Sleeping (Suc k) (Some msg) d]\<rparr>)
              | (Over ex, m) \<Rightarrow> leave_row (rows ! i) (env i) i ex (st\<lparr>rt_metrics := m\<rparr>))
         | Sleeping k lst d \<Rightarrow> Some (st\<lparr>rt_phases := (rt_phases st)[i := Calling k lst]\<rparr>)
         | Ended r \<Rightarrow> None)
      else None)"

definition tasks_start :: "int \<Rightarrow> metrics \<Rightarrow> nat \<Rightarrow> exn + row_tasks" where
  "tasks_start n m len =
     (case make_limiter n of
        Inl e \<Rightarrow> Inl e
      | Inr sem \<Rightarrow> Inr \<lparr>rt_sem = sem, rt_metrics = m, rt_phases = replicate len Arrived\<rparr>)"

fun run_tasks ::
  "settings \<Rightarrow> retry_policy \<Rightarrow> (nat \<Rightarrow> row_env) \<Rightarrow> claimed_item list \<Rightarrow> nat list \<Rightarrow> row_tasks \<Rightarrow> row_tasks option" where
  "run_tasks s p env rows [] st = Some st"
| "run_tasks s p env rows (i # is) st =
     (case row_step s p env rows i st of None \<Rightarrow> None | Some st' \<Rightarrow> run_tasks s p env rows is st')"

section \<open>The small steps make up the loop\<close>

lemma attempt_loop_step:
  assumes "k < nat (retry_max_attempts s)"
  shows "attempt_loop s p env rq k (nat (retry_max_attempts s) - k) lst m slept =
    (case on_answer s p env rq k m of
       (Over ex, m') \<Rightarrow> (ex, m', slept)
     | (Again msg d, m') \<Rightarrow>
         attempt_loop s p env rq (Suc k) (nat (retry_max_attempts s) - Suc k) (Some msg) m' (slept @ [d]))"
proof -
  obtain left where left: "nat (retry_max_attempts s) - k = Suc left"
    using assms by (metis Suc_diff_Suc)
  then have "nat (retry_max_attempts s) - Suc k = left" by simp
  moreover have "left = 0 \<longleftrightarrow> \<not> int k < retry_max_attempts s - 1" using left assms by linarith
  ultimately show ?thesis unfolding left
    by (cases left) (auto simp: on_answer_def Let_def split: sum.splits exn.splits)
qed

lemma on_answer_again:
  "on_answer s p env rq k m = (Again msg d, m') \<Longrightarrow> Suc k < nat (retry_max_attempts s)"
  by (auto simp: on_answer_def Let_def split: sum.splits exn.splits if_splits)

lemma process_row_end_row:
  "process_row s p env item m =
     (case attempt_loop s p env (build_request s item) 0 (nat (retry_max_attempts s)) None
             (m\<lparr>m_inflight := m_inflight m + 1\<rparr>) [] of
        (ex, m1, slept) \<Rightarrow> (case end_row item env ex m1 of (r, m2) \<Rightarrow> (r, m2, slept)))"
  by (simp add: process_row_def end_row_def Let_def split: prod.split loop_exit.split)

section \<open>Counters add up\<close>

definition madd :: "metrics \<Rightarrow> metrics \<Rightarrow> metrics" where
  "madd a b = \<lparr>m_inflight = m_inflight a + m_inflight b, m_success = m_success a + m_success b,
     m_retryable = m_retryable a + m_retryable b, m_permanent = m_permanent a + m_permanent b,
     m_unexpected = m_unexpected a + m_unexpected b, m_retries = m_retries a + m_retries b,
     m_succeeded = m_succeeded a + m_succeeded b, m_failed = m_failed a + m_failed b,
     m_chunks = m_chunks a + m_chunks b\<rparr>"

lemma madd_assoc: "madd (madd a b) c = madd a (madd b c)"
  by (simp add: madd_def)

lemma madd_commute: "madd a b = madd b a"
  by (simp add: madd_def)

lemma madd_left_commute: "madd a (madd b c) = madd b (madd a c)"
  by (simp add: madd_def)

lemma madd_zero [simp]: "madd a no_metrics = a" "madd no_metrics a = a"
  by (simp_all add: madd_def no_metrics_def)

lemma on_answer_madd:
  "on_answer s p env rq k (madd a m) = (case on_answer s p env rq k m of (mv, m') \<Rightarrow> (mv, madd a m'))"
  by (auto simp: on_answer_def madd_def Let_def split: sum.splits exn.splits)

lemma end_row_madd: "end_row item env ex (madd a m) = (case end_row item env ex m of (r, m') \<Rightarrow> (r, madd a m'))"
  by (auto simp: end_row_def madd_def Let_def split: loop_exit.splits)

lemma attempt_loop_madd:
  "attempt_loop s p env rq k (nat (retry_max_attempts s) - k) lst (madd a m) slept =
     (case attempt_loop s p env rq k (nat (retry_max_attempts s) - k) lst m slept of
        (ex, m', sl) \<Rightarrow> (ex, madd a m', sl))"
proof (induction "nat (retry_max_attempts s) - k" arbitrary: k lst m slept)
  case (Suc n)
  then have k: "k < nat (retry_max_attempts s)" and n: "n = nat (retry_max_attempts s) - Suc k" by simp_all
  show ?case
    by (simp add: attempt_loop_step [OF k] on_answer_madd Suc.hyps(1) [OF n] split: prod.split row_move.split)
qed simp

lemma process_row_madd:
  "process_row s p env item (madd a m) = (case process_row s p env item m of (r, m', sl) \<Rightarrow> (r, madd a m', sl))"
proof -
  have up: "(madd a m)\<lparr>m_inflight := m_inflight (madd a m) + 1\<rparr> = madd a (m\<lparr>m_inflight := m_inflight m + 1\<rparr>)"
    by (simp add: madd_def)
  show ?thesis
    using attempt_loop_madd [of s p env "build_request s item" 0 None a "m\<lparr>m_inflight := m_inflight m + 1\<rparr>" "[]"]
    by (simp add: process_row_end_row up end_row_madd split: prod.split)
qed

text \<open>What a row adds to the counters, and its outcome, when it runs alone.\<close>

definition row_cost :: "settings \<Rightarrow> retry_policy \<Rightarrow> row_env \<Rightarrow> claimed_item \<Rightarrow> metrics" where
  "row_cost s p env item = fst (snd (process_row s p env item no_metrics))"

definition row_outcome :: "settings \<Rightarrow> retry_policy \<Rightarrow> row_env \<Rightarrow> claimed_item \<Rightarrow> exn + result_record" where
  "row_outcome s p env item = fst (process_row s p env item no_metrics)"

lemma process_row_alone:
  "\<exists>sl. process_row s p env item m = (row_outcome s p env item, madd m (row_cost s p env item), sl)"
  using process_row_madd [of s p env item m no_metrics]
  by (auto simp: row_outcome_def row_cost_def split: prod.splits)

lemma process_rows_alone:
  "process_rows s p env cs m =
     (map (\<lambda>c. row_outcome s p (env c) c) cs, foldl madd m (map (\<lambda>c. row_cost s p (env c) c) cs))"
proof (induction cs arbitrary: m)
  case (Cons c cs)
  then show ?case using process_row_alone [of s p "env c" c m] by auto
qed simp

section \<open>Invariant of the rows\<close>

text \<open>How far a row has come, with what it has added to the counters so far.\<close>

definition at_attempt ::
  "settings \<Rightarrow> retry_policy \<Rightarrow> row_env \<Rightarrow> claimed_item \<Rightarrow> nat \<Rightarrow> string option \<Rightarrow> metrics \<Rightarrow> bool" where
  "at_attempt s p env item k lst d \<longleftrightarrow> k < nat (retry_max_attempts s) \<and> m_inflight d = 1 \<and>
     (\<exists>sl. attempt_loop s p env (build_request s item) 0 (nat (retry_max_attempts s)) None
             (no_metrics\<lparr>m_inflight := 1\<rparr>) [] =
           attempt_loop s p env (build_request s item) k (nat (retry_max_attempts s) - k) lst d sl)"

fun row_inv :: "settings \<Rightarrow> retry_policy \<Rightarrow> row_env \<Rightarrow> claimed_item \<Rightarrow> row_phase \<Rightarrow> metrics \<Rightarrow> bool" where
  "row_inv s p env item Arrived d \<longleftrightarrow> d = no_metrics"
| "row_inv s p env item Queued d \<longleftrightarrow> d = no_metrics"
| "row_inv s p env item (Calling k lst) d \<longleftrightarrow> at_attempt s p env item k lst d"
| "row_inv s p env item (Sleeping k lst w) d \<longleftrightarrow> at_attempt s p env item k lst d"
| "row_inv s p env item (Ended r) d \<longleftrightarrow> r = row_outcome s p env item \<and> d = row_cost s p env item"

lemma begin_row_inv:
  "0 < retry_max_attempts s \<Longrightarrow> row_inv s p env item (Calling 0 None) (no_metrics\<lparr>m_inflight := 1\<rparr>)"
  by (auto simp: at_attempt_def)

lemma begin_row_ends:
  "retry_max_attempts s \<le> 0 \<Longrightarrow> end_row item env (GaveUp None 0) (no_metrics\<lparr>m_inflight := 1\<rparr>) = (r, d) \<Longrightarrow>
   row_inv s p env item (Ended r) d"
  by (simp add: row_outcome_def row_cost_def process_row_end_row no_metrics_def)

lemma row_inv_again:
  assumes "at_attempt s p env item k lst d" and "on_answer s p env (build_request s item) k d = (Again msg w, d')"
  shows "at_attempt s p env item (Suc k) (Some msg) d'"
proof -
  from assms(1) obtain sl where k: "k < nat (retry_max_attempts s)" and "m_inflight d = 1"
    and run: "attempt_loop s p env (build_request s item) 0 (nat (retry_max_attempts s)) None
        (no_metrics\<lparr>m_inflight := 1\<rparr>) [] =
      attempt_loop s p env (build_request s item) k (nat (retry_max_attempts s) - k) lst d sl"
    by (auto simp: at_attempt_def)
  moreover have "m_inflight d' = m_inflight d"
    using assms(2) by (auto simp: on_answer_def Let_def split: sum.splits exn.splits if_splits)
  ultimately show ?thesis
    using on_answer_again [OF assms(2)] attempt_loop_step [OF k, of p env "build_request s item" lst d sl] assms(2)
    by (auto simp: at_attempt_def)
qed

lemma row_inv_over:
  assumes "at_attempt s p env item k lst d" and "on_answer s p env (build_request s item) k d = (Over ex, d')"
    and "end_row item env ex d' = (r, d'')"
  shows "row_inv s p env item (Ended r) d''"
proof -
  from assms(1) obtain sl where k: "k < nat (retry_max_attempts s)"
    and run: "attempt_loop s p env (build_request s item) 0 (nat (retry_max_attempts s)) None
        (no_metrics\<lparr>m_inflight := 1\<rparr>) [] =
      attempt_loop s p env (build_request s item) k (nat (retry_max_attempts s) - k) lst d sl"
    by (auto simp: at_attempt_def)
  have one: "no_metrics\<lparr>m_inflight := m_inflight no_metrics + 1\<rparr> = no_metrics\<lparr>m_inflight := 1\<rparr>"
    by (simp add: no_metrics_def)
  show ?thesis
    using run attempt_loop_step [OF k, of p env "build_request s item" lst d sl] assms(2,3)
    by (simp add: row_outcome_def row_cost_def process_row_end_row one)
qed

text \<open>All rows together: the counters are the start plus what each row has added.\<close>

definition rows_inv ::
  "settings \<Rightarrow> retry_policy \<Rightarrow> (nat \<Rightarrow> row_env) \<Rightarrow> claimed_item list \<Rightarrow> metrics \<Rightarrow> row_phase list \<Rightarrow> metrics \<Rightarrow> bool" where
  "rows_inv s p env rows m0 phs m \<longleftrightarrow> length phs = length rows \<and>
     (\<exists>ds. length ds = length rows \<and> m = foldl madd m0 ds \<and>
        (\<forall>i < length rows. row_inv s p (env i) (rows ! i) (phs ! i) (ds ! i)))"

lemma foldl_madd: "foldl madd (madd a m) ds = madd a (foldl madd m ds)"
  by (induction ds arbitrary: m) (simp_all add: madd_assoc)

lemma foldl_madd_pick: "i < length ds \<Longrightarrow> \<exists>rest. \<forall>d. foldl madd m (ds[i := d]) = madd rest d"
proof (induction ds arbitrary: i m)
  case (Cons x ds)
  show ?case
  proof (cases i)
    case 0
    have "foldl madd m ((x # ds)[i := d]) = madd (foldl madd m ds) d" for d
      by (simp add: 0 madd_commute [of m] foldl_madd) (rule madd_commute)
    then show ?thesis by blast
  next
    case (Suc j)
    with Cons.prems Cons.IH [of j "madd m x"] show ?thesis by simp
  qed
qed simp

lemma rows_inv_pick:
  assumes "rows_inv s p env rows m0 phs m" and "i < length phs"
  obtains rest d where "row_inv s p (env i) (rows ! i) (phs ! i) d" and "m = madd rest d"
    and "\<forall>ph' d'. row_inv s p (env i) (rows ! i) ph' d' \<longrightarrow> rows_inv s p env rows m0 (phs[i := ph']) (madd rest d')"
proof -
  from assms obtain ds where ds: "length ds = length rows" "m = foldl madd m0 ds" "length phs = length rows"
    "\<forall>i < length rows. row_inv s p (env i) (rows ! i) (phs ! i) (ds ! i)" by (auto simp: rows_inv_def)
  with assms(2) obtain rest where rest: "\<And>d. foldl madd m0 (ds[i := d]) = madd rest d"
    using foldl_madd_pick [of i ds m0] by auto
  show thesis
  proof (rule that)
    show "row_inv s p (env i) (rows ! i) (phs ! i) (ds ! i)" using ds assms(2) by simp
    show "m = madd rest (ds ! i)" using rest [of "ds ! i"] ds(2) by simp
    have "rows_inv s p env rows m0 (phs[i := ph']) (madd rest d')"
      if "row_inv s p (env i) (rows ! i) ph' d'" for ph' d'
      unfolding rows_inv_def using ds that rest [of d'] assms(2)
      by (intro conjI exI [of _ "ds[i := d']"]) (auto simp: nth_list_update)
    then show "\<forall>ph' d'. row_inv s p (env i) (rows ! i) ph' d' \<longrightarrow>
      rows_inv s p env rows m0 (phs[i := ph']) (madd rest d')" by blast
  qed
qed

section \<open>Invariant of the limiter\<close>

lemma map_fst_wake_first: "map fst (wake_first ws) = map fst ws"
  by (induction ws rule: wake_first.induct) auto

lemma wake_up_next_frame:
  "sem_active (wake_up_next q) = sem_active q" "map fst (sem_waiters (wake_up_next q)) = map fst (sem_waiters q)"
  by (simp_all add: wake_up_next_def map_fst_wake_first)

lemma map_fst_remove1:
  "distinct (map fst ws) \<Longrightarrow> (t, b) \<in> set ws \<Longrightarrow> map fst (remove1 (t, b) ws) = remove1 t (map fst ws)"
  by (induction ws) (force split: if_splits)+

lemma sem_enter:
  assumes "sem_step (Enter t) q = Some q'"
  shows "t \<notin> set (sem_active q)" and "t \<notin> set (map fst (sem_waiters q))"
    and "t \<in> set (sem_active q') \<Longrightarrow>
      sem_active q' = sem_active q @ [t] \<and> map fst (sem_waiters q') = map fst (sem_waiters q)"
    and "t \<notin> set (sem_active q') \<Longrightarrow>
      sem_active q' = sem_active q \<and> map fst (sem_waiters q') = map fst (sem_waiters q) @ [t]"
  using assms by (auto split: if_splits)

lemma sem_resume:
  assumes "sem_step (Resume t) q = Some q'" and "distinct (map fst (sem_waiters q))"
  shows "sem_active q' = sem_active q @ [t]" and "map fst (sem_waiters q') = remove1 t (map fst (sem_waiters q))"
  using assms by (auto simp: Let_def wake_up_next_frame map_fst_remove1 split: if_splits)

lemma sem_leave:
  assumes "sem_step (Leave t) q = Some q'"
  shows "sem_active q' = remove1 t (sem_active q)" and "map fst (sem_waiters q') = map fst (sem_waiters q)"
  using assms by (auto simp: wake_up_next_frame split: if_splits)

definition in_flight :: "row_phase \<Rightarrow> bool" where
  "in_flight ph \<longleftrightarrow> (case ph of Calling k lst \<Rightarrow> True | Sleeping k lst d \<Rightarrow> True | _ \<Rightarrow> False)"

definition places :: "(row_phase \<Rightarrow> bool) \<Rightarrow> row_phase list \<Rightarrow> nat set" where
  "places P phs = {i. i < length phs \<and> P (phs ! i)}"

text \<open>The semaphore knows exactly the rows in flight and the rows waiting.\<close>

definition sem_matches :: "semaphore \<Rightarrow> row_phase list \<Rightarrow> bool" where
  "sem_matches q phs \<longleftrightarrow> distinct (sem_active q) \<and> set (sem_active q) = places in_flight phs \<and>
     distinct (map fst (sem_waiters q)) \<and> set (map fst (sem_waiters q)) = places ((=) Queued) phs"

lemma places_update:
  "i < length phs \<Longrightarrow> places P (phs[i := ph]) = (if P ph then insert i (places P phs) else places P phs - {i})"
  by (auto simp: places_def nth_list_update)

lemma in_flight_simps [simp]:
  "\<not> in_flight Arrived" "\<not> in_flight Queued" "in_flight (Calling k lst)" "in_flight (Sleeping k lst d)"
  "\<not> in_flight (Ended r)"
  by (simp_all add: in_flight_def)

lemma sem_matches_moved:
  assumes "sem_matches q phs" and "i < length phs" and "in_flight (phs ! i)" and "in_flight ph"
  shows "sem_matches q (phs[i := ph])"
proof -
  have "i \<in> places in_flight phs" "i \<notin> places ((=) Queued) phs" "Queued \<noteq> ph"
    using assms(2-4) by (auto simp: places_def)
  then show ?thesis using assms(1,2,4) by (simp add: sem_matches_def places_update insert_absorb del: set_map)
qed

lemma placesD: "sem_matches q phs \<Longrightarrow> i < length phs \<Longrightarrow>
    (i \<in> set (sem_active q) \<longleftrightarrow> in_flight (phs ! i)) \<and> (i \<in> set (map fst (sem_waiters q)) \<longleftrightarrow> Queued = phs ! i)"
  by (simp add: sem_matches_def places_def)

section \<open>Every step keeps it\<close>

definition tasks_inv ::
  "int \<Rightarrow> settings \<Rightarrow> retry_policy \<Rightarrow> (nat \<Rightarrow> row_env) \<Rightarrow> claimed_item list \<Rightarrow> metrics \<Rightarrow> row_tasks \<Rightarrow> bool" where
  "tasks_inv n s p env rows m0 st \<longleftrightarrow> limiter_reach n (rt_sem st) \<and> sem_matches (rt_sem st) (rt_phases st) \<and>
     rows_inv s p env rows m0 (rt_phases st) (rt_metrics st)"

lemma tasks_inv_start:
  "tasks_start n m0 (length rows) = Inr st \<Longrightarrow> tasks_inv n s p env rows m0 st"
proof -
  assume st: "tasks_start n m0 (length rows) = Inr st"
  then obtain q where q: "make_limiter n = Inr q"
    and st: "st = \<lparr>rt_sem = q, rt_metrics = m0, rt_phases = replicate (length rows) Arrived\<rparr>"
    by (auto simp: tasks_start_def split: sum.splits)
  have "foldl madd m0 (replicate k no_metrics) = m0" for k by (induction k) simp_all
  then have "rows_inv s p env rows m0 (replicate (length rows) Arrived) m0"
    unfolding rows_inv_def by (intro conjI exI [of _ "replicate (length rows) no_metrics"]) simp_all
  moreover have "sem_matches q (replicate (length rows) Arrived)"
    using q by (auto simp: make_limiter_def sem_matches_def places_def split: if_splits)
  ultimately show ?thesis using limiter_start [OF q] by (simp add: tasks_inv_def st)
qed

text \<open>A row that leaves from an attempt, or before its first one.\<close>

lemma leave_row_inv:
  assumes "leave_row item env i ex st = Some st'" and "limiter_reach n (rt_sem st)"
    and "sem_matches (rt_sem st) ((rt_phases st)[i := ph])" and "i < length (rt_phases st)"
  obtains r where "limiter_reach n (rt_sem st')" and "sem_matches (rt_sem st') (rt_phases st')"
    and "end_row item env ex (rt_metrics st) = (r, rt_metrics st')" and "rt_phases st' = (rt_phases st)[i := Ended r]"
proof -
  from assms(1) obtain q r m where q: "sem_step (Leave i) (rt_sem st) = Some q"
    and r: "end_row item env ex (rt_metrics st) = (r, m)"
    and st': "st' = \<lparr>rt_sem = q, rt_metrics = m, rt_phases = (rt_phases st)[i := Ended r]\<rparr>"
    by (auto simp: leave_row_def split: option.splits prod.splits)
  have "i \<in> set (sem_active (rt_sem st))" using q by (simp split: if_splits)
  with assms(3,4) have "in_flight ph" by (auto simp: sem_matches_def places_def)
  then have "Queued \<noteq> ph" by auto
  with assms(3,4) have "i \<notin> places ((=) Queued) ((rt_phases st)[i := ph])" by (simp add: places_def)
  moreover have "(rt_phases st)[i := Ended r] = ((rt_phases st)[i := ph])[i := Ended r]" by simp
  ultimately have "sem_matches q ((rt_phases st)[i := Ended r])"
    using assms(3,4) by (simp add: sem_matches_def sem_leave [OF q] places_update set_remove1_eq del: set_map list_update_overwrite)
  then show thesis using limiter_step [OF assms(2) q] r by (intro that [of r]) (simp_all add: st')
qed

lemma begin_row_keeps:
  assumes "begin_row s (rows ! i) (env i) i st = Some st'" and "limiter_reach n (rt_sem st)"
    and "i < length (rt_phases st)" and "sem_matches (rt_sem st) ((rt_phases st)[i := Calling 0 None])"
    and inv: "rows_inv s p env rows m0 (rt_phases st) (rt_metrics st)"
    and "rt_phases st ! i = Arrived \<or> rt_phases st ! i = Queued"
  shows "tasks_inv n s p env rows m0 st'"
proof -
  obtain d rest where d: "row_inv s p (env i) (rows ! i) (rt_phases st ! i) d" "rt_metrics st = madd rest d"
    and upd: "\<forall>ph' d'. row_inv s p (env i) (rows ! i) ph' d' \<longrightarrow>
      rows_inv s p env rows m0 ((rt_phases st)[i := ph']) (madd rest d')"
    using rows_inv_pick [OF inv assms(3)] by metis
  have "d = no_metrics" using d(1) assms(6) by auto
  then have up: "(rt_metrics st)\<lparr>m_inflight := m_inflight (rt_metrics st) + 1\<rparr> = madd rest (no_metrics\<lparr>m_inflight := 1\<rparr>)"
    by (simp add: d(2)) (simp add: madd_def no_metrics_def)
  show ?thesis
  proof (cases "retry_max_attempts s \<le> 0")
    case False
    with assms(1) have st': "st' = st\<lparr>rt_metrics := madd rest (no_metrics\<lparr>m_inflight := 1\<rparr>),
        rt_phases := (rt_phases st)[i := Calling 0 None]\<rparr>"
      by (simp add: begin_row_def Let_def up)
    from False have "row_inv s p (env i) (rows ! i) (Calling 0 None) (no_metrics\<lparr>m_inflight := 1\<rparr>)"
      by (intro begin_row_inv) simp
    with upd assms(2,4) show ?thesis by (simp add: tasks_inv_def st')
  next
    case True
    with assms(1) have leave: "leave_row (rows ! i) (env i) i (GaveUp None 0)
        (st\<lparr>rt_metrics := madd rest (no_metrics\<lparr>m_inflight := 1\<rparr>)\<rparr>) = Some st'"
      by (simp add: begin_row_def Let_def up)
    then obtain r where "limiter_reach n (rt_sem st')" "sem_matches (rt_sem st') (rt_phases st')"
      and r: "end_row (rows ! i) (env i) (GaveUp None 0) (madd rest (no_metrics\<lparr>m_inflight := 1\<rparr>)) = (r, rt_metrics st')"
      and phs: "rt_phases st' = (rt_phases st)[i := Ended r]"
      by (rule leave_row_inv [of _ _ _ _ _ _ n "Calling 0 None"]) (use assms(2-4) in simp_all)
    moreover obtain d' where d': "end_row (rows ! i) (env i) (GaveUp None 0) (no_metrics\<lparr>m_inflight := 1\<rparr>) = (r, d')"
      and "rt_metrics st' = madd rest d'" using r by (auto simp: end_row_madd split: prod.splits)
    ultimately show ?thesis
      using upd [rule_format, OF begin_row_ends [OF True d', of p]] by (simp add: tasks_inv_def phs)
  qed
qed

lemma sem_matches_enter:
  assumes "sem_step (Enter i) q = Some q'" and "sem_matches q phs" and "i < length phs" and "phs ! i = Arrived"
  shows "sem_matches q' (phs[i := if i \<in> set (sem_active q') then Calling 0 None else Queued])"
proof -
  have "i \<notin> places in_flight phs" "i \<notin> places ((=) Queued) phs" using assms(4) by (simp_all add: places_def)
  then show ?thesis
    using assms(2,3) sem_enter [OF assms(1)]
    by (auto simp: sem_matches_def places_update simp del: set_map)
qed

lemma sem_matches_resume:
  assumes "sem_step (Resume i) q = Some q'" and "sem_matches q phs" and "i < length phs" and "phs ! i = Queued"
  shows "sem_matches q' (phs[i := Calling 0 None])"
proof -
  have "distinct (map fst (sem_waiters q))" using assms(2) by (simp add: sem_matches_def)
  note q' = sem_resume [OF assms(1) this]
  have "i \<notin> places in_flight phs" using assms(4) by (simp add: places_def)
  then show ?thesis
    using assms(2,3) by (auto simp: sem_matches_def q' places_update set_remove1_eq simp del: set_map)
qed

lemma tasks_inv_pick:
  assumes "tasks_inv n s p env rows m0 st" and "i < length (rt_phases st)" and "rt_phases st ! i = ph"
  obtains d rest where "row_inv s p (env i) (rows ! i) ph d" and "rt_metrics st = madd rest d"
    and "\<forall>ph' d'. row_inv s p (env i) (rows ! i) ph' d' \<longrightarrow>
      rows_inv s p env rows m0 ((rt_phases st)[i := ph']) (madd rest d')"
  using rows_inv_pick [of s p env rows m0 "rt_phases st" "rt_metrics st" i] assms unfolding tasks_inv_def by metis

lemma arrived_inv:
  assumes inv: "tasks_inv n s p env rows m0 st" and step: "row_step s p env rows i st = Some st'"
    and i: "i < length (rt_phases st)" and ph: "rt_phases st ! i = Arrived"
  shows "tasks_inv n s p env rows m0 st'"
proof -
  from inv have lim: "limiter_reach n (rt_sem st)" and sem: "sem_matches (rt_sem st) (rt_phases st)"
    and rws: "rows_inv s p env rows m0 (rt_phases st) (rt_metrics st)" by (simp_all add: tasks_inv_def)
  from step i ph obtain q where q: "sem_step (Enter i) (rt_sem st) = Some q"
    and go: "if i \<in> set (sem_active q) then begin_row s (rows ! i) (env i) i (st\<lparr>rt_sem := q\<rparr>) = Some st'
      else st' = st\<lparr>rt_sem := q, rt_phases := (rt_phases st)[i := Queued]\<rparr>"
    by (auto simp: row_step_def split: option.splits if_splits)
  note lim' = limiter_step [OF lim q] and sem' = sem_matches_enter [OF q sem i ph]
  show ?thesis
  proof (cases "i \<in> set (sem_active q)")
    case True
    with go have "begin_row s (rows ! i) (env i) i (st\<lparr>rt_sem := q\<rparr>) = Some st'" by simp
    then show ?thesis
      using begin_row_keeps [of s rows i env "st\<lparr>rt_sem := q\<rparr>" st' n p m0] True lim' sem' i rws ph by simp
  next
    case False
    obtain d rest where "row_inv s p (env i) (rows ! i) Arrived d" "rt_metrics st = madd rest d"
      and upd: "\<forall>ph' d'. row_inv s p (env i) (rows ! i) ph' d' \<longrightarrow>
        rows_inv s p env rows m0 ((rt_phases st)[i := ph']) (madd rest d')"
      using tasks_inv_pick [OF inv i ph] .
    with upd [rule_format, of Queued no_metrics] have "rows_inv s p env rows m0 ((rt_phases st)[i := Queued]) (rt_metrics st)"
      by simp
    with False go lim' sem' show ?thesis by (simp add: tasks_inv_def)
  qed
qed

lemma answer_inv:
  assumes inv: "tasks_inv n s p env rows m0 st" and step: "row_step s p env rows i st = Some st'"
    and i: "i < length (rt_phases st)" and ph: "rt_phases st ! i = Calling k lst"
  shows "tasks_inv n s p env rows m0 st'"
proof -
  from inv have lim: "limiter_reach n (rt_sem st)" and sem: "sem_matches (rt_sem st) (rt_phases st)"
    by (simp_all add: tasks_inv_def)
  obtain d rest where d: "row_inv s p (env i) (rows ! i) (Calling k lst) d" "rt_metrics st = madd rest d"
    and upd: "\<forall>ph' d'. row_inv s p (env i) (rows ! i) ph' d' \<longrightarrow>
      rows_inv s p env rows m0 ((rt_phases st)[i := ph']) (madd rest d')"
    using tasks_inv_pick [OF inv i ph] .
  obtain mv d' where mv: "on_answer s p (env i) (build_request s (rows ! i)) k d = (mv, d')" by fastforce
  then have mv': "on_answer s p (env i) (build_request s (rows ! i)) k (rt_metrics st) = (mv, madd rest d')"
    by (simp add: d(2) on_answer_madd)
  show ?thesis
  proof (cases mv)
    case (Again msg w)
    with step i ph mv' have st': "st' = st\<lparr>rt_metrics := madd rest d',
        rt_phases := (rt_phases st)[i := Sleeping (Suc k) (Some msg) w]\<rparr>" by (simp add: row_step_def)
    have "sem_matches (rt_sem st) ((rt_phases st)[i := Sleeping (Suc k) (Some msg) w])"
      using sem i ph by (intro sem_matches_moved) simp_all
    moreover have "row_inv s p (env i) (rows ! i) (Sleeping (Suc k) (Some msg) w) d'"
      using row_inv_again d(1) mv Again by simp
    ultimately show ?thesis using lim upd by (simp add: tasks_inv_def st')
  next
    case (Over ex)
    with step i ph mv' have leave: "leave_row (rows ! i) (env i) i ex (st\<lparr>rt_metrics := madd rest d'\<rparr>) = Some st'"
      by (simp add: row_step_def)
    then obtain r where lim': "limiter_reach n (rt_sem st')" "sem_matches (rt_sem st') (rt_phases st')"
      and r: "end_row (rows ! i) (env i) ex (madd rest d') = (r, rt_metrics st')"
      and phs: "rt_phases st' = (rt_phases st)[i := Ended r]"
      by (rule leave_row_inv [of _ _ _ _ _ _ n "rt_phases st ! i"]) (use lim sem i in simp_all)
    obtain d'' where d'': "end_row (rows ! i) (env i) ex d' = (r, d'')" and "rt_metrics st' = madd rest d''"
      using r by (auto simp: end_row_madd split: prod.splits)
    moreover have "row_inv s p (env i) (rows ! i) (Ended r) d''"
      using row_inv_over [OF _ _ d''] d(1) mv Over by simp
    ultimately show ?thesis using lim' upd by (simp add: tasks_inv_def phs)
  qed
qed

lemma row_step_inv:
  assumes inv: "tasks_inv n s p env rows m0 st" and step: "row_step s p env rows i st = Some st'"
  shows "tasks_inv n s p env rows m0 st'"
proof -
  have i: "i < length (rt_phases st)" using step by (simp add: row_step_def split: if_splits)
  from inv have lim: "limiter_reach n (rt_sem st)" and sem: "sem_matches (rt_sem st) (rt_phases st)"
    and rws: "rows_inv s p env rows m0 (rt_phases st) (rt_metrics st)" by (simp_all add: tasks_inv_def)
  show ?thesis
  proof (cases "rt_phases st ! i")
    case Queued
    with step i obtain q where q: "sem_step (Resume i) (rt_sem st) = Some q"
      and go: "begin_row s (rows ! i) (env i) i (st\<lparr>rt_sem := q\<rparr>) = Some st'"
      by (auto simp: row_step_def split: option.splits)
    show ?thesis
      using begin_row_keeps [of s rows i env "st\<lparr>rt_sem := q\<rparr>" st' n p m0] go limiter_step [OF lim q]
        sem_matches_resume [OF q sem i Queued] i rws Queued by simp
  next
    case (Sleeping k lst w)
    obtain d rest where d: "row_inv s p (env i) (rows ! i) (Sleeping k lst w) d" "rt_metrics st = madd rest d"
      and upd: "\<forall>ph' d'. row_inv s p (env i) (rows ! i) ph' d' \<longrightarrow>
        rows_inv s p env rows m0 ((rt_phases st)[i := ph']) (madd rest d')"
      using tasks_inv_pick [OF inv i Sleeping] .
    have "sem_matches (rt_sem st) ((rt_phases st)[i := Calling k lst])"
      using sem i Sleeping by (intro sem_matches_moved) simp_all
    moreover have "rows_inv s p env rows m0 ((rt_phases st)[i := Calling k lst]) (rt_metrics st)"
      using upd [rule_format, of "Calling k lst" d] d by simp
    moreover have "st' = st\<lparr>rt_phases := (rt_phases st)[i := Calling k lst]\<rparr>"
      using step i Sleeping by (simp add: row_step_def)
    ultimately show ?thesis using lim by (simp add: tasks_inv_def)
  next
    case (Ended r)
    with step i show ?thesis by (simp add: row_step_def)
  qed (use arrived_inv [OF inv step i] answer_inv [OF inv step i] in blast)+
qed

lemma run_tasks_inv:
  "run_tasks s p env rows is st = Some st' \<Longrightarrow> tasks_inv n s p env rows m0 st \<Longrightarrow> tasks_inv n s p env rows m0 st'"
  by (induction "is" arbitrary: st) (auto split: option.splits dest: row_step_inv)

section \<open>Progress and termination\<close>

text \<open>The steps a row still has to go.\<close>

fun steps_left :: "nat \<Rightarrow> row_phase \<Rightarrow> nat" where
  "steps_left n Arrived = 2 * n + 2"
| "steps_left n Queued = 2 * n + 1"
| "steps_left n (Calling k lst) = 2 * (n - k)"
| "steps_left n (Sleeping k lst d) = 2 * (n - k) + 1"
| "steps_left n (Ended r) = 0"

definition work_left :: "settings \<Rightarrow> row_tasks \<Rightarrow> nat" where
  "work_left s st = sum_list (map (steps_left (nat (retry_max_attempts s))) (rt_phases st))"

lemma sum_list_update_less:
  fixes f :: "'a \<Rightarrow> nat"
  assumes "i < length xs" and "f x < f (xs ! i)"
  shows "sum_list (map f (xs[i := x])) < sum_list (map f xs)"
  using assms
proof (induction xs arbitrary: i)
  case (Cons y ys)
  then show ?case by (cases i) auto
qed simp

lemma begin_row_phase:
  "begin_row s item env i st = Some st' \<Longrightarrow> \<exists>ph. rt_phases st' = (rt_phases st)[i := ph] \<and>
     steps_left (nat (retry_max_attempts s)) ph \<le> 2 * nat (retry_max_attempts s)"
  by (auto simp: begin_row_def leave_row_def Let_def split: if_splits option.splits prod.splits)

lemma row_step_phase:
  assumes inv: "tasks_inv n s p env rows m0 st" and step: "row_step s p env rows i st = Some st'"
  shows "\<exists>ph. i < length (rt_phases st) \<and> rt_phases st' = (rt_phases st)[i := ph] \<and>
    steps_left (nat (retry_max_attempts s)) ph < steps_left (nat (retry_max_attempts s)) (rt_phases st ! i)"
proof -
  have i: "i < length (rt_phases st)" using step by (simp add: row_step_def split: if_splits)
  show ?thesis
  proof (cases "rt_phases st ! i")
    case Arrived
    with step i show ?thesis
      by (fastforce simp: row_step_def dest: begin_row_phase split: option.splits if_splits)
  next
    case Queued
    with step i show ?thesis by (fastforce simp: row_step_def dest: begin_row_phase split: option.splits)
  next
    case (Calling k lst)
    have k: "k < nat (retry_max_attempts s)"
      using tasks_inv_pick [OF inv i Calling] by (metis at_attempt_def row_inv.simps(3))
    obtain mv m where mv: "on_answer s p (env i) (build_request s (rows ! i)) k (rt_metrics st) = (mv, m)" by fastforce
    show ?thesis
    proof (cases mv)
      case (Again msg w)
      with on_answer_again mv step i Calling k show ?thesis by (force simp: row_step_def)
    next
      case (Over ex)
      with mv step i Calling k show ?thesis
        by (auto simp: row_step_def leave_row_def split: option.splits prod.splits)
    qed
  next
    case (Sleeping k lst w)
    with step i show ?thesis by (force simp: row_step_def)
  next
    case (Ended r)
    with step i show ?thesis by (simp add: row_step_def)
  qed
qed

lemma row_step_work:
  "tasks_inv n s p env rows m0 st \<Longrightarrow> row_step s p env rows i st = Some st' \<Longrightarrow> work_left s st' < work_left s st"
  using row_step_phase [of n s p env rows m0 st i st'] sum_list_update_less by (auto simp: work_left_def)

lemma run_tasks_work:
  "run_tasks s p env rows is st = Some st' \<Longrightarrow> tasks_inv n s p env rows m0 st \<Longrightarrow>
   length is + work_left s st' \<le> work_left s st"
proof (induction "is" arbitrary: st)
  case (Cons i "is")
  then obtain st1 where step: "row_step s p env rows i st = Some st1" and run: "run_tasks s p env rows is st1 = Some st'"
    by (auto split: option.splits)
  show ?case
    using Cons.IH [OF run row_step_inv [OF Cons.prems(2) step]] row_step_work [OF Cons.prems(2) step] by simp
qed simp

lemma begin_row_possible: "i \<in> set (sem_active (rt_sem st)) \<Longrightarrow> \<exists>st'. begin_row s item env i st = Some st'"
  by (simp add: begin_row_def leave_row_def Let_def split: prod.split)

lemma row_moves:
  assumes sem: "sem_matches (rt_sem st) (rt_phases st)" and j: "j < length (rt_phases st)"
    and ph: "rt_phases st ! j = Arrived \<or> in_flight (rt_phases st ! j)"
  shows "\<exists>st'. row_step s p env rows j st = Some st'"
proof -
  note known = placesD [OF sem j]
  show ?thesis
  proof (cases "rt_phases st ! j")
    case Arrived
    with known have "j \<notin> set (sem_active (rt_sem st))" "j \<notin> set (map fst (sem_waiters (rt_sem st)))" by auto
    then obtain q where "sem_step (Enter j) (rt_sem st) = Some q" by (cases "sem_locked (rt_sem st)") auto
    with j Arrived show ?thesis
      using begin_row_possible [of j "st\<lparr>rt_sem := q\<rparr>" s "rows ! j" "env j"] by (simp add: row_step_def)
  next
    case (Calling k lst)
    with known have "j \<in> set (sem_active (rt_sem st))" by simp
    with j Calling show ?thesis by (simp add: row_step_def leave_row_def split: prod.split row_move.split)
  next
    case (Sleeping k lst w)
    with j show ?thesis by (simp add: row_step_def)
  qed (use ph in auto)
qed

lemma row_can_step:
  assumes inv: "tasks_inv n s p env rows m0 st" and i: "i < length (rt_phases st)" "\<And>r. rt_phases st ! i \<noteq> Ended r"
  shows "\<exists>j st'. row_step s p env rows j st = Some st'"
proof -
  from inv have lim: "limiter_reach n (rt_sem st)" and sem: "sem_matches (rt_sem st) (rt_phases st)"
    by (simp_all add: tasks_inv_def)
  show ?thesis
  proof (cases "\<exists>j < length (rt_phases st). rt_phases st ! j = Arrived \<or> in_flight (rt_phases st ! j)")
    case True
    then show ?thesis using row_moves [OF sem] by blast
  next
    case False
    with i have "rt_phases st ! i = Queued" by (cases "rt_phases st ! i") auto
    then have "sem_waiters (rt_sem st) \<noteq> []" using placesD [OF sem i(1)] by auto
    moreover have "set (sem_active (rt_sem st)) = {}" using sem False by (simp add: sem_matches_def places_def)
    ultimately obtain t q where q: "sem_step (Resume t) (rt_sem st) = Some q"
      using limiter_no_deadlock [OF lim] by auto
    then have "t \<in> set (map fst (sem_waiters (rt_sem st)))" by (force simp: image_iff split: if_splits)
    then have t: "t < length (rt_phases st)" "rt_phases st ! t = Queued"
      using sem by (auto simp: sem_matches_def places_def simp del: set_map)
    have "distinct (map fst (sem_waiters (rt_sem st)))" using sem by (simp add: sem_matches_def)
    then have "t \<in> set (sem_active q)" using sem_resume(1) [OF q] by simp
    then have "\<exists>st'. row_step s p env rows t st = Some st'"
      using begin_row_possible [of t "st\<lparr>rt_sem := q\<rparr>" s "rows ! t" "env t"] q t
      by (simp add: row_step_def del: sem_step.simps)
    then show ?thesis by blast
  qed
qed

section \<open>Properties\<close>

definition is_ended :: "row_phase \<Rightarrow> bool" where
  "is_ended ph \<longleftrightarrow> (case ph of Ended r \<Rightarrow> True | _ \<Rightarrow> False)"

lemma is_ended_iff: "is_ended ph \<longleftrightarrow> (\<exists>r. ph = Ended r)"
  by (cases ph) (simp_all add: is_ended_def)

lemma ended_outcome:
  "tasks_inv n s p env rows m0 st \<Longrightarrow> i < length rows \<Longrightarrow> is_ended (rt_phases st ! i) \<Longrightarrow>
   rt_phases st ! i = Ended (row_outcome s p (env i) (rows ! i))"
  by (force simp: tasks_inv_def rows_inv_def is_ended_iff)

lemma ended_metrics:
  assumes "tasks_inv n s p (\<lambda>i. env (rows ! i)) rows m0 st" and "list_all is_ended (rt_phases st)"
  shows "rt_metrics st = snd (process_chunk s p env rows m0)"
proof -
  from assms(1) obtain ds where ds: "length ds = length rows" "rt_metrics st = foldl madd m0 ds"
    and len: "length (rt_phases st) = length rows"
    and inv: "\<And>i. i < length rows \<Longrightarrow> row_inv s p (env (rows ! i)) (rows ! i) (rt_phases st ! i) (ds ! i)"
    by (auto simp: tasks_inv_def rows_inv_def)
  have "ds ! i = row_cost s p (env (rows ! i)) (rows ! i)" if "i < length rows" for i
    using inv [OF that] assms(2) that len by (fastforce simp: list_all_length is_ended_iff)
  then have "ds = map (\<lambda>c. row_cost s p (env c) c) rows" using ds(1) by (intro nth_equalityI) simp_all
  then show ?thesis by (simp add: ds(2) process_chunk_def process_rows_alone)
qed

text \<open>
  C11: Interleaving does not matter to the rows: however the tasks of a process share the limiter and
  the counters, when the rows of a chunk have ended \<open>gather\<close> has what processing them one after
  the other gives (the same records in the order of the rows, or an exception that one of them
  raised), and when all tasks have ended the counters are the sequential ones.
\<close>

theorem interleaving_is_sequential:
  assumes "tasks_start n m0 (length rows) = Inr st0"
    and "run_tasks s p (\<lambda>i. env (rows ! i)) rows schedule st0 = Some st"
    and "list_all (\<lambda>j. j < length rows \<and> is_ended (rt_phases st ! j)) chunk"
  shows "(\<exists>rs. map (\<lambda>j. rt_phases st ! j) chunk = map Ended rs \<and>
      gather rs = fst (process_chunk s p env (map (\<lambda>j. rows ! j) chunk) m)) \<and>
    (list_all is_ended (rt_phases st) \<longrightarrow> rt_metrics st = snd (process_chunk s p env rows m0))"
proof -
  note inv = run_tasks_inv [OF assms(2) tasks_inv_start [OF assms(1)]]
  let ?rs = "map (\<lambda>j. row_outcome s p (env (rows ! j)) (rows ! j)) chunk"
  have "map (\<lambda>j. rt_phases st ! j) chunk = map Ended ?rs"
    using assms(3) ended_outcome [OF inv] by (simp add: list_all_iff)
  moreover have "gather ?rs = fst (process_chunk s p env (map (\<lambda>j. rows ! j) chunk) m)"
    by (simp add: process_chunk_def process_rows_alone o_def)
  ultimately show ?thesis using ended_metrics [OF inv] by blast
qed

lemma row_inv_gauge: "row_inv s p env item ph d \<Longrightarrow> m_inflight d = (if in_flight ph then 1 else 0)"
  using process_row_inflight [of s p env item no_metrics]
  by (cases ph) (auto simp: at_attempt_def no_metrics_def row_cost_def)

lemma foldl_madd_gauge: "m_inflight (foldl madd m0 ds) = m_inflight m0 + sum_list (map m_inflight ds)"
  by (induction ds arbitrary: m0) (simp_all add: madd_def)

lemma count_by_sum: "sum_list (map (\<lambda>x. if P x then 1 else 0) xs) = int (length (filter P xs))"
  by (induction xs) simp_all


lemma work_at_start: "tasks_start n m0 len = Inr st \<Longrightarrow> work_left s st = len * (2 * nat (retry_max_attempts s) + 2)"
  by (auto simp: tasks_start_def work_left_def sum_list_replicate split: sum.splits)

text \<open>
  C30: Processing the rows ends: no schedule of the tasks has more than
  \<open>2 * retry_max_attempts + 2\<close> steps per row, and as long as a row has not ended some task can
  move, so the limiter cannot block the rows against each other and \<open>gather\<close> returns once the
  client has answered every call.
\<close>

theorem interleaving_terminates:
  assumes "tasks_start n m0 (length rows) = Inr st0" and "run_tasks s p env rows schedule st0 = Some st"
  shows "length schedule \<le> length rows * (2 * nat (retry_max_attempts s) + 2) \<and>
    ((\<forall>i. row_step s p env rows i st = None) \<longleftrightarrow> list_all is_ended (rt_phases st))"
proof -
  note start = tasks_inv_start [OF assms(1), of s p env]
  note inv = run_tasks_inv [OF assms(2) start]
  have "length schedule \<le> length rows * (2 * nat (retry_max_attempts s) + 2)"
    using run_tasks_work [OF assms(2) start] work_at_start [OF assms(1), of s] by simp
  moreover have "list_all is_ended (rt_phases st)" if "\<And>i. row_step s p env rows i st = None"
    using row_can_step [OF inv] that by (auto simp: list_all_length is_ended_iff)
  moreover have "row_step s p env rows i st = None" if "list_all is_ended (rt_phases st)" for i
    using that by (auto simp: list_all_length is_ended_iff row_step_def)
  ultimately show ?thesis by blast
qed

text \<open>
  Two rows and one permit: the first row is told to retry, sleeps, and ends; the second one waits in
  the limiter's queue until then.
\<close>

definition busy_once :: "claimed_item \<Rightarrow> row_env" where
  "busy_once c = demo_env (\<lambda>rq k. if k = 0 \<and> ci_external_id c = ''a'' then Inl (RetryableInferenceError ''busy'')
     else Inr \<lparr>rs_text = ''ok'', rs_prompt_tokens = 1, rs_completion_tokens = 1, rs_latency_ms = 1\<rparr>)"

definition two_rows :: "claimed_item list" where
  "two_rows = [demo_item, demo_item\<lparr>ci_id := 2, ci_external_id := ''b''\<rparr>]"

definition two_tasks :: row_tasks where
  "two_tasks = \<lparr>rt_sem = \<lparr>sem_value = 1, sem_waiters = [], sem_active = []\<rparr>, rt_metrics = no_metrics,
     rt_phases = [Arrived, Arrived]\<rparr>"

definition demo_tasks :: "nat list \<Rightarrow> row_tasks option" where
  "demo_tasks schedule = run_tasks default_settings shipped_policy (\<lambda>i. busy_once (two_rows ! i)) two_rows schedule two_tasks"

lemma two_tasks_start: "tasks_start 1 no_metrics (length two_rows) = Inr two_tasks"
  by (simp add: tasks_start_def make_limiter_def two_tasks_def two_rows_def numeral_2_eq_2)

lemmas tasks_eval = demo_tasks_def two_tasks_def two_rows_def busy_once_def demo_env_def demo_item_def row_step_def
  begin_row_def leave_row_def on_answer_def end_row_def Let_def sem_locked_def wake_up_next_def default_settings_def
  no_metrics_def in_flight_def is_ended_def

lemma demo_tasks_waits:
  "\<exists>st. demo_tasks [0, 1, 0] = Some st \<and> length (filter in_flight (rt_phases st)) = 1 \<and> rt_phases st ! 1 = Queued"
proof -
  obtain d where "delay_for shipped_policy 0 (1 / 2) = Inr d"
    using delay_for_returns [of shipped_policy 0 "1 / 2"] by auto
  then show ?thesis by (simp add: tasks_eval)
qed

lemma demo_tasks_end: "\<exists>st. demo_tasks [0, 1, 0, 0, 0, 1, 1] = Some st \<and> list_all is_ended (rt_phases st)"
proof -
  obtain d where "delay_for shipped_policy 0 (1 / 2) = Inr d"
    using delay_for_returns [of shipped_policy 0 "1 / 2"] by auto
  then show ?thesis by (simp add: tasks_eval)
qed

theorem interleaving_is_sequential_witness:
  "\<exists>st rs. demo_tasks [0, 1, 0, 0, 0, 1, 1] = Some st \<and> rt_phases st = map Ended rs \<and>
     gather rs = fst (process_chunk default_settings shipped_policy busy_once two_rows no_metrics) \<and>
     rt_metrics st = snd (process_chunk default_settings shipped_policy busy_once two_rows no_metrics)"
proof -
  obtain st where run: "demo_tasks [0, 1, 0, 0, 0, 1, 1] = Some st" and ended: "list_all is_ended (rt_phases st)"
    using demo_tasks_end by blast
  have len: "length (rt_phases st) = length two_rows"
    using run_tasks_inv [OF run [unfolded demo_tasks_def] tasks_inv_start [OF two_tasks_start]]
    by (simp add: tasks_inv_def rows_inv_def)
  then have all: "map (\<lambda>j. rt_phases st ! j) [0..<length two_rows] = rt_phases st"
    "map (\<lambda>j. two_rows ! j) [0..<length two_rows] = two_rows" by (metis map_nth)+
  have "list_all (\<lambda>j. j < length two_rows \<and> is_ended (rt_phases st ! j)) [0..<length two_rows]"
    using ended len by (simp add: list_all_iff list_all_length)
  from interleaving_is_sequential [OF two_tasks_start run [unfolded demo_tasks_def] this] ended run show ?thesis
    unfolding all by blast
qed


theorem interleaving_terminates_witness:
  "\<exists>st. demo_tasks [0, 1, 0, 0, 0, 1, 1] = Some st \<and> 7 \<le> length two_rows * (2 * nat (retry_max_attempts default_settings) + 2) \<and>
     row_step default_settings shipped_policy (\<lambda>i. busy_once (two_rows ! i)) two_rows 0 st = None"
proof -
  obtain st where run: "demo_tasks [0, 1, 0, 0, 0, 1, 1] = Some st" and ended: "list_all is_ended (rt_phases st)"
    using demo_tasks_end by blast
  from interleaving_terminates [OF two_tasks_start run [unfolded demo_tasks_def]] run ended show ?thesis by auto
qed

end
