(* ===== verification/Logging.thy ===== *)
theory Logging
  imports Domain "HOL-Library.AList"
begin

text \<open>
  Structured logging (\<open>app/core/logging.py\<close>) and error tracking
  (\<open>app/core/observability.py\<close>). The context variables are a record of the three
  correlation ids; a Python dict is an association list, \<open>AList.update\<close> its assignment. A log
  record carries its creation time as ISO text, its message with the arguments filled in, the
  whole \<open>__dict__\<close> as \<open>lr_attrs\<close> and the traceback text when it has an exception. The
  text \<open>json.dumps\<close> makes of the payload is not modelled: the payload is.
\<close>

section \<open>Correlation ids\<close>

record log_context =
  cx_request_id :: "string option"
  cx_job_id :: "string option"
  cx_worker_id :: "string option"

definition no_context :: log_context where
  "no_context = \<lparr>cx_request_id = None, cx_job_id = None, cx_worker_id = None\<rparr>"

definition context_vars :: "log_context \<Rightarrow> (string \<times> string option) list" where
  "context_vars cx = [(''request_id'', cx_request_id cx), (''job_id'', cx_job_id cx), (''worker_id'', cx_worker_id cx)]"

definition context_fields :: "log_context \<Rightarrow> (string \<times> string) list" where
  "context_fields cx =
     concat (map (\<lambda>(name, v). case v of None \<Rightarrow> [] | Some x \<Rightarrow> [(name, x)]) (context_vars cx))"

definition set_request_id :: "string option \<Rightarrow> log_context \<Rightarrow> log_context" where
  "set_request_id v cx = cx\<lparr>cx_request_id := v\<rparr>"

definition set_job_id :: "string option \<Rightarrow> log_context \<Rightarrow> log_context" where
  "set_job_id v cx = cx\<lparr>cx_job_id := v\<rparr>"

definition set_worker_id :: "string option \<Rightarrow> log_context \<Rightarrow> log_context" where
  "set_worker_id v cx = cx\<lparr>cx_worker_id := v\<rparr>"

lemma set_context_sel [simp]:
  "cx_request_id (set_request_id v cx) = v" "cx_request_id (set_job_id v cx) = cx_request_id cx"
  "cx_request_id (set_worker_id v cx) = cx_request_id cx" "cx_job_id (set_request_id v cx) = cx_job_id cx"
  "cx_job_id (set_job_id v cx) = v" "cx_job_id (set_worker_id v cx) = cx_job_id cx"
  "cx_worker_id (set_request_id v cx) = cx_worker_id cx" "cx_worker_id (set_job_id v cx) = cx_worker_id cx"
  "cx_worker_id (set_worker_id v cx) = v"
  by (simp_all add: set_request_id_def set_job_id_def set_worker_id_def)

section \<open>Formatters\<close>

datatype log_value = LText string | LNum rat | LObj string

record log_record =
  lr_created_iso :: string
  lr_asctime :: string
  lr_levelname :: string
  lr_name :: string
  lr_message :: string
  lr_attrs :: "(string \<times> log_value) list"
  lr_traceback :: "string option"

text \<open>The attributes of \<open>makeLogRecord({})\<close> and the three the code adds to them.\<close>

definition reserved_attrs :: "string list" where
  "reserved_attrs = [''name'', ''msg'', ''args'', ''levelname'', ''levelno'', ''pathname'', ''filename'',
     ''module'', ''exc_info'', ''exc_text'', ''stack_info'', ''lineno'', ''funcName'', ''created'', ''msecs'',
     ''relativeCreated'', ''thread'', ''threadName'', ''processName'', ''process'',
     ''message'', ''asctime'', ''taskName'']"

definition is_extra :: "string \<Rightarrow> bool" where
  "is_extra key \<longleftrightarrow> key \<notin> set reserved_attrs \<and> take 1 key \<noteq> ''_''"

definition json_payload :: "log_context \<Rightarrow> log_record \<Rightarrow> (string \<times> log_value) list" where
  "json_payload cx r =
     (let base = [(''ts'', LText (lr_created_iso r)), (''level'', LText (lr_levelname r)),
                  (''logger'', LText (lr_name r)), (''msg'', LText (lr_message r))];
          tagged = fold (\<lambda>(k, v) p. AList.update k (LText v) p) (context_fields cx) base;
          extended = fold (\<lambda>(k, v) p. if is_extra k then AList.update k v p else p) (lr_attrs r) tagged
      in case lr_traceback r of None \<Rightarrow> extended | Some tb \<Rightarrow> AList.update ''exception'' (LText tb) extended)"

text \<open>The format \<open>%-7s\<close>.\<close>

definition pad_right :: "nat \<Rightarrow> string \<Rightarrow> string" where
  "pad_right n s = s @ replicate (n - length s) (CHR '' '')"

text \<open>\<open>logging.Formatter.format\<close>, which appends the traceback on a new line.\<close>

definition base_format :: "log_record \<Rightarrow> string" where
  "base_format r = lr_asctime r @ '' '' @ pad_right 7 (lr_levelname r) @ '' '' @ lr_name r @ '' :: '' @ lr_message r @
     (case lr_traceback r of None \<Rightarrow> [] | Some tb \<Rightarrow> CHR 0x0A # tb)"

definition console_line :: "log_context \<Rightarrow> log_record \<Rightarrow> string" where
  "console_line cx r =
     (let ctx = context_fields cx
      in if ctx = [] then base_format r
         else base_format r @ '' '' @ py_join '' '' (map (\<lambda>(k, v). k @ ''='' @ v) ctx))"

section \<open>\<open>configure_logging\<close>\<close>

datatype formatter = JsonFormatter | ConsoleFormatter

datatype handler = StreamHandler formatter | RotatingFileHandler string int int formatter

record logging_state =
  lg_handlers :: "handler list"
  lg_level :: string
  lg_uvicorn :: "string \<Rightarrow> handler list \<times> bool"

definition uvicorn_loggers :: "string list" where
  "uvicorn_loggers = [''uvicorn'', ''uvicorn.error'', ''uvicorn.access'']"

definition configure_logging ::
  "settings \<Rightarrow> string option \<Rightarrow> string option \<Rightarrow> logging_state \<Rightarrow> logging_state" where
  "configure_logging s level fmt st =
     (let level = (case level of None \<Rightarrow> log_level s | Some l \<Rightarrow> l);
          fmt = (case fmt of None \<Rightarrow> log_format s | Some f \<Rightarrow> f);
          formatter = (if fmt = ''json'' then JsonFormatter else ConsoleFormatter)
      in \<lparr>lg_handlers = StreamHandler formatter #
            (if log_file s = [] then []
             else [RotatingFileHandler (log_file s) (log_file_max_bytes s) (log_file_backup_count s) formatter]),
          lg_level = level,
          lg_uvicorn = fold (\<lambda>name u. u(name := ([], True))) uvicorn_loggers (lg_uvicorn st)\<rparr>)"

section \<open>Error tracking\<close>

record sentry =
  se_enabled :: bool
  se_events :: "(exn \<times> (string \<times> string) list) list"

text \<open>\<open>sdk\<close> is what importing and initialising \<open>sentry_sdk\<close> does.\<close>

definition init_sentry :: "settings \<Rightarrow> exn + unit \<Rightarrow> sentry \<Rightarrow> bool \<times> sentry" where
  "init_sentry s sdk st =
     (if sentry_dsn s = [] then (False, st)
      else case sdk of Inr _ \<Rightarrow> (True, st\<lparr>se_enabled := True\<rparr>) | Inl e \<Rightarrow> (False, st\<lparr>se_enabled := False\<rparr>))"

definition capture_exception :: "exn \<Rightarrow> (string \<times> string) list \<Rightarrow> exn + unit \<Rightarrow> sentry \<Rightarrow> sentry" where
  "capture_exception e tags sdk st =
     (if \<not> se_enabled st then st
      else case sdk of Inr _ \<Rightarrow> st\<lparr>se_events := se_events st @ [(e, tags)]\<rparr> | Inl _ \<Rightarrow> st)"

section \<open>What a line carries\<close>

lemma map_of_rev_distinct: "distinct (map fst xs) \<Longrightarrow> map_of (rev xs) k = map_of xs k"
  by (induction xs) (auto simp: map_add_def dom_map_of_conv_image_fst[symmetric] split: option.split
      dest: map_of_SomeD)

text \<open>Assigning the pairs of a list one after the other: the last one for a key counts.\<close>

lemma map_of_fold_update:
  "map_of (fold (\<lambda>(k, v) p. if P k then AList.update k (f v) p else p) kvs p) key =
     (case map_of (rev (filter (\<lambda>(k, v). P k) kvs)) key of Some v \<Rightarrow> Some (f v) | None \<Rightarrow> map_of p key)"
  by (induction kvs arbitrary: p)
    (auto simp: update_conv' map_add_def split: option.split)

lemma keys_fold_update:
  "distinct (map fst p) \<Longrightarrow>
   distinct (map fst (fold (\<lambda>(k, v) p. if P k then AList.update k (f v) p else p) kvs p))"
  by (induction kvs arbitrary: p) (auto simp: distinct_update)

lemma map_of_tagged:
  "map_of (fold (\<lambda>(k, v) p. AList.update k (LText v) p) kvs p) key =
     (case map_of (rev kvs) key of Some v \<Rightarrow> Some (LText v) | None \<Rightarrow> map_of p key)"
  using map_of_fold_update [of "\<lambda>_. True" LText kvs p key] by simp

lemma keys_tagged:
  "distinct (map fst p) \<Longrightarrow> distinct (map fst (fold (\<lambda>(k, v) p. AList.update k (LText v) p) kvs p))"
  using keys_fold_update [of p "\<lambda>_. True" LText kvs] by simp

lemma context_fields_distinct: "distinct (map fst (context_fields cx))"
  by (simp add: context_fields_def context_vars_def split: option.split)

lemma json_payload_keys: "distinct (map fst (json_payload cx r))"
  unfolding json_payload_def Let_def
  using keys_fold_update [OF keys_tagged, of _ is_extra "\<lambda>v. v" "lr_attrs r" "context_fields cx"]
  by (auto split: option.split intro!: distinct_update)

text \<open>Which source a key of the payload is read from: traceback, extras, context, the basics.\<close>

lemma json_payload_lookup:
  assumes "distinct (map fst (lr_attrs r))"
  shows "map_of (json_payload cx r) key =
    (case (if key = ''exception'' then lr_traceback r else None) of
       Some tb \<Rightarrow> Some (LText tb)
     | None \<Rightarrow>
         (case (if is_extra key then map_of (lr_attrs r) key else None) of
            Some v \<Rightarrow> Some v
          | None \<Rightarrow>
              (case map_of (context_fields cx) key of
                 Some v \<Rightarrow> Some (LText v)
               | None \<Rightarrow>
                   map_of [(''ts'', LText (lr_created_iso r)), (''level'', LText (lr_levelname r)),
                     (''logger'', LText (lr_name r)), (''msg'', LText (lr_message r))] key)))"
proof -
  have "map_of (rev (context_fields cx)) key = map_of (context_fields cx) key"
    by (rule map_of_rev_distinct) (rule context_fields_distinct)
  moreover have "map_of (rev (filter (\<lambda>(k, v). is_extra k) (lr_attrs r))) key =
      (if is_extra key then map_of (lr_attrs r) key else None)"
    using assms map_of_filter [of is_extra "lr_attrs r"]
    by (simp add: map_of_rev_distinct distinct_map_filter case_prod_unfold restrict_map_def)
  ultimately have extended: "map_of (fold (\<lambda>(k, v) p. if is_extra k then AList.update k v p else p) (lr_attrs r)
        (fold (\<lambda>(k, v) p. AList.update k (LText v) p) (context_fields cx) base)) key =
      (case (if is_extra key then map_of (lr_attrs r) key else None) of Some v \<Rightarrow> Some v
       | None \<Rightarrow> (case map_of (context_fields cx) key of Some v \<Rightarrow> Some (LText v) | None \<Rightarrow> map_of base key))" for base
    by (simp only: map_of_fold_update [of is_extra "\<lambda>v. v"] map_of_tagged)
  show ?thesis
    unfolding json_payload_def Let_def
    by (cases "lr_traceback r") (simp_all only: option.case update_conv' fun_upd_apply extended if_cancel split: if_split, simp_all)
qed

text \<open>
  C39: Every log line carries its correlation: the JSON payload has no key twice, holds each context
  id that is set under its name unless the call passed an extra of that name, and always the
  record's own message; the console line is the standard line followed by every context id that
  is set.
\<close>

theorem log_lines_carry_context:
  assumes "distinct (map fst (lr_attrs r))"
  shows "distinct (map fst (json_payload cx r)) \<and>
    (\<forall>(name, v) \<in> set (context_fields cx). name \<notin> fst ` set (lr_attrs r) \<longrightarrow>
       map_of (json_payload cx r) name = Some (LText v)) \<and>
    map_of (json_payload cx r) ''msg'' = Some (LText (lr_message r)) \<and>
    console_line cx r = base_format r @ concat (map (\<lambda>(name, v). '' '' @ name @ ''='' @ v) (context_fields cx))"
proof (intro conjI)
  show "distinct (map fst (json_payload cx r))" by (rule json_payload_keys)
  have names: "name \<in> {''request_id'', ''job_id'', ''worker_id''}" if "(name, v) \<in> set (context_fields cx)" for name v
    using that by (auto simp: context_fields_def context_vars_def split: option.splits)
  show "\<forall>(name, v) \<in> set (context_fields cx). name \<notin> fst ` set (lr_attrs r) \<longrightarrow>
      map_of (json_payload cx r) name = Some (LText v)"
  proof clarify
    fix name v
    assume v: "(name, v) \<in> set (context_fields cx)" and free: "name \<notin> fst ` set (lr_attrs r)"
    have "map_of (context_fields cx) name = Some v" using v context_fields_distinct by (rule map_of_is_SomeI [rotated])
    moreover have "map_of (lr_attrs r) name = None" using free by (simp add: map_of_eq_None_iff)
    ultimately show "map_of (json_payload cx r) name = Some (LText v)"
      using names [OF v] by (auto simp: json_payload_lookup [OF assms])
  qed
  have "map_of (context_fields cx) ''msg'' = None"
    by (auto simp: map_of_eq_None_iff dest: names)
  then show "map_of (json_payload cx r) ''msg'' = Some (LText (lr_message r))"
    by (simp add: json_payload_lookup [OF assms] is_extra_def reserved_attrs_def)
  show "console_line cx r = base_format r @ concat (map (\<lambda>(name, v). '' '' @ name @ ''='' @ v) (context_fields cx))"
  proof (cases "context_fields cx")
    case (Cons x xs)
    then show ?thesis by (simp add: console_line_def Let_def py_join_Cons o_def case_prod_unfold)
  qed (simp add: console_line_def)
qed

definition demo_log :: log_record where
  "demo_log = \<lparr>lr_created_iso = ''2024-01-01T00:00:00+00:00'', lr_asctime = ''2024-01-01 00:00:00,000'',
     lr_levelname = ''INFO'', lr_name = ''app'', lr_message = ''claimed'',
     lr_attrs = [(''name'', LText ''app''), (''msg'', LText ''claimed''), (''http_status'', LNum 200)], lr_traceback = None\<rparr>"

theorem log_lines_carry_context_witness:
  "map_of (json_payload (no_context\<lparr>cx_job_id := Some ''j''\<rparr>) demo_log) ''job_id'' = Some (LText ''j'') \<and>
   map_of (json_payload (no_context\<lparr>cx_job_id := Some ''j''\<rparr>) demo_log) ''msg'' = Some (LText ''claimed'')"
proof -
  have "distinct (map fst (lr_attrs demo_log))" by (simp add: demo_log_def)
  from log_lines_carry_context [OF this, of "no_context\<lparr>cx_job_id := Some ''j''\<rparr>"] show ?thesis
    by (auto simp: context_fields_def context_vars_def no_context_def demo_log_def)
qed

text \<open>Configuring twice is configuring once: no handler is left behind.\<close>

lemma configure_logging_again:
  "configure_logging s level fmt (configure_logging s' level' fmt' st) = configure_logging s level fmt st"
  by (simp add: configure_logging_def Let_def uvicorn_loggers_def fun_upd_twist)

text \<open>Without a DSN nothing is ever reported.\<close>

lemma sentry_off:
  "sentry_dsn s = [] \<Longrightarrow> \<not> se_enabled st \<Longrightarrow>
   capture_exception e tags sdk' (snd (init_sentry s sdk st)) = st \<and> \<not> fst (init_sentry s sdk st)"
  by (simp add: init_sentry_def capture_exception_def)

end
