(* ===== verification/LogContext.thy ===== *)
theory LogContext
  imports Logging
begin

text \<open>
  Correlation ids across tasks. The ids are context variables: a new asyncio task starts with a copy of
  the context of the task that makes it, and what it sets afterwards is its own. The tasks here are the
  ones of \<open>JobService.submit\<close> (which starts \<open>_execute\<close>), \<open>BatchEngine.run\<close> (whose
  \<open>gather\<close> starts a task per worker) and \<open>Worker._process_chunk\<close>.
\<close>

section \<open>Contexts of tasks\<close>

datatype context_set = SetRequest "string option" | SetJob "string option" | SetWorker "string option"

fun apply_set :: "context_set \<Rightarrow> log_context \<Rightarrow> log_context" where
  "apply_set (SetRequest v) cx = set_request_id v cx"
| "apply_set (SetJob v) cx = set_job_id v cx"
| "apply_set (SetWorker v) cx = set_worker_id v cx"

datatype task_event = StartTask nat nat | InTask nat context_set

fun context_step :: "task_event \<Rightarrow> (nat \<Rightarrow> log_context) \<Rightarrow> nat \<Rightarrow> log_context" where
  "context_step (StartTask parent t) cxs = cxs(t := cxs parent)"
| "context_step (InTask t v) cxs = cxs(t := apply_set v (cxs t))"

definition contexts_after :: "task_event list \<Rightarrow> (nat \<Rightarrow> log_context) \<Rightarrow> nat \<Rightarrow> log_context" where
  "contexts_after evs cxs = fold context_step evs cxs"

text \<open>What a task itself sets, in its order.\<close>

definition own_sets :: "nat \<Rightarrow> task_event list \<Rightarrow> context_set list" where
  "own_sets t evs = List.map_filter (\<lambda>e. case e of InTask u v \<Rightarrow> if u = t then Some v else None | _ \<Rightarrow> None) evs"

text \<open>
  What the task of \<open>_execute\<close> sets before the pool starts, at its beginning and again in
  \<open>ingest\<close>, and what \<open>Worker.run\<close> sets.
\<close>

definition execute_sets :: "uuid \<Rightarrow> context_set list" where
  "execute_sets job = [SetJob (Some job), SetJob (Some job)]"

definition worker_sets :: "string \<Rightarrow> uuid \<Rightarrow> context_set list" where
  "worker_sets w job = [SetWorker (Some w), SetJob (Some job)]"

section \<open>A task's context is its own\<close>

lemma own_sets_simps [simp]:
  "own_sets t [] = []" "own_sets t (StartTask p u # evs) = own_sets t evs"
  "own_sets t (InTask u v # evs) = (if u = t then v # own_sets t evs else own_sets t evs)"
  by (simp_all add: own_sets_def List.map_filter_def)

text \<open>
  However the tasks interleave, the context of a task is the one it was started with, changed by what
  it has set itself.
\<close>

lemma contexts_private:
  "list_all (\<lambda>e. \<forall>p. e \<noteq> StartTask p t) evs \<Longrightarrow>
   contexts_after evs cxs t = fold apply_set (own_sets t evs) (cxs t)"
proof (induction evs arbitrary: cxs)
  case (Cons e evs)
  then show ?case by (cases e) (auto simp: contexts_after_def)
qed (simp add: contexts_after_def)

lemma context_of_task:
  assumes "list_all (\<lambda>e. \<forall>p. e \<noteq> StartTask p t) evs'"
  shows "contexts_after (evs @ StartTask parent t # evs') cxs t =
    fold apply_set (own_sets t evs') (contexts_after evs cxs parent)"
  using contexts_private [OF assms, of "(contexts_after evs cxs)(t := contexts_after evs cxs parent)"]
  by (simp add: contexts_after_def)

text \<open>
  So the lines of a worker carry its own id and its job's whatever other workers and jobs run in the
  process, and the id of the request that submitted the job, which the task of \<open>_execute\<close> was
  started under.
\<close>

lemma worker_context:
  assumes "list_all (\<lambda>e. \<forall>p. e \<noteq> StartTask p w) evs'" and "own_sets w evs' = worker_sets name job"
  shows "contexts_after (evs @ StartTask parent w # evs') cxs w =
    \<lparr>cx_request_id = cx_request_id (contexts_after evs cxs parent), cx_job_id = Some job, cx_worker_id = Some name\<rparr>"
  by (simp add: context_of_task [OF assms(1)] assms(2) worker_sets_def set_job_id_def set_worker_id_def)

lemma worker_context_of_request:
  assumes "list_all (\<lambda>e. \<forall>p. e \<noteq> StartTask p w) evs3" "own_sets w evs3 = worker_sets name job"
    and "list_all (\<lambda>e. \<forall>p. e \<noteq> StartTask p x) evs2" "own_sets x evs2 = execute_sets job"
    and "cx_request_id (contexts_after evs1 cxs r) = Some request_id"
  shows "context_fields (contexts_after (evs1 @ StartTask r x # evs2 @ StartTask x w # evs3) cxs w) =
    [(''request_id'', request_id), (''job_id'', job), (''worker_id'', name)]"
proof -
  have "cx_request_id (contexts_after (evs1 @ StartTask r x # evs2) cxs x) = Some request_id"
    using context_of_task [OF assms(3), of evs1 r cxs] assms(4,5)
    by (simp add: execute_sets_def set_job_id_def)
  with worker_context [OF assms(1,2), of "evs1 @ StartTask r x # evs2" x cxs] show ?thesis
    by (simp add: context_fields_def context_vars_def)
qed

lemma worker_context_of_request_example:
  "context_fields (contexts_after
     [InTask 0 (SetRequest (Some ''r1'')), StartTask 0 1, InTask 1 (SetJob (Some ''j'')), StartTask 1 2, StartTask 1 3,
      InTask 2 (SetWorker (Some ''w0'')), InTask 0 (SetRequest (Some ''r2'')), InTask 3 (SetWorker (Some ''w1'')),
      InTask 2 (SetJob (Some ''j'')), InTask 3 (SetJob (Some ''j''))] (\<lambda>_. no_context) 2) =
   [(''request_id'', ''r1''), (''job_id'', ''j''), (''worker_id'', ''w0'')]"
  by (simp add: contexts_after_def no_context_def context_fields_def context_vars_def set_job_id_def
      set_worker_id_def set_request_id_def)

end
