(* ===== verification/JobRepo.thy ===== *)
theory JobRepo
  imports WorkQueue
begin

text \<open>
  \<open>PgJobRepository\<close> (\<open>app/infrastructure/db/repositories/job_repository.py\<close>): the
  \<open>jobs\<close> table's operations, on the tables of \<open>Schema\<close>. \<open>now\<close> is
  PostgreSQL's \<open>now()\<close>, which \<open>server_default\<close> and \<open>onupdate\<close> of
  \<open>JobORM\<close> read.
\<close>

record job_record =
  jr_id :: uuid
  jr_state :: job_state
  jr_input_path :: string
  jr_model :: string
  jr_total_items :: nat
  jr_config :: "(string \<times> string) list"
  jr_error :: "string option"
  jr_created_at :: "time option"
  jr_updated_at :: "time option"

section \<open>Operations\<close>

text \<open>The widths of \<open>jobs.model\<close> and of a PostgreSQL \<open>integer\<close>.\<close>

definition model_column_width :: nat where
  "model_column_width = 128"

definition int4_limit :: nat where
  "int4_limit = 2147483648"

definition opt_text_ok :: "string option \<Rightarrow> bool" where
  "opt_text_ok t = (case t of None \<Rightarrow> True | Some s \<Rightarrow> text_ok s)"

definition job_values_ok :: "job_record \<Rightarrow> bool" where
  "job_values_ok job \<longleftrightarrow> text_ok (jr_input_path job) \<and> text_ok (jr_model job) \<and>
     length (jr_model job) \<le> model_column_width \<and> jr_total_items job < int4_limit \<and>
     list_all (\<lambda>(k, v). text_ok k \<and> text_ok v) (jr_config job) \<and> opt_text_ok (jr_error job)"

definition create_job :: "job_record \<Rightarrow> time \<Rightarrow> database \<Rightarrow> exn + database" where
  "create_job job now db =
     (if \<not> job_values_ok job then Inl (DataError ''invalid value'')
      else if jr_id job \<in> job_ids db then Inl (IntegrityError ''jobs_pkey'')
      else Inr (db\<lparr>jobs := jobs db @
             [\<lparr>j_id = jr_id job, j_state = jr_state job, j_input_path = jr_input_path job,
               j_model = jr_model job, j_total_items = jr_total_items job,
               j_config = jr_config job, j_error = jr_error job,
               j_created_at = now, j_updated_at = now\<rparr>]\<rparr>))"

text \<open>\<open>session.get(JobORM, job_id)\<close>: the row with this primary key.\<close>

definition find_job :: "database \<Rightarrow> uuid \<Rightarrow> job_row option" where
  "find_job db job = find (\<lambda>r. j_id r = job) (jobs db)"

definition get_job :: "uuid \<Rightarrow> database \<Rightarrow> job_record option" where
  "get_job job db =
     (case find_job db job of
        None \<Rightarrow> None
      | Some row \<Rightarrow>
          Some \<lparr>jr_id = j_id row, jr_state = j_state row, jr_input_path = j_input_path row,
                jr_model = j_model row, jr_total_items = j_total_items row,
                jr_config = j_config row, jr_error = j_error row,
                jr_created_at = Some (j_created_at row), jr_updated_at = Some (j_updated_at row)\<rparr>)"

definition update_job :: "uuid \<Rightarrow> (job_row \<Rightarrow> job_row) \<Rightarrow> database \<Rightarrow> database" where
  "update_job job f db = db\<lparr>jobs := sql_update (\<lambda>r. j_id r = job) f (jobs db)\<rparr>"

text \<open>The error column is written too: a call without an error clears it.\<close>

definition set_state ::
  "uuid \<Rightarrow> job_state \<Rightarrow> string option \<Rightarrow> time \<Rightarrow> database \<Rightarrow> exn + database" where
  "set_state job st err now db =
     (if \<not> opt_text_ok err then Inl (DataError ''invalid byte sequence: 0x00'')
      else Inr (update_job job (\<lambda>r. r\<lparr>j_state := st, j_error := err, j_updated_at := now\<rparr>) db))"

definition set_total :: "uuid \<Rightarrow> nat \<Rightarrow> time \<Rightarrow> database \<Rightarrow> exn + database" where
  "set_total job n now db =
     (if int4_limit \<le> n then Inl (DataError ''value out of int32 range'')
      else Inr (update_job job (\<lambda>r. r\<lparr>j_total_items := n, j_updated_at := now\<rparr>) db))"

definition active_state :: "job_state \<Rightarrow> bool" where
  "active_state st \<longleftrightarrow> st \<in> set [J_INGESTING, J_RUNNING]"

definition list_active :: "database \<Rightarrow> (uuid \<times> string) list" where
  "list_active db =
     map (\<lambda>r. (j_id r, j_input_path r)) (filter (\<lambda>r. active_state (j_state r)) (jobs db))"

text \<open>\<open>counts.get(status, 0)\<close>.\<close>

definition count_or_0 :: "(item_status \<Rightarrow> nat option) \<Rightarrow> item_status \<Rightarrow> nat" where
  "count_or_0 counts s = (case counts s of None \<Rightarrow> 0 | Some n \<Rightarrow> n)"

definition get_status :: "uuid \<Rightarrow> database \<Rightarrow> exn + job_status" where
  "get_status job db =
     (case find_job db job of
        None \<Rightarrow> Inl (KeyError job)
      | Some row \<Rightarrow>
          (let counts = count_by_status job db
           in Inr \<lparr>js_job_id = j_id row, js_state = j_state row, js_total = j_total_items row,
                   js_pending = count_or_0 counts I_PENDING,
                   js_in_progress = count_or_0 counts I_CLAIMED,
                   js_succeeded = count_or_0 counts I_SUCCEEDED,
                   js_failed = count_or_0 counts I_FAILED,
                   js_created_at = j_created_at row, js_updated_at = j_updated_at row\<rparr>))"

section \<open>Frames\<close>

lemma update_job_frame [simp]:
  "items (update_job job f db) = items db" "item_seq (update_job job f db) = item_seq db"
  by (simp_all add: update_job_def)

lemma update_job_ids: "(\<And>r. j_id (f r) = j_id r) \<Longrightarrow> map j_id (jobs (update_job job f db)) = map j_id (jobs db)"
  by (simp add: update_job_def map_sql_update)

lemma update_job_wf:
  assumes "db_wf db" and "\<And>r. j_id (f r) = j_id r"
  shows "db_wf (update_job job f db)" and "job_ids (update_job job f db) = job_ids db"
proof -
  note ids = update_job_ids [of f job db, OF assms(2)]
  show same: "job_ids (update_job job f db) = job_ids db"
    using ids unfolding job_ids_def by (metis set_map)
  show "db_wf (update_job job f db)"
    using assms(1) by (simp add: db_wf_def same ids)
qed

lemma find_job_update:
  "(\<And>r. j_id (f r) = j_id r) \<Longrightarrow> find_job (update_job job f db) job' =
     (if job' = job then map_option f (find_job db job') else find_job db job')"
proof -
  assume f: "\<And>r. j_id (f r) = j_id r"
  have "find (\<lambda>r. j_id r = job') (sql_update (\<lambda>r. j_id r = job) f rows) =
      (if job' = job then map_option f (find (\<lambda>r. j_id r = job') rows)
       else find (\<lambda>r. j_id r = job') rows)" for rows
    by (induction rows) (auto simp: f)
  then show ?thesis by (simp add: find_job_def update_job_def)
qed

lemma set_state_Inr:
  "set_state job st err now db = Inr db' \<longleftrightarrow> opt_text_ok err \<and>
     db' = update_job job (\<lambda>r. r\<lparr>j_state := st, j_error := err, j_updated_at := now\<rparr>) db"
  by (auto simp: set_state_def)

lemma set_total_Inr:
  "set_total job n now db = Inr db' \<longleftrightarrow> n < int4_limit \<and>
     db' = update_job job (\<lambda>r. r\<lparr>j_total_items := n, j_updated_at := now\<rparr>) db"
  by (auto simp: set_total_def)

lemma set_state_wf:
  "db_wf db \<Longrightarrow> set_state job st err now db = Inr db' \<Longrightarrow>
     db_wf db' \<and> job_ids db' = job_ids db \<and> items db' = items db \<and> item_seq db' = item_seq db"
  by (auto simp: set_state_Inr update_job_wf)

lemma set_total_wf:
  "db_wf db \<Longrightarrow> set_total job n now db = Inr db' \<Longrightarrow>
     db_wf db' \<and> job_ids db' = job_ids db \<and> items db' = items db \<and> item_seq db' = item_seq db"
  by (auto simp: set_total_Inr update_job_wf)

lemma create_job_wf:
  "db_wf db \<Longrightarrow> create_job job now db = Inr db' \<Longrightarrow>
     db_wf db' \<and> job_ids db' = insert (jr_id job) (job_ids db) \<and> items db' = items db"
  by (auto simp: create_job_def db_wf_def job_ids_def split: if_splits)

lemma find_job_None_iff: "find_job db job = None \<longleftrightarrow> job \<notin> job_ids db"
  by (auto simp: find_job_def find_None_iff job_ids_def)

lemma find_append: "find P (xs @ ys) = (case find P xs of None \<Rightarrow> find P ys | Some x \<Rightarrow> Some x)"
  by (induction xs) auto

lemma find_job_create:
  "create_job job now db = Inr db' \<Longrightarrow> job' \<noteq> jr_id job \<Longrightarrow> find_job db' job' = find_job db job'"
  by (auto simp: create_job_def find_job_def find_append split: if_splits option.split)

lemma count_or_0_by_status: "count_or_0 (count_by_status job db) s = count_in job s db"
  by (simp add: count_or_0_def count_by_status_def Let_def)

lemma row_count_split:
  "row_count (\<lambda>r. i_job_id r = job) rows =
     row_count (\<lambda>r. i_job_id r = job \<and> i_status r = I_PENDING) rows +
     row_count (\<lambda>r. i_job_id r = job \<and> i_status r = I_CLAIMED) rows +
     row_count (\<lambda>r. i_job_id r = job \<and> i_status r = I_SUCCEEDED) rows +
     row_count (\<lambda>r. i_job_id r = job \<and> i_status r = I_FAILED) rows"
proof (induction rows)
  case (Cons r rows)
  then show ?case by (cases "i_status r") (auto simp: row_count_def)
qed (simp add: row_count_def)

section \<open>Properties\<close>

text \<open>
  The status of a job is defined exactly for the jobs that exist, reports its state and
  total, and its four counters partition the job's rows: they add up to their number.
\<close>

lemma status_counts_partition:
  "(get_status job db = Inl (KeyError job) \<longleftrightarrow> job \<notin> job_ids db) \<and>
   (\<forall>st. get_status job db = Inr st \<longrightarrow>
      js_pending st + js_in_progress st + js_succeeded st + js_failed st =
        row_count (\<lambda>r. i_job_id r = job) (items db) \<and>
      (\<exists>row \<in> set (jobs db). j_id row = job \<and> js_state st = j_state row \<and>
         js_total st = j_total_items row))"
proof (cases "find_job db job")
  case None
  then show ?thesis by (simp add: get_status_def find_job_None_iff [symmetric])
next
  case (Some row)
  then have row: "row \<in> set (jobs db)" "j_id row = job"
    by (auto simp: find_job_def find_Some_iff)
  then have "job \<in> job_ids db" by (auto simp: job_ids_def)
  with Some row show ?thesis
    using row_count_split [of job "items db"]
    by (auto simp: get_status_def Let_def count_or_0_by_status count_in_def)
qed

lemma status_counts_partition_example:
  "\<exists>st. get_status ''j'' demo_db = Inr st \<and>
     js_pending st + js_in_progress st + js_succeeded st + js_failed st = 2"
proof -
  have two: "row_count (\<lambda>r. i_job_id r = ''j'') (items demo_db) = 2"
    by (simp add: demo_db_def demo_row_def row_count_def)
  obtain st where st: "get_status ''j'' demo_db = Inr st"
    by (simp add: get_status_def find_job_def demo_db_def Let_def)
  with status_counts_partition [of "''j''" demo_db] two show ?thesis by auto
qed

text \<open>
  A state change reads back: the job has the new state and error (an absent error clears
  an earlier one) and keeps its other columns; every other job and all work items are untouched.
\<close>

lemma set_state_reads_back:
  assumes "set_state job st err now db = Inr db'"
  shows "get_job job db' = map_option
       (\<lambda>j. j\<lparr>jr_state := st, jr_error := err, jr_updated_at := Some now\<rparr>) (get_job job db) \<and>
     (\<forall>job'. job' \<noteq> job \<longrightarrow> get_job job' db' = get_job job' db) \<and> items db' = items db"
  using assms
  by (auto simp: set_state_Inr get_job_def find_job_update split: option.split)

lemma set_state_reads_back_example:
  "\<exists>db'. set_state ''j'' J_FAILED (Some ''boom'') 9 demo_db = Inr db' \<and>
     map_option jr_error (get_job ''j'' db') = Some (Some ''boom'')"
proof -
  obtain db' where db': "set_state ''j'' J_FAILED (Some ''boom'') 9 demo_db = Inr db'"
    by (simp add: set_state_def opt_text_ok_def text_ok_def)
  from set_state_reads_back [OF db'] db' show ?thesis
    by (auto simp: get_job_def find_job_def demo_db_def)
qed

lemma create_job_effect:
  assumes "create_job job now db = Inr db'"
  shows "get_job (jr_id job) db' =
      Some (job\<lparr>jr_created_at := Some now, jr_updated_at := Some now\<rparr>) \<and>
    create_job job now' db' = Inl (IntegrityError ''jobs_pkey'') \<and>
    (\<forall>job'. job' \<noteq> jr_id job \<longrightarrow> get_job job' db' = get_job job' db)"
proof -
  from assms have new: "jr_id job \<notin> job_ids db" and ok: "job_values_ok job"
    by (auto simp: create_job_def split: if_splits)
  from new have "find (\<lambda>r. j_id r = jr_id job) (jobs db) = None"
    using find_job_None_iff [of db "jr_id job"] by (simp add: find_job_def)
  then have "get_job (jr_id job) db' =
      Some (job\<lparr>jr_created_at := Some now, jr_updated_at := Some now\<rparr>)"
    using assms new ok by (auto simp: create_job_def get_job_def find_job_def find_append)
  moreover have "create_job job now' db' = Inl (IntegrityError ''jobs_pkey'')"
    using assms new ok by (auto simp: create_job_def job_ids_def)
  moreover have "get_job job' db' = get_job job' db" if "job' \<noteq> jr_id job" for job'
    using find_job_create [OF assms that] by (simp add: get_job_def)
  ultimately show ?thesis by blast
qed

lemma create_job_reads_back:
  "create_job job now db = Inr db' \<Longrightarrow>
   get_job (jr_id job) db' = Some (job\<lparr>jr_created_at := Some now, jr_updated_at := Some now\<rparr>)"
  using create_job_effect by blast

end
