(* ===== verification/Engine.thy ===== *)
theory Engine
  imports WorkerProps JobRepo
begin

text \<open>
  The worker pool (\<open>app/engine/batch_engine.py\<close> and \<open>Worker.run\<close> under
  interleaving). A \<open>pool\<close> is the shared tables, the shared files, the clock and the workers,
  each at one of the points between two awaits of its loop where the others can run:

    \<^item> \<open>Idle\<close>: about to claim; \<open>Busy\<close>: \<open>_process_chunk\<close>, its heartbeat running;
    \<^item> \<open>Flushing\<close>: about to write the chunk object; \<open>Committing\<close>: about to call
      \<open>complete_items\<close>;
    \<^item> \<open>Stopped\<close>: the loop ended; \<open>Raised\<close>: an exception left \<open>run\<close>;
      \<open>Crashed\<close>: the process died.

  An \<open>action\<close> is one worker's next database or file operation, a heartbeat, the clock
  advancing, or a crash. Claims are atomic here; \<open>concurrent_claims_serialize\<close> shows that
  \<open>SKIP LOCKED\<close> makes overlapping claims behave so. The workers of a pool may belong to
  several processes and jobs.
\<close>

section \<open>The pool\<close>

datatype phase =
    Idle
  | Busy "claimed_item list"
  | Flushing "result_record list"
  | Committing "result_record list" string
  | Stopped
  | Raised exn
  | Crashed

record pool_worker =
  pw_id :: string
  pw_job :: uuid
  pw_phase :: phase

record pool =
  po_db :: database
  po_store :: chunk_store
  po_now :: time
  po_workers :: "pool_worker list"

datatype action =
    Claim nat
  | Process nat "claimed_item \<Rightarrow> row_env"
  | Flush nat string
  | Commit nat
  | Beat nat
  | Tick nat
  | Crash nat

definition set_phase :: "nat \<Rightarrow> phase \<Rightarrow> pool \<Rightarrow> pool" where
  "set_phase i ph p = p\<lparr>po_workers := (po_workers p)[i := (po_workers p ! i)\<lparr>pw_phase := ph\<rparr>]\<rparr>"

definition phase_of :: "pool \<Rightarrow> nat \<Rightarrow> phase option" where
  "phase_of p i = (if i < length (po_workers p) then Some (pw_phase (po_workers p ! i)) else None)"

fun is_live :: "phase \<Rightarrow> bool" where
  "is_live Stopped \<longleftrightarrow> False"
| "is_live (Raised e) \<longleftrightarrow> False"
| "is_live Crashed \<longleftrightarrow> False"
| "is_live _ \<longleftrightarrow> True"

definition claim_step :: "settings \<Rightarrow> nat \<Rightarrow> pool \<Rightarrow> pool" where
  "claim_step s i p =
     (let w = po_workers p ! i
      in case claim_chunk (pw_job w) (pw_id w) (chunk_size s) (lease_ttl_seconds s) (po_now p) {} (po_db p) of
           (db', chunk) \<Rightarrow> set_phase i (if chunk = [] then Stopped else Busy chunk) (p\<lparr>po_db := db'\<rparr>))"

definition process_step :: "settings \<Rightarrow> retry_policy \<Rightarrow> nat \<Rightarrow> claimed_item list \<Rightarrow>
    (claimed_item \<Rightarrow> row_env) \<Rightarrow> pool \<Rightarrow> pool" where
  "process_step s rp i chunk env p =
     set_phase i (case fst (process_chunk s rp env chunk no_metrics) of
                    Inl e \<Rightarrow> Raised e | Inr rs \<Rightarrow> Flushing rs) p"

definition flush_step :: "dumper \<Rightarrow> backend \<Rightarrow> nat \<Rightarrow> result_record list \<Rightarrow> string \<Rightarrow> pool \<Rightarrow> pool" where
  "flush_step dump be i rs cid p =
     (case backend_write dump be (pw_job (po_workers p ! i)) cid rs (po_store p) of
        Inl e \<Rightarrow> set_phase i (Raised e) p
      | Inr (st', ref) \<Rightarrow> set_phase i (Committing rs ref) (p\<lparr>po_store := st'\<rparr>))"

definition commit_step :: "nat \<Rightarrow> result_record list \<Rightarrow> string \<Rightarrow> pool \<Rightarrow> pool" where
  "commit_step i rs ref p =
     set_phase i Idle
       (p\<lparr>po_db := fst (complete_items (pw_id (po_workers p ! i)) rs ref (po_now p) (po_db p))\<rparr>)"

definition beat_step :: "settings \<Rightarrow> nat \<Rightarrow> pool \<Rightarrow> pool" where
  "beat_step s i p =
     p\<lparr>po_db := renew_lease (pw_id (po_workers p ! i)) (lease_ttl_seconds s) (po_now p) (po_db p)\<rparr>"

text \<open>
  \<open>None\<close> where the action is not the worker's next one. \<open>uuid4\<close> never returns an id
  already used, so a flush under a used one is no action.
\<close>

fun pool_step ::
  "settings \<Rightarrow> retry_policy \<Rightarrow> dumper \<Rightarrow> backend \<Rightarrow> action \<Rightarrow> pool \<Rightarrow> pool option" where
  "pool_step s rp dump be (Claim i) p =
     (if phase_of p i = Some Idle then Some (claim_step s i p) else None)"
| "pool_step s rp dump be (Process i env) p =
     (case phase_of p i of Some (Busy chunk) \<Rightarrow> Some (process_step s rp i chunk env p) | _ \<Rightarrow> None)"
| "pool_step s rp dump be (Flush i cid) p =
     (case phase_of p i of
        Some (Flushing rs) \<Rightarrow>
          if has_chunk (po_store p) (pw_job (po_workers p ! i)) cid then None
          else Some (flush_step dump be i rs cid p)
      | _ \<Rightarrow> None)"
| "pool_step s rp dump be (Commit i) p =
     (case phase_of p i of Some (Committing rs ref) \<Rightarrow> Some (commit_step i rs ref p) | _ \<Rightarrow> None)"
| "pool_step s rp dump be (Beat i) p =
     (case phase_of p i of Some (Busy chunk) \<Rightarrow> Some (beat_step s i p) | _ \<Rightarrow> None)"
| "pool_step s rp dump be (Tick d) p = Some (p\<lparr>po_now := po_now p + int d\<rparr>)"
| "pool_step s rp dump be (Crash i) p =
     (case phase_of p i of
        Some ph \<Rightarrow> if is_live ph then Some (set_phase i Crashed p) else None | None \<Rightarrow> None)"

inductive pool_reach :: "settings \<Rightarrow> retry_policy \<Rightarrow> dumper \<Rightarrow> backend \<Rightarrow> pool \<Rightarrow> pool \<Rightarrow> bool"
  for s rp dump be p0 where
  reach_start: "pool_reach s rp dump be p0 p0"
| reach_step: "pool_reach s rp dump be p0 p \<Longrightarrow> pool_step s rp dump be a p = Some p' \<Longrightarrow>
    pool_reach s rp dump be p0 p'"

inductive_cases pool_reachE: "pool_reach s rp dump be p0 p"

lemma pool_reach_trans:
  "pool_reach s rp dump be p1 p2 \<Longrightarrow> pool_reach s rp dump be p0 p1 \<Longrightarrow> pool_reach s rp dump be p0 p2"
  by (induction rule: pool_reach.induct) (auto intro: reach_step)

section \<open>The engine\<close>

definition worker_name :: "string \<Rightarrow> nat \<Rightarrow> string \<Rightarrow> nat \<Rightarrow> string" where
  "worker_name host pid hex i =
     host @ ''-'' @ nat_str pid @ ''-'' @ take 8 hex @ ''-w'' @ nat_str i"

definition spawn :: "settings \<Rightarrow> string \<Rightarrow> nat \<Rightarrow> (nat \<Rightarrow> string) \<Rightarrow> uuid \<Rightarrow> pool_worker list" where
  "spawn s host pid hex job =
     map (\<lambda>i. \<lparr>pw_id = worker_name host pid (hex i) i, pw_job = job, pw_phase = Idle\<rparr>)
       [0..<nat (worker_pool_size s)]"

text \<open>\<open>asyncio.gather\<close>: the first exception ends it at once, the others run on.\<close>

definition raised :: "pool_worker \<Rightarrow> exn option" where
  "raised w = (case pw_phase w of Raised e \<Rightarrow> Some e | _ \<Rightarrow> None)"

definition pool_outcome :: "pool_worker list \<Rightarrow> (exn + unit) option" where
  "pool_outcome ws =
     (case List.map_filter raised ws of
        e # _ \<Rightarrow> Some (Inl e)
      | [] \<Rightarrow> if list_all (\<lambda>w. pw_phase w = Stopped) ws then Some (Inr ()) else None)"

text \<open>The pool under a schedule, up to the point where \<open>gather\<close> returns.\<close>

fun run_pool ::
  "settings \<Rightarrow> retry_policy \<Rightarrow> dumper \<Rightarrow> backend \<Rightarrow> action list \<Rightarrow> pool \<Rightarrow> (exn + unit) option \<times> pool" where
  "run_pool s rp dump be [] p = (pool_outcome (po_workers p), p)"
| "run_pool s rp dump be (a # as) p =
     (case pool_outcome (po_workers p) of
        Some r \<Rightarrow> (Some r, p)
      | None \<Rightarrow> run_pool s rp dump be as
          (case pool_step s rp dump be a p of None \<Rightarrow> p | Some p' \<Rightarrow> p'))"

text \<open>
  \<open>BatchEngine.run\<close>: \<open>None\<close> while the pool is still running at the end of the
  schedule; a worker's exception leaves the job's state alone.
\<close>

definition engine_run ::
  "settings \<Rightarrow> retry_policy \<Rightarrow> dumper \<Rightarrow> backend \<Rightarrow> string \<Rightarrow> nat \<Rightarrow> (nat \<Rightarrow> string) \<Rightarrow> action list \<Rightarrow>
   uuid \<Rightarrow> database \<Rightarrow> chunk_store \<Rightarrow> time \<Rightarrow> (exn + unit) option \<times> pool" where
  "engine_run s rp dump be host pid hex sched job db store now =
     (case run_pool s rp dump be sched
             \<lparr>po_db = db, po_store = store, po_now = now, po_workers = spawn s host pid hex job\<rparr> of
        (Some (Inr _), p) \<Rightarrow>
          (case set_state job J_COMPLETED None (po_now p) (po_db p) of
             Inl e \<Rightarrow> (Some (Inl e), p)
           | Inr db' \<Rightarrow> (Some (Inr ()), p\<lparr>po_db := db'\<rparr>))
      | (r, p) \<Rightarrow> (r, p))"

section \<open>Phases\<close>

lemma set_phase_sel [simp]:
  "po_db (set_phase i ph p) = po_db p" "po_store (set_phase i ph p) = po_store p"
  "po_now (set_phase i ph p) = po_now p"
  "length (po_workers (set_phase i ph p)) = length (po_workers p)"
  by (simp_all add: set_phase_def)

lemma set_phase_nth [simp]:
  "j < length (po_workers p) \<Longrightarrow> po_workers (set_phase i ph p) ! j =
     (if j = i then (po_workers p ! i)\<lparr>pw_phase := ph\<rparr> else po_workers p ! j)"
  by (simp add: set_phase_def nth_list_update)

lemma phase_of_Some:
  "phase_of p i = Some ph \<longleftrightarrow> i < length (po_workers p) \<and> pw_phase (po_workers p ! i) = ph"
  by (simp add: phase_of_def)

text \<open>The identity and the job of the workers never change.\<close>

definition crew :: "pool \<Rightarrow> (string \<times> uuid) list" where
  "crew p = map (\<lambda>w. (pw_id w, pw_job w)) (po_workers p)"

lemma crew_set_phase [simp]: "crew (set_phase i ph p) = crew p"
  by (auto simp: crew_def intro: nth_equalityI)

lemma crew_update [simp]:
  "crew (p\<lparr>po_db := db\<rparr>) = crew p" "crew (p\<lparr>po_store := st\<rparr>) = crew p" "crew (p\<lparr>po_now := t\<rparr>) = crew p"
  by (simp_all add: crew_def)

lemma crew_steps [simp]:
  "crew (claim_step s i p) = crew p" "crew (process_step s rp i chunk env p) = crew p"
  "crew (flush_step dump be i rs cid p) = crew p" "crew (commit_step i rs ref p) = crew p"
  "crew (beat_step s i p) = crew p"
  by (simp_all add: claim_step_def process_step_def flush_step_def commit_step_def beat_step_def Let_def
      split: prod.split sum.split)

lemma pool_step_crew: "pool_step s rp dump be a p = Some p' \<Longrightarrow> crew p' = crew p"
  by (cases a) (auto split: option.splits phase.splits if_splits)

lemma pool_reach_crew: "pool_reach s rp dump be p0 p \<Longrightarrow> crew p = crew p0"
  by (induction rule: pool_reach.induct) (simp_all add: pool_step_crew)

lemma crew_ids: "map pw_id (po_workers p) = map fst (crew p)"
  by (simp add: crew_def o_def)

lemma crew_length: "length (po_workers p) = length (crew p)"
  by (simp add: crew_def)

lemma crew_job: "i < length (po_workers p) \<Longrightarrow> pw_job (po_workers p ! i) = snd (crew p ! i)"
  "i < length (po_workers p) \<Longrightarrow> pw_id (po_workers p ! i) = fst (crew p ! i)"
  by (simp_all add: crew_def)

end
