(* ===== verification/EngineInv.thy ===== *)
theory EngineInv
  imports Engine
begin

text \<open>
  The invariant of the worker pool, over every interleaving, crash and lease expiry. It is
  stated on the queue's abstract view, so each step is one of the laws of \<open>work_queue\<close>.
\<close>

section \<open>The invariant\<close>

text \<open>The external ids a worker has in hand; \<open>None\<close> for one that died with its work.\<close>

fun in_hand :: "phase \<Rightarrow> string list option" where
  "in_hand Idle = Some []"
| "in_hand (Busy chunk) = Some (map ci_external_id chunk)"
| "in_hand (Flushing rs) = Some (map rr_external_id rs)"
| "in_hand (Committing rs ref) = Some (map rr_external_id rs)"
| "in_hand Stopped = Some []"
| "in_hand (Raised e) = None"
| "in_hand Crashed = None"

text \<open>A result as the download will find it: its chunk is stored and holds a record for it.\<close>

definition stored_result :: "dumper \<Rightarrow> chunk_store \<Rightarrow> uuid \<Rightarrow> string \<Rightarrow> item_status \<Rightarrow> string \<Rightarrow> bool" where
  "stored_result dump st job e status ref \<longleftrightarrow>
     (\<exists>cid rs r. ref = chunk_ref job cid \<and> ((job, chunk_file cid), chunk_payload dump rs) \<in> set st \<and>
        r \<in> set rs \<and> rr_external_id r = e \<and> rr_status r = status)"

fun phase_ok :: "settings \<Rightarrow> dumper \<Rightarrow> chunk_store \<Rightarrow> uuid \<Rightarrow> phase \<Rightarrow> bool" where
  "phase_ok s dump st job (Busy chunk) \<longleftrightarrow> chunk \<noteq> [] \<and> length chunk \<le> chunk_size s"
| "phase_ok s dump st job (Flushing rs) \<longleftrightarrow> rs \<noteq> [] \<and> length rs \<le> chunk_size s \<and> results_terminal rs"
| "phase_ok s dump st job (Committing rs ref) \<longleftrightarrow>
     rs \<noteq> [] \<and> length rs \<le> chunk_size s \<and> results_terminal rs \<and>
     (\<exists>cid. ref = chunk_ref job cid \<and> ((job, chunk_file cid), chunk_payload dump rs) \<in> set st)"
| "phase_ok s dump st job _ \<longleftrightarrow> True"

definition phases_ok :: "settings \<Rightarrow> dumper \<Rightarrow> pool \<Rightarrow> bool" where
  "phases_ok s dump p \<longleftrightarrow>
     (\<forall>i < length (po_workers p).
        phase_ok s dump (po_store p) (pw_job (po_workers p ! i)) (pw_phase (po_workers p ! i)))"

definition held_ok :: "pool \<Rightarrow> bool" where
  "held_ok p \<longleftrightarrow>
     (\<forall>job e v i. queue_view (po_db p) job e = Some (Held v) \<longrightarrow> i < length (po_workers p) \<longrightarrow>
        pw_id (po_workers p ! i) = v \<longrightarrow>
        job = pw_job (po_workers p ! i) \<and>
        (\<forall>ids. in_hand (pw_phase (po_workers p ! i)) = Some ids \<longrightarrow> e \<in> set ids))"

definition durable :: "dumper \<Rightarrow> pool \<Rightarrow> bool" where
  "durable dump p \<longleftrightarrow>
     (\<forall>job e st ref. queue_view (po_db p) job e = Some (Finished st (Some ref)) \<longrightarrow>
        stored_result dump (po_store p) job e st ref)"

definition crew_distinct :: "pool \<Rightarrow> bool" where
  "crew_distinct p \<longleftrightarrow> distinct (map pw_id (po_workers p))"

definition pool_inv :: "settings \<Rightarrow> dumper \<Rightarrow> pool \<Rightarrow> bool" where
  "pool_inv s dump p \<longleftrightarrow> db_wf (po_db p) \<and> crew_distinct p \<and> phases_ok s dump p \<and> held_ok p \<and>
     durable dump p"

lemma crew_nth:
  "crew_distinct p \<Longrightarrow> i < length (po_workers p) \<Longrightarrow> j < length (po_workers p) \<Longrightarrow>
   pw_id (po_workers p ! i) = pw_id (po_workers p ! j) \<longleftrightarrow> i = j"
  by (simp add: crew_distinct_def) (metis length_map nth_eq_iff_index_eq nth_map)

lemma crew_distinct_set_phase [simp]: "crew_distinct (set_phase i ph p) = crew_distinct p"
  by (simp add: crew_distinct_def crew_ids)

lemma crew_distinct_update [simp]:
  "crew_distinct (p\<lparr>po_db := db\<rparr>) = crew_distinct p" "crew_distinct (p\<lparr>po_store := st\<rparr>) = crew_distinct p"
  "crew_distinct (p\<lparr>po_now := t\<rparr>) = crew_distinct p"
  by (simp_all add: crew_distinct_def)

section \<open>Preservation\<close>

lemma phase_ok_store:
  "phase_ok s dump st job ph \<Longrightarrow> set st \<subseteq> set st' \<Longrightarrow> phase_ok s dump st' job ph"
  by (cases ph) auto

lemma stored_result_mono:
  "stored_result dump st job e status ref \<Longrightarrow> set st \<subseteq> set st' \<Longrightarrow> stored_result dump st' job e status ref"
  unfolding stored_result_def by blast

lemma put_file_keeps: "k \<notin> fst ` set st \<Longrightarrow> set st \<subseteq> set (put_file k v st)"
  by (auto simp: put_file_fresh)

text \<open>The steps only change one worker's phase beside the tables and the files.\<close>

lemma phases_ok_set_phase:
  assumes "phases_ok s dump p" and "set (po_store p) \<subseteq> set (po_store p')"
    and "po_workers p' = po_workers p"
    and "i < length (po_workers p) \<Longrightarrow> phase_ok s dump (po_store p') (pw_job (po_workers p ! i)) ph"
  shows "phases_ok s dump (set_phase i ph p')"
  using assms phase_ok_store by (auto simp: phases_ok_def)

lemma phases_ok_keep:
  assumes "phases_ok s dump p" and "po_store p' = po_store p" and "po_workers p' = po_workers p"
  shows "phases_ok s dump p'"
  using assms by (simp add: phases_ok_def)

text \<open>A phase change that keeps the views, and keeps or gives up what is in hand.\<close>

lemma held_ok_set_phase:
  assumes "held_ok p" and "i < length (po_workers p)" and "po_workers p' = po_workers p"
    and "\<And>job e. queue_view (po_db p') job e = queue_view (po_db p) job e"
    and "in_hand ph = None \<or> in_hand ph = in_hand (pw_phase (po_workers p ! i))"
  shows "held_ok (set_phase i ph p')"
  using assms unfolding held_ok_def by auto

lemma durable_keep:
  assumes "durable dump p" and "set (po_store p) \<subseteq> set (po_store p')"
    and "\<And>job e. queue_view (po_db p') job e = queue_view (po_db p) job e"
  shows "durable dump p'"
  using assms stored_result_mono unfolding durable_def by metis

lemma durable_set_phase [simp]: "durable dump (set_phase i ph p) = durable dump p"
  by (simp add: durable_def)

text \<open>A claim gives the worker the claimed rows to hold, and no other row a new holder.\<close>

lemma held_ok_claim:
  assumes held: "held_ok p" and crew: "crew_distinct p" and i: "i < length (po_workers p)"
    and idle: "pw_phase (po_workers p ! i) = Idle" and hand: "in_hand ph = Some claimed"
    and view: "\<And>job e. queue_view db' job e =
      (if job = pw_job (po_workers p ! i) \<and> e \<in> set claimed then Some (Held (pw_id (po_workers p ! i)))
       else queue_view (po_db p) job e)"
  shows "held_ok (set_phase i ph (p\<lparr>po_db := db'\<rparr>))"
proof -
  have "job = pw_job (po_workers p ! j) \<and>
      (\<forall>ids. in_hand (if j = i then ph else pw_phase (po_workers p ! j)) = Some ids \<longrightarrow> e \<in> set ids)"
    if v: "queue_view db' job e = Some (Held v)" and j: "j < length (po_workers p)"
      and id: "pw_id (po_workers p ! j) = v" for job e v j
  proof (cases "job = pw_job (po_workers p ! i) \<and> e \<in> set claimed")
    case True
    with v view have "v = pw_id (po_workers p ! i)" by simp
    with id have "j = i" using crew_nth [OF crew j i] by simp
    with True hand show ?thesis by simp
  next
    case False
    with v view have old: "queue_view (po_db p) job e = Some (Held v)" by auto
    with held j id have "job = pw_job (po_workers p ! j) \<and>
        (\<forall>ids. in_hand (pw_phase (po_workers p ! j)) = Some ids \<longrightarrow> e \<in> set ids)"
      unfolding held_ok_def by blast
    with idle show ?thesis by auto
  qed
  then show ?thesis by (auto simp: held_ok_def split: if_splits)
qed

lemma claim_step_inv:
  assumes inv: "pool_inv s dump p" and ph: "phase_of p i = Some Idle"
  shows "pool_inv s dump (claim_step s i p)"
proof -
  let ?w = "po_workers p ! i"
  obtain db' chunk where cl: "claim_chunk (pw_job ?w) (pw_id ?w) (chunk_size s) (lease_ttl_seconds s)
      (po_now p) {} (po_db p) = (db', chunk)" by fastforce
  define ph' where "ph' = (if chunk = [] then Stopped else Busy chunk)"
  have step: "claim_step s i p = set_phase i ph' (p\<lparr>po_db := db'\<rparr>)"
    by (simp add: claim_step_def Let_def cl ph'_def)
  from ph have i: "i < length (po_workers p)" and idle: "pw_phase ?w = Idle"
    by (simp_all add: phase_of_Some)
  from inv have wf: "db_wf (po_db p)" and crew: "crew_distinct p" and phs: "phases_ok s dump p"
    and held: "held_ok p" and dur: "durable dump p" by (simp_all add: pool_inv_def)
  have view: "queue_view db' job e = (if job = pw_job ?w \<and> e \<in> set (map ci_external_id chunk)
      then Some (Held (pw_id ?w)) else queue_view (po_db p) job e)" for job e
    using claim_view [OF wf, of "pw_job ?w" "pw_id ?w" "chunk_size s" "lease_ttl_seconds s" "po_now p" "{}" job e]
    by (simp add: cl)
  have "db_wf db'" using claim_chunk_wf [OF wf] cl by (metis fst_conv)
  moreover have "length chunk \<le> chunk_size s" using claim_chunk_length cl by (metis snd_conv)
  then have "phases_ok s dump (set_phase i ph' (p\<lparr>po_db := db'\<rparr>))"
    by (intro phases_ok_set_phase [OF phs]) (auto simp: ph'_def)
  moreover have "in_hand ph' = Some (map ci_external_id chunk)" by (simp add: ph'_def)
  from held_ok_claim [OF held crew i idle this view]
  have "held_ok (set_phase i ph' (p\<lparr>po_db := db'\<rparr>))" .
  moreover have "durable dump (p\<lparr>po_db := db'\<rparr>)"
    using dur unfolding durable_def by (simp add: view)
  ultimately show ?thesis using crew by (simp add: step pool_inv_def)
qed

lemma process_step_inv:
  assumes inv: "pool_inv s dump p" and ph: "phase_of p i = Some (Busy chunk)"
  shows "pool_inv s dump (process_step s rp i chunk env p)"
proof -
  let ?r = "fst (process_chunk s rp env chunk no_metrics)"
  define ph' where "ph' = (case ?r of Inl e \<Rightarrow> Raised e | Inr rs \<Rightarrow> Flushing rs)"
  from ph have i: "i < length (po_workers p)" and busy: "pw_phase (po_workers p ! i) = Busy chunk"
    by (simp_all add: phase_of_Some)
  from inv have phs: "phases_ok s dump p" and held: "held_ok p" by (simp_all add: pool_inv_def)
  have chunk: "chunk \<noteq> []" "length chunk \<le> chunk_size s"
    using phs i busy by (auto simp: phases_ok_def dest!: spec [of _ i])
  have ok: "phase_ok s dump (po_store p) job ph'" for job
  proof (cases ?r)
    case (Inr rs)
    from process_chunk_Inr [OF Inr] chunk show ?thesis
      by (auto simp: ph'_def Inr dest: arg_cong [where f = length])
  qed (simp add: ph'_def)
  have ids: "in_hand ph' = None \<or> in_hand ph' = in_hand (pw_phase (po_workers p ! i))"
  proof (cases ?r)
    case (Inr rs)
    from process_chunk_Inr [OF Inr] show ?thesis by (simp add: ph'_def Inr busy)
  qed (simp add: ph'_def)
  have "phases_ok s dump (set_phase i ph' p)"
    by (rule phases_ok_set_phase [OF phs]) (simp_all add: ok)
  moreover have "held_ok (set_phase i ph' p)"
    by (rule held_ok_set_phase [OF held i]) (simp_all add: ids)
  ultimately show ?thesis
    using inv unfolding process_step_def ph'_def [symmetric] by (simp add: pool_inv_def)
qed

lemma flush_step_inv:
  assumes inv: "pool_inv s dump p" and ph: "phase_of p i = Some (Flushing rs)"
    and fresh: "\<not> has_chunk (po_store p) (pw_job (po_workers p ! i)) cid"
  shows "pool_inv s dump (flush_step dump be i rs cid p)"
proof -
  let ?job = "pw_job (po_workers p ! i)"
  from ph have i: "i < length (po_workers p)" and flush: "pw_phase (po_workers p ! i) = Flushing rs"
    by (simp_all add: phase_of_Some)
  from inv have phs: "phases_ok s dump p" and held: "held_ok p" and dur: "durable dump p"
    by (simp_all add: pool_inv_def)
  have rs: "rs \<noteq> []" "length rs \<le> chunk_size s" "results_terminal rs"
    using phs i flush by (auto simp: phases_ok_def dest!: spec [of _ i])
  show ?thesis
  proof (cases be)
    case (LocalBackend dir)
    define st' where "st' = put_file (?job, chunk_file cid) (chunk_payload dump rs) (po_store p)"
    let ?p = "p\<lparr>po_store := st'\<rparr>"
    have step: "flush_step dump be i rs cid p = set_phase i (Committing rs (chunk_ref ?job cid)) ?p"
      by (simp add: flush_step_def LocalBackend write_chunk_def st'_def)
    have mono: "set (po_store p) \<subseteq> set st'"
      using fresh by (simp add: st'_def has_chunk_def put_file_keeps)
    have "((?job, chunk_file cid), chunk_payload dump rs) \<in> set st'"
      using fresh by (simp add: st'_def has_chunk_def put_file_fresh)
    then have "phases_ok s dump (set_phase i (Committing rs (chunk_ref ?job cid)) ?p)"
      using rs mono by (intro phases_ok_set_phase [OF phs]) auto
    moreover have "held_ok (set_phase i (Committing rs (chunk_ref ?job cid)) ?p)"
      by (rule held_ok_set_phase [OF held i]) (simp_all add: flush)
    moreover have "durable dump ?p" using mono by (intro durable_keep [OF dur]) simp_all
    ultimately show ?thesis using inv by (simp add: step pool_inv_def)
  next
    case S3Backend
    have "phases_ok s dump (set_phase i (Raised NotImplementedError) p)"
      by (rule phases_ok_set_phase [OF phs]) simp_all
    moreover have "held_ok (set_phase i (Raised NotImplementedError) p)"
      by (rule held_ok_set_phase [OF held i]) simp_all
    ultimately show ?thesis using inv by (simp add: flush_step_def S3Backend pool_inv_def)
  qed
qed

text \<open>A commit: the rows in hand become finished with the stored chunk, all other views stay.\<close>

definition commit_db :: "nat \<Rightarrow> result_record list \<Rightarrow> string \<Rightarrow> pool \<Rightarrow> database" where
  "commit_db i rs ref p = fst (complete_items (pw_id (po_workers p ! i)) rs ref (po_now p) (po_db p))"

lemma commit_facts:
  assumes inv: "pool_inv s dump p" and ph: "phase_of p i = Some (Committing rs ref)"
  shows "results_terminal rs"
    and "\<exists>cid. ref = chunk_ref (pw_job (po_workers p ! i)) cid \<and>
      ((pw_job (po_workers p ! i), chunk_file cid), chunk_payload dump rs) \<in> set (po_store p)"
    and "queue_view (commit_db i rs ref p) job e =
      map_option (finish_view (pw_id (po_workers p ! i)) rs ref e) (queue_view (po_db p) job e)"
    and "queue_view (po_db p) job e = Some (Held (pw_id (po_workers p ! i))) \<Longrightarrow>
      job = pw_job (po_workers p ! i) \<and> e \<in> set (map rr_external_id rs)"
proof -
  from ph have i: "i < length (po_workers p)" and com: "pw_phase (po_workers p ! i) = Committing rs ref"
    by (simp_all add: phase_of_Some)
  from inv have wf: "db_wf (po_db p)" and phs: "phases_ok s dump p" and held: "held_ok p"
    by (simp_all add: pool_inv_def)
  show fin: "results_terminal rs"
    and "\<exists>cid. ref = chunk_ref (pw_job (po_workers p ! i)) cid \<and>
      ((pw_job (po_workers p ! i), chunk_file cid), chunk_payload dump rs) \<in> set (po_store p)"
    using phs i com by (auto simp: phases_ok_def dest!: spec [of _ i])
  show "queue_view (commit_db i rs ref p) job e =
      map_option (finish_view (pw_id (po_workers p ! i)) rs ref e) (queue_view (po_db p) job e)"
    unfolding commit_db_def by (rule complete_view [OF wf fin])
  show "queue_view (po_db p) job e = Some (Held (pw_id (po_workers p ! i))) \<Longrightarrow>
      job = pw_job (po_workers p ! i) \<and> e \<in> set (map rr_external_id rs)"
    using held i com unfolding held_ok_def by fastforce
qed

lemma commit_held:
  assumes inv: "pool_inv s dump p" and ph: "phase_of p i = Some (Committing rs ref)"
  shows "held_ok (set_phase i Idle (p\<lparr>po_db := commit_db i rs ref p\<rparr>))" (is "held_ok ?p")
  unfolding held_ok_def
proof (intro allI impI)
  fix job e v j
  assume v: "queue_view (po_db ?p) job e = Some (Held v)" and j: "j < length (po_workers ?p)"
    and id: "pw_id (po_workers ?p ! j) = v"
  from j have j': "j < length (po_workers p)" by simp
  note facts = commit_facts [OF inv ph]
  from v facts(3) obtain u where u: "queue_view (po_db p) job e = Some u"
    "finish_view (pw_id (po_workers p ! i)) rs ref e u = Held v" by auto
  have ne: "u = Held v \<and> v \<noteq> pw_id (po_workers p ! i)"
    using u facts(4) [of job e]
    by (auto simp: finish_view_def first_result_def find_None_iff split: if_splits option.splits)
  with id j' have "j \<noteq> i" by auto
  with ne u(1) id j' inv show "job = pw_job (po_workers ?p ! j) \<and>
    (\<forall>ids. in_hand (pw_phase (po_workers ?p ! j)) = Some ids \<longrightarrow> e \<in> set ids)"
    unfolding pool_inv_def held_ok_def by auto
qed

lemma commit_durable:
  assumes inv: "pool_inv s dump p" and ph: "phase_of p i = Some (Committing rs ref)"
  shows "durable dump (p\<lparr>po_db := commit_db i rs ref p\<rparr>)"
  unfolding durable_def
proof (intro allI impI)
  fix job e st r
  note facts = commit_facts [OF inv ph]
  assume "queue_view (po_db (p\<lparr>po_db := commit_db i rs ref p\<rparr>)) job e = Some (Finished st (Some r))"
  with facts(3) obtain u where u: "queue_view (po_db p) job e = Some u"
    and f: "finish_view (pw_id (po_workers p ! i)) rs ref e u = Finished st (Some r)" by auto
  show "stored_result dump (po_store (p\<lparr>po_db := commit_db i rs ref p\<rparr>)) job e st r"
  proof (cases "u = Held (pw_id (po_workers p ! i))")
    case True
    with f obtain res where res: "first_result rs e = Some res" "rr_status res = st" "r = ref"
      by (auto simp: finish_view_def split: option.splits)
    then have "res \<in> set rs \<and> rr_external_id res = e"
      unfolding first_result_def by (blast dest: find_cong_key)
    with res facts(2) facts(4) [of job e] u True show ?thesis unfolding stored_result_def by auto
  next
    case False
    with f u inv show ?thesis by (simp add: finish_view_def pool_inv_def durable_def)
  qed
qed

lemma commit_step_inv:
  assumes inv: "pool_inv s dump p" and ph: "phase_of p i = Some (Committing rs ref)"
  shows "pool_inv s dump (commit_step i rs ref p)"
proof -
  have "db_wf (commit_db i rs ref p)"
    using inv complete_items_wf [OF _ commit_facts(1) [OF inv ph]] by (simp add: commit_db_def pool_inv_def)
  moreover have "phases_ok s dump (set_phase i Idle (p\<lparr>po_db := commit_db i rs ref p\<rparr>))"
    by (rule phases_ok_set_phase [of s dump p]) (use inv in \<open>simp_all add: pool_inv_def\<close>)
  ultimately show ?thesis
    using inv commit_held [OF inv ph] commit_durable [OF inv ph]
    by (simp add: commit_step_def commit_db_def [symmetric] pool_inv_def)
qed

lemma beat_step_inv:
  assumes inv: "pool_inv s dump p" shows "pool_inv s dump (beat_step s i p)"
proof -
  have "phases_ok s dump (beat_step s i p)"
    by (rule phases_ok_keep [of s dump p]) (use inv in \<open>simp_all add: pool_inv_def beat_step_def\<close>)
  then show ?thesis
    using inv by (simp add: pool_inv_def beat_step_def renew_lease_wf held_ok_def durable_def renew_view)
qed

lemma pool_step_inv:
  assumes inv: "pool_inv s dump p" and step: "pool_step s rp dump be a p = Some p'"
  shows "pool_inv s dump p'"
proof (cases a)
  case (Crash i)
  then obtain ph where ph: "phase_of p i = Some ph" and p': "p' = set_phase i Crashed p"
    using step by (auto split: option.splits if_splits)
  have "phases_ok s dump p'" unfolding p'
    by (rule phases_ok_set_phase [of s dump p]) (use inv in \<open>simp_all add: pool_inv_def\<close>)
  moreover have "held_ok p'" unfolding p'
    by (rule held_ok_set_phase [of p]) (use inv ph in \<open>simp_all add: pool_inv_def phase_of_Some\<close>)
  ultimately show ?thesis using inv p' by (simp add: pool_inv_def)
next
  case (Tick d)
  then have "p' = p\<lparr>po_now := po_now p + int d\<rparr>" using step by simp
  then show ?thesis using inv
    by (simp add: pool_inv_def phases_ok_def held_ok_def durable_def)
next
  case (Claim i)
  then have "phase_of p i = Some Idle" "p' = claim_step s i p" using step by (simp_all split: if_splits)
  then show ?thesis using claim_step_inv [OF inv] by simp
next
  case (Process i env)
  then obtain chunk where "phase_of p i = Some (Busy chunk)" "p' = process_step s rp i chunk env p"
    using step by (simp split: option.splits phase.splits)
  then show ?thesis using process_step_inv [OF inv] by simp
next
  case (Flush i cid)
  then obtain rs where "phase_of p i = Some (Flushing rs)" "p' = flush_step dump be i rs cid p"
    "\<not> has_chunk (po_store p) (pw_job (po_workers p ! i)) cid"
    using step by (simp split: option.splits phase.splits if_splits)
  then show ?thesis using flush_step_inv [OF inv] by simp
next
  case (Commit i)
  then obtain rs ref where "phase_of p i = Some (Committing rs ref)" "p' = commit_step i rs ref p"
    using step by (simp split: option.splits phase.splits)
  then show ?thesis using commit_step_inv [OF inv] by simp
next
  case (Beat i)
  then have "p' = beat_step s i p" using step by (simp split: option.splits phase.splits)
  then show ?thesis using beat_step_inv [OF inv] by simp
qed

lemma pool_reach_inv:
  "pool_reach s rp dump be p0 p \<Longrightarrow> pool_inv s dump p0 \<Longrightarrow> pool_inv s dump p"
  by (induction rule: pool_reach.induct) (auto intro: pool_step_inv)

section \<open>Start states\<close>

text \<open>
  Fresh workers on well-formed tables: no row is held under one of their ids, and what earlier
  runs committed is stored.
\<close>

definition pool_start :: "dumper \<Rightarrow> pool \<Rightarrow> bool" where
  "pool_start dump p \<longleftrightarrow> db_wf (po_db p) \<and> crew_distinct p \<and>
     list_all (\<lambda>w. pw_phase w = Idle) (po_workers p) \<and>
     (\<forall>w \<in> set (po_workers p). \<forall>r \<in> set (items (po_db p)). i_worker_id r \<noteq> Some (pw_id w)) \<and>
     durable dump p"

lemma pool_start_inv:
  assumes "pool_start dump p" shows "pool_inv s dump p"
proof -
  from assms have idle: "pw_phase (po_workers p ! i) = Idle" if "i < length (po_workers p)" for i
    using that by (simp add: pool_start_def list_all_length)
  then have "phases_ok s dump p" by (simp add: phases_ok_def)
  moreover have "held_ok p"
    unfolding held_ok_def
  proof (intro allI impI)
    fix job e v i
    assume v: "queue_view (po_db p) job e = Some (Held v)" and i: "i < length (po_workers p)"
      and id: "pw_id (po_workers p ! i) = v"
    from v obtain r where r: "lookup_item (po_db p) job e = Some r" and h: "view_row r = Held v"
      by (auto simp: queue_view_def)
    have row: "r \<in> set (items (po_db p))" using lookup_item_Some [OF r] by simp
    then have "row_wf r" using assms db_wf_row by (auto simp: pool_start_def)
    with h have "i_worker_id r = Some v"
      by (cases "i_status r") (auto simp: view_row_def row_wf_def)
    with assms row i id show "job = pw_job (po_workers p ! i) \<and>
        (\<forall>ids. in_hand (pw_phase (po_workers p ! i)) = Some ids \<longrightarrow> e \<in> set ids)"
      by (auto simp: pool_start_def)
  qed
  ultimately show ?thesis using assms by (simp add: pool_inv_def pool_start_def)
qed

lemma reach_from_start:
  "pool_start dump p0 \<Longrightarrow> pool_reach s rp dump be p0 p \<Longrightarrow> pool_inv s dump p"
  using pool_start_inv pool_reach_inv by blast

end
