(* ===== verification/EngineProps.thy ===== *)
theory EngineProps
  imports EngineInv
begin

text \<open>
  The guarantees of the pool, for every interleaving of any number of workers, with crashes
  and expired leases: results are stored before rows are committed, finished rows never change,
  a pool that stops has drained the job, memory is bounded, no worker is ever stuck; and the one
  guarantee that fails, completion over rows that a dead worker still holds.
\<close>

section \<open>How rows move\<close>

text \<open>A row that is finished, or held by one of the pool's own workers.\<close>

definition pool_row :: "pool \<Rightarrow> item_row \<Rightarrow> bool" where
  "pool_row p r \<longleftrightarrow> is_terminal (i_status r) \<or>
     i_status r = I_CLAIMED \<and> (\<exists>w \<in> fst ` set (crew p). i_worker_id r = Some w)"

lemma pool_row_crew: "crew p' = crew p \<Longrightarrow> pool_row p' r = pool_row p r"
  by (simp add: pool_row_def)

lemma crew_member: "i < length (po_workers p) \<Longrightarrow> pw_id (po_workers p ! i) \<in> fst ` set (crew p)"
  by (simp add: crew_job(2)) (metis crew_length image_eqI nth_mem)

lemma crew_row:
  assumes "i < length (po_workers p)" and "i_status r = I_CLAIMED"
    and "i_worker_id r = Some (pw_id (po_workers p ! i))"
  shows "pool_row p r"
  using assms crew_member [OF assms(1)] by (auto simp: pool_row_def intro!: bexI)

lemma complete_loop_row:
  "results_terminal rs \<Longrightarrow> r' \<in> set (items (fst (complete_loop w rs ref now (db, n)))) \<Longrightarrow>
   r' \<in> set (items db) \<or> is_terminal (i_status r')"
proof (induction rs arbitrary: db n)
  case (Cons x rs)
  then have "r' \<in> set (items (update_items (owns w (rr_external_id x)) (complete_row x ref now) db)) \<or>
      is_terminal (i_status r')" by (intro Cons.IH) (simp_all add: results_terminal_def)
  then show ?case using Cons.prems(1)
    by (auto simp: results_terminal_def set_sql_update split: if_splits)
qed simp

text \<open>
  What one step does to a row: nothing, or a worker of the pool takes it or keeps it, or it becomes
  finished.
\<close>

lemma pool_step_row:
  assumes inv: "pool_inv s dump p" and step: "pool_step s rp dump be a p = Some p'"
    and r': "r' \<in> set (items (po_db p'))"
  shows "r' \<in> set (items (po_db p)) \<or> pool_row p r'"
proof (cases a)
  case (Claim i)
  then have i: "i < length (po_workers p)" and p': "p' = claim_step s i p"
    using step by (auto simp: phase_of_Some split: if_splits)
  from r' show ?thesis
    by (auto simp: p' claim_step_def Let_def claim_chunk_def set_sql_update intro!: crew_row [OF i])
next
  case (Commit i)
  then obtain rs ref where ph: "phase_of p i = Some (Committing rs ref)" and p': "p' = commit_step i rs ref p"
    using step by (auto split: option.splits phase.splits)
  have rs: "results_terminal rs"
    using inv ph by (auto simp: pool_inv_def phases_ok_def phase_of_Some dest!: spec [of _ i])
  from r' show ?thesis
    by (auto simp: p' commit_step_def complete_items_def pool_row_def dest: complete_loop_row [OF rs]
        split: if_splits)
next
  case (Beat i)
  then have p': "p' = beat_step s i p" and i: "i < length (po_workers p)"
    using step by (auto simp: phase_of_Some split: option.splits phase.splits)
  from r' show ?thesis
    by (auto simp: p' beat_step_def renew_lease_def set_sql_update intro!: crew_row [OF i])
next
  case (Flush i cid)
  with step r' show ?thesis
    by (auto simp: flush_step_def split: option.splits phase.splits if_splits sum.splits)
qed (use step r' in \<open>auto simp: process_step_def split: option.splits phase.splits if_splits\<close>)

text \<open>
  Every row of the job is finished, in the hands of the pool, or claimable. A row left behind by a
  dead worker is, as soon as its lease has ended, and stays so: the clock does not go back and
  only the pool's workers write.
\<close>

definition recoverable :: "uuid \<Rightarrow> pool \<Rightarrow> bool" where
  "recoverable job p \<longleftrightarrow>
     (\<forall>r \<in> set (items (po_db p)). i_job_id r = job \<longrightarrow> pool_row p r \<or> claimable (po_now p) r)"

definition drained :: "uuid \<Rightarrow> pool \<Rightarrow> bool" where
  "drained job p \<longleftrightarrow>
     (\<forall>i < length (po_workers p). pw_job (po_workers p ! i) = job \<and> pw_phase (po_workers p ! i) = Stopped \<longrightarrow>
        (\<forall>r \<in> set (items (po_db p)). i_job_id r = job \<longrightarrow> pool_row p r))"

lemma pool_step_now: "pool_step s rp dump be a p = Some p' \<Longrightarrow> po_now p \<le> po_now p'"
  by (cases a) (auto simp: claim_step_def process_step_def flush_step_def commit_step_def beat_step_def
      Let_def split: option.splits phase.splits if_splits prod.splits sum.splits)

lemma claimable_mono: "claimable now r \<Longrightarrow> now \<le> now' \<Longrightarrow> claimable now' r"
  by (auto simp: claimable_def split: option.splits)

lemma pool_step_recoverable:
  assumes "pool_inv s dump p" and step: "pool_step s rp dump be a p = Some p'" and "recoverable job p"
  shows "recoverable job p'"
  using pool_step_row [OF assms(1,2)] assms(3) pool_row_crew [OF pool_step_crew [OF step]]
    claimable_mono [OF _ pool_step_now [OF step]]
  unfolding recoverable_def by blast

text \<open>A worker stops only in its claim, and only when nothing is claimable.\<close>

lemma pool_step_stops:
  assumes "pool_step s rp dump be a p = Some p'" and "i < length (po_workers p)"
    and "pw_phase (po_workers p' ! i) = Stopped" and "pw_phase (po_workers p ! i) \<noteq> Stopped"
  shows "a = Claim i \<and> p' = claim_step s i p \<and>
    snd (claim_chunk (pw_job (po_workers p ! i)) (pw_id (po_workers p ! i)) (chunk_size s)
      (lease_ttl_seconds s) (po_now p) {} (po_db p)) = []"
proof (cases a)
  case (Flush j cid)
  with assms show ?thesis
    by (auto simp: flush_step_def split: option.splits phase.splits if_splits sum.splits)
next
  case (Claim j)
  with assms show ?thesis
    by (auto simp: claim_step_def Let_def split: prod.splits if_splits)
qed (use assms in \<open>auto simp: process_step_def commit_step_def beat_step_def
  split: option.splits phase.splits if_splits sum.splits\<close>)

lemma pool_step_drained:
  assumes inv: "pool_inv s dump p" and step: "pool_step s rp dump be a p = Some p'"
    and rec: "recoverable job p" and dr: "drained job p" and cs: "0 < chunk_size s"
  shows "drained job p'"
  unfolding drained_def
proof (intro allI ballI impI)
  fix i r
  assume i': "i < length (po_workers p')" and r: "r \<in> set (items (po_db p'))" "i_job_id r = job"
    and st: "pw_job (po_workers p' ! i) = job \<and> pw_phase (po_workers p' ! i) = Stopped"
  have crew: "crew p' = crew p" by (rule pool_step_crew [OF step])
  then have i: "i < length (po_workers p)" using i' by (simp add: crew_length)
  have job: "pw_job (po_workers p ! i) = job" using st i i' crew by (simp add: crew_job(1))
  have wf: "db_wf (po_db p)" using inv by (simp add: pool_inv_def)
  have "pool_row p r" if old: "r \<in> set (items (po_db p))"
  proof (cases "pw_phase (po_workers p ! i) = Stopped")
    case True
    with dr i job old r show ?thesis by (auto simp: drained_def)
  next
    case False
    with pool_step_stops [OF step i] st job have
      "snd (claim_chunk job (pw_id (po_workers p ! i)) (chunk_size s)
         (lease_ttl_seconds s) (po_now p) {} (po_db p)) = []" by simp
    then have "\<not> claimable (po_now p) r"
      using claim_empty_iff [OF wf cs] old r by (auto simp: eligible_def)
    with rec old r show ?thesis by (auto simp: recoverable_def)
  qed
  then show "pool_row p' r" using pool_step_row [OF inv step r(1)] pool_row_crew [OF crew] by blast
qed

lemma pool_reach_drained:
  assumes "pool_reach s rp dump be p0 p" and "pool_inv s dump p0" and "0 < chunk_size s"
    and "recoverable job p0" and "drained job p0"
  shows "pool_inv s dump p \<and> recoverable job p \<and> drained job p"
  using assms
  by (induction rule: pool_reach.induct)
     (auto intro: pool_step_inv pool_step_recoverable pool_step_drained)

section \<open>Finished rows\<close>

lemma update_items_keeps:
  "r \<in> set (items db) \<Longrightarrow> \<not> P r \<Longrightarrow> r \<in> set (items (update_items P f db))"
  using row_after_update [of r db P f] by simp

lemma claim_keeps:
  assumes wf: "db_wf db" and r: "r \<in> set (items db)" "\<not> claimable now r"
  shows "r \<in> set (items (fst (claim_chunk job w n l now locked db)))"
proof -
  have "\<not> eligible job now locked r" using r(2) by (simp add: eligible_def)
  then have "r \<notin> set (claim_select job n now locked db)" using claim_select_set(2) [OF wf] by blast
  then have "i_id r \<notin> set (map i_id (claim_select job n now locked db))" using in_claim_iff [OF wf r(1)] by blast
  then show ?thesis unfolding claim_chunk_def Let_def fst_conv by (rule update_items_keeps [OF r(1)])
qed

lemma complete_loop_keeps:
  "r \<in> set (items db) \<Longrightarrow> (i_status r = I_CLAIMED \<Longrightarrow> i_worker_id r \<noteq> Some w) \<Longrightarrow>
   r \<in> set (items (fst (complete_loop w rs ref now (db, n))))"
proof (induction rs arbitrary: db n)
  case (Cons x rs)
  have "\<not> owns w (rr_external_id x) r" using Cons.prems(2) by (auto simp: owns_def)
  then show ?case using Cons update_items_keeps by simp
qed simp

lemma renew_keeps:
  "r \<in> set (items db) \<Longrightarrow> (i_status r = I_CLAIMED \<Longrightarrow> i_worker_id r \<noteq> Some w) \<Longrightarrow>
   r \<in> set (items (renew_lease w l now db))"
  unfolding renew_lease_def by (rule update_items_keeps) auto

text \<open>A step changes no row that is neither claimable nor held by a worker of the pool.\<close>

lemma pool_step_keeps:
  assumes step: "pool_step s rp dump be a p = Some p'" and wf: "db_wf (po_db p)"
    and r: "r \<in> set (items (po_db p))" "\<not> claimable (po_now p) r"
    and foreign: "\<And>i ph. phase_of p i = Some ph \<Longrightarrow> i_status r = I_CLAIMED \<Longrightarrow>
      i_worker_id r \<noteq> Some (pw_id (po_workers p ! i))"
  shows "r \<in> set (items (po_db p'))"
proof (cases a)
  case (Claim i)
  note keep = claim_keeps [OF wf r]
  obtain db' chunk where cl: "claim_chunk (pw_job (po_workers p ! i)) (pw_id (po_workers p ! i)) (chunk_size s)
      (lease_ttl_seconds s) (po_now p) {} (po_db p) = (db', chunk)" by fastforce
  then have "r \<in> set (items db')" using keep by (metis fst_conv)
  with Claim step show ?thesis by (auto simp: claim_step_def Let_def cl split: if_splits)
next
  case (Commit i)
  then obtain rs ref where ph: "phase_of p i = Some (Committing rs ref)" and p': "p' = commit_step i rs ref p"
    using step by (auto split: option.splits phase.splits)
  show ?thesis using complete_loop_keeps [OF r(1) foreign [OF ph]] r(1)
    by (simp add: p' commit_step_def complete_items_def)
next
  case (Beat i)
  then obtain chunk where ph: "phase_of p i = Some (Busy chunk)" and p': "p' = beat_step s i p"
    using step by (auto split: option.splits phase.splits)
  show ?thesis using renew_keeps [OF r(1) foreign [OF ph]] by (simp add: p' beat_step_def)
next
  case (Flush i cid)
  with step r show ?thesis
    by (auto simp: flush_step_def split: option.splits phase.splits if_splits sum.splits)
qed (use step r in \<open>auto simp: process_step_def split: option.splits phase.splits if_splits\<close>)

lemma pool_step_terminal:
  assumes "pool_inv s dump p" and "pool_step s rp dump be a p = Some p'"
    and "r \<in> set (items (po_db p))" "is_terminal (i_status r)"
  shows "r \<in> set (items (po_db p'))"
proof (rule pool_step_keeps [OF assms(2) _ assms(3)])
  show "db_wf (po_db p)" using assms(1) by (simp add: pool_inv_def)
  show "\<not> claimable (po_now p) r" using assms(4) by (auto simp: claimable_def)
qed (use assms(4) in auto)

lemma pool_reach_terminal:
  "pool_reach s rp dump be p0 p \<Longrightarrow> pool_inv s dump p0 \<Longrightarrow> r \<in> set (items (po_db p0)) \<Longrightarrow>
   is_terminal (i_status r) \<Longrightarrow> r \<in> set (items (po_db p))"
  by (induction rule: pool_reach.induct) (auto intro: pool_step_terminal pool_reach_inv)

section \<open>Runs\<close>

fun pool_runs ::
  "settings \<Rightarrow> retry_policy \<Rightarrow> dumper \<Rightarrow> backend \<Rightarrow> action list \<Rightarrow> pool \<Rightarrow> pool option" where
  "pool_runs s rp dump be [] p = Some p"
| "pool_runs s rp dump be (a # as) p =
     (case pool_step s rp dump be a p of None \<Rightarrow> None | Some p' \<Rightarrow> pool_runs s rp dump be as p')"

lemma pool_runs_reach_from:
  "pool_reach s rp dump be p0 p \<Longrightarrow> pool_runs s rp dump be as p = Some p' \<Longrightarrow> pool_reach s rp dump be p0 p'"
  by (induction as arbitrary: p) (auto split: option.splits intro: reach_step)

lemma pool_runs_reach: "pool_runs s rp dump be as p = Some p' \<Longrightarrow> pool_reach s rp dump be p p'"
  by (rule pool_runs_reach_from [OF reach_start])

text \<open>Two workers on the two rows of \<open>demo_db\<close>, with a client that always answers.\<close>

definition demo_pool :: pool where
  "demo_pool = \<lparr>po_db = demo_db, po_store = [], po_now = 0,
     po_workers = [\<lparr>pw_id = ''w0'', pw_job = ''j'', pw_phase = Idle\<rparr>,
                   \<lparr>pw_id = ''w1'', pw_job = ''j'', pw_phase = Idle\<rparr>]\<rparr>"

definition ok_env :: "claimed_item \<Rightarrow> row_env" where
  "ok_env c = demo_env (\<lambda>rq k. Inr \<lparr>rs_text = ''ok'', rs_prompt_tokens = 1,
     rs_completion_tokens = 1, rs_latency_ms = 1\<rparr>)"

lemma demo_pool_start: "pool_start dump demo_pool"
  by (simp add: pool_start_def demo_pool_def demo_db_wf crew_distinct_def durable_def)
    (auto simp: demo_db_def demo_row_def queue_view_def lookup_item_def view_row_def)

lemmas run_eval = demo_pool_def demo_db_def demo_row_def phase_of_def claim_step_def Let_def
  claim_chunk_def claim_select_def claimable_def default_settings_def claimed_of_def claim_row_def
  set_phase_def update_items_def process_step_def process_chunk_def process_row_def ok_env_def
  demo_env_def eval_nat_numeral no_metrics_def flush_step_def has_chunk_def write_chunk_def
  put_file_def commit_step_def complete_items_def owns_def complete_row_def

definition demo_run :: "action list \<Rightarrow> pool option" where
  "demo_run as = pool_runs default_settings shipped_policy json_dump (LocalBackend []) as demo_pool"

lemma demo_run_reach:
  "demo_run as = Some p \<Longrightarrow> pool_reach default_settings shipped_policy json_dump (LocalBackend []) demo_pool p"
  unfolding demo_run_def by (rule pool_runs_reach)

definition demo_commit :: "action list" where
  "demo_commit = [Claim 0, Process 0 ok_env, Flush 0 ''c'', Commit 0]"

lemma demo_run_committed:
  "\<exists>p. demo_run demo_commit = Some p \<and> (\<exists>r \<in> set (items (po_db p)).
     i_external_id r = ''a'' \<and> i_status r = I_SUCCEEDED \<and> i_result_ref r = Some (chunk_ref ''j'' ''c''))"
  unfolding demo_run_def demo_commit_def by (simp add: run_eval)

lemma demo_run_stopped:
  "\<exists>p. demo_run (demo_commit @ [Claim 0, Claim 1]) = Some p \<and> map pw_phase (po_workers p) = [Stopped, Stopped] \<and>
     map pw_job (po_workers p) = [''j'', ''j''] \<and> items (po_db p) \<noteq> []"
  unfolding demo_run_def demo_commit_def by (simp add: run_eval)

section \<open>Properties\<close>

text \<open>
  C2: Results are durable before they are visible: in every reachable state, whatever crashed or
  expired, a finished row's \<open>result_ref\<close> names a stored chunk of its job, and that chunk
  holds a record with the row's external id and status.
\<close>

theorem results_stored_before_commit:
  assumes "pool_start dump p0" and "pool_reach s rp dump be p0 p"
    and "r \<in> set (items (po_db p))" and "is_terminal (i_status r)" and "i_result_ref r = Some ref"
  shows "\<exists>cid rs res. ref = chunk_ref (i_job_id r) cid \<and>
    ((i_job_id r, chunk_file cid), chunk_payload dump rs) \<in> set (po_store p) \<and>
    res \<in> set rs \<and> rr_external_id res = i_external_id r \<and> rr_status res = i_status r"
proof -
  from reach_from_start [OF assms(1,2)] have wf: "db_wf (po_db p)" and dur: "durable dump p"
    by (simp_all add: pool_inv_def)
  have "queue_view (po_db p) (i_job_id r) (i_external_id r) = Some (Finished (i_status r) (Some ref))"
    using lookup_item_wf [OF wf assms(3)] assms(4,5) by (simp add: queue_view_def view_row_terminal)
  with dur show ?thesis unfolding durable_def stored_result_def by blast
qed

theorem results_stored_before_commit_witness:
  "\<exists>p r cid rs res. demo_run demo_commit = Some p \<and> r \<in> set (items (po_db p)) \<and>
     i_status r = I_SUCCEEDED \<and> ((''j'', chunk_file cid), chunk_payload json_dump rs) \<in> set (po_store p) \<and>
     res \<in> set rs \<and> rr_external_id res = ''a'' \<and> rr_status res = I_SUCCEEDED"
proof -
  obtain p r where run: "demo_run demo_commit = Some p" and r: "r \<in> set (items (po_db p))"
    and cols: "i_external_id r = ''a''" "i_status r = I_SUCCEEDED" "i_result_ref r = Some (chunk_ref ''j'' ''c'')"
    using demo_run_committed by blast
  from results_stored_before_commit [OF demo_pool_start demo_run_reach [OF run] r _ cols(3)] cols(1,2)
  obtain cid rs res where "chunk_ref ''j'' ''c'' = chunk_ref (i_job_id r) cid"
    "((i_job_id r, chunk_file cid), chunk_payload json_dump rs) \<in> set (po_store p)"
    "res \<in> set rs" "rr_external_id res = ''a''" "rr_status res = I_SUCCEEDED" by auto
  moreover have "i_job_id r = ''j''"
    using run r unfolding demo_run_def demo_commit_def by (auto simp: run_eval)
  ultimately show ?thesis using run r cols by auto
qed

text \<open>
  C3: A finished row is final: once a row is \<open>SUCCEEDED\<close> or \<open>FAILED\<close>, no claim,
  completion, heartbeat or crash of any worker, however late, changes any of its columns.
\<close>

theorem finished_rows_final:
  assumes "pool_start dump p0" and "pool_reach s rp dump be p0 p" and "pool_reach s rp dump be p p'"
    and "r \<in> set (items (po_db p))" and "is_terminal (i_status r)"
  shows "r \<in> set (items (po_db p'))"
  using pool_reach_terminal [OF assms(3) reach_from_start [OF assms(1,2)] assms(4,5)] .

theorem finished_rows_final_witness:
  "\<exists>p p' r. demo_run demo_commit = Some p \<and> r \<in> set (items (po_db p)) \<and> i_status r = I_SUCCEEDED \<and>
     demo_run (demo_commit @ [Claim 0, Claim 1]) = Some p' \<and> r \<in> set (items (po_db p'))"
proof -
  obtain p r where run: "demo_run demo_commit = Some p" and r: "r \<in> set (items (po_db p))" "i_status r = I_SUCCEEDED"
    using demo_run_committed by blast
  have split: "pool_runs s rp dump be (as @ bs) q =
      (case pool_runs s rp dump be as q of None \<Rightarrow> None | Some q' \<Rightarrow> pool_runs s rp dump be bs q')"
    for s rp dump be as bs q by (induction as arbitrary: q) (auto split: option.split)
  obtain p' where run': "demo_run (demo_commit @ [Claim 0, Claim 1]) = Some p'"
    using demo_run_stopped by blast
  with run have "pool_runs default_settings shipped_policy json_dump (LocalBackend []) [Claim 0, Claim 1] p = Some p'"
    by (simp add: demo_run_def split)
  from finished_rows_final [OF demo_pool_start demo_run_reach [OF run] pool_runs_reach [OF this] r(1)] r run run'
  show ?thesis by auto
qed

text \<open>Rows left claimed at the start are claimable then: their leases have ended.\<close>

definition leases_ended :: "uuid \<Rightarrow> time \<Rightarrow> database \<Rightarrow> bool" where
  "leases_ended job now db \<longleftrightarrow>
     (\<forall>r \<in> set (items db). i_job_id r = job \<and> i_status r = I_CLAIMED \<longrightarrow> claimable now r)"

lemma leases_ended_recoverable: "leases_ended job (po_now p) (po_db p) \<Longrightarrow> recoverable job p"
  using not_terminal_cases unfolding recoverable_def pool_row_def leases_ended_def claimable_def by blast

lemma stopped_pool_terminal:
  assumes "pool_start dump p0" and "pool_reach s rp dump be p0 p" and "0 < chunk_size s"
    and "leases_ended job (po_now p0) (po_db p0)"
    and "w \<in> set (po_workers p)" and "pw_job w = job"
    and "\<And>w. w \<in> set (po_workers p) \<Longrightarrow> pw_job w = job \<Longrightarrow> pw_phase w = Stopped"
    and "r \<in> set (items (po_db p))" and "i_job_id r = job"
  shows "is_terminal (i_status r)"
proof (rule ccontr)
  assume open_row: "\<not> is_terminal (i_status r)"
  have "drained job p0"
    using assms(1) by (auto simp: drained_def pool_start_def list_all_length)
  then have inv: "pool_inv s dump p" and dr: "drained job p"
    using pool_reach_drained [OF assms(2) pool_start_inv [OF assms(1)] assms(3) leases_ended_recoverable [OF assms(4)]]
    by auto
  from inv have wf: "db_wf (po_db p)" and held: "held_ok p" by (simp_all add: pool_inv_def)
  from assms(5-7) obtain i where "i < length (po_workers p)" "pw_job (po_workers p ! i) = job"
    "pw_phase (po_workers p ! i) = Stopped" by (metis in_set_conv_nth)
  with dr assms(8,9) have "pool_row p r" unfolding drained_def by blast
  with open_row obtain v where v: "v \<in> fst ` set (crew p)" "i_status r = I_CLAIMED" "i_worker_id r = Some v"
    by (auto simp: pool_row_def)
  have view: "queue_view (po_db p) job (i_external_id r) = Some (Held v)"
    using lookup_item_wf [OF wf assms(8)] assms(9) v by (simp add: queue_view_def view_row_def)
  from v(1) obtain j where j: "j < length (po_workers p)" "pw_id (po_workers p ! j) = v"
    by (auto simp: crew_def in_set_conv_nth)
  with held view have job: "job = pw_job (po_workers p ! j)"
    and hand: "\<And>ids. in_hand (pw_phase (po_workers p ! j)) = Some ids \<Longrightarrow> i_external_id r \<in> set ids"
    unfolding held_ok_def by auto
  have "pw_phase (po_workers p ! j) = Stopped" using assms(7) [of "po_workers p ! j"] j(1) job by simp
  then show False using hand [of "[]"] by simp
qed

text \<open>
  C4: A pool that stopped has finished its job: if the leases on the job's claimed rows had ended
  when the workers started (rows of workers that died; none on a first run) and all workers of
  the job have left their loop normally, every row of the job is \<open>SUCCEEDED\<close> or
  \<open>FAILED\<close>, so the \<open>COMPLETED\<close> the engine then writes is true.
\<close>

theorem stopped_pool_drained:
  assumes "pool_start dump p0" and "pool_reach s rp dump be p0 p" and "0 < chunk_size s"
    and "\<And>r. r \<in> set (items (po_db p0)) \<Longrightarrow> i_job_id r = job \<Longrightarrow> i_status r = I_CLAIMED \<Longrightarrow>
      claimable (po_now p0) r"
    and "w \<in> set (po_workers p)" and "pw_job w = job"
    and "\<And>w. w \<in> set (po_workers p) \<Longrightarrow> pw_job w = job \<Longrightarrow> pw_phase w = Stopped"
    and "r \<in> set (items (po_db p))" and "i_job_id r = job"
  shows "is_terminal (i_status r)"
proof -
  have "leases_ended job (po_now p0) (po_db p0)" using assms(4) by (simp add: leases_ended_def)
  from stopped_pool_terminal [OF assms(1-3) this assms(5-9)] show ?thesis .
qed

theorem stopped_pool_drained_witness:
  "\<exists>p. demo_run (demo_commit @ [Claim 0, Claim 1]) = Some p \<and> items (po_db p) \<noteq> [] \<and>
     (\<forall>r \<in> set (items (po_db p)). i_job_id r = ''j'' \<longrightarrow> is_terminal (i_status r))"
proof -
  obtain p where run: "demo_run (demo_commit @ [Claim 0, Claim 1]) = Some p"
    and ph: "map pw_phase (po_workers p) = [Stopped, Stopped]" and job: "map pw_job (po_workers p) = [''j'', ''j'']"
    and ne: "items (po_db p) \<noteq> []"
    using demo_run_stopped by (elim exE conjE) (rule that)
  have "pw_phase w = Stopped" if "w \<in> set (po_workers p)" for w
    using that arg_cong [OF ph, where f = set] by auto
  moreover obtain w where "w \<in> set (po_workers p)" "pw_job w = ''j''"
    using job by (cases "po_workers p") auto
  moreover have "0 < chunk_size default_settings" by (simp add: default_settings_def)
  moreover have "r \<in> set (items (po_db demo_pool)) \<Longrightarrow> i_status r \<noteq> I_CLAIMED" for r
    by (auto simp: demo_pool_def demo_db_def demo_row_def)
  ultimately have "is_terminal (i_status r)" if "r \<in> set (items (po_db p))" "i_job_id r = ''j''" for r
    using stopped_pool_drained [OF demo_pool_start demo_run_reach [OF run]] that by metis
  with run ne show ?thesis by blast
qed

text \<open>The rows a worker keeps in memory.\<close>

fun resident :: "phase \<Rightarrow> nat" where
  "resident (Busy chunk) = length chunk"
| "resident (Flushing rs) = length rs"
| "resident (Committing rs ref) = length rs"
| "resident _ = 0"

lemma resident_le: "phase_ok s dump st job ph \<Longrightarrow> resident ph \<le> chunk_size s"
  by (cases ph) auto

text \<open>
  C31: Memory is bounded: in every reachable state the rows resident in all workers together are
  at most the number of workers times \<open>chunk_size\<close>, whatever the size of the job.
\<close>

theorem resident_rows_bounded:
  assumes "pool_start dump p0" and "pool_reach s rp dump be p0 p"
  shows "sum_list (map (resident \<circ> pw_phase) (po_workers p)) \<le> length (po_workers p0) * chunk_size s"
proof -
  have "phases_ok s dump p" using reach_from_start [OF assms] by (simp add: pool_inv_def)
  then have "\<forall>w \<in> set (po_workers p). resident (pw_phase w) \<le> chunk_size s"
    by (metis in_set_conv_nth phases_ok_def resident_le)
  then have "sum_list (map (resident \<circ> pw_phase) (po_workers p)) \<le> sum_list (map (\<lambda>_. chunk_size s) (po_workers p))"
    by (intro sum_list_mono) auto
  also have "\<dots> = length (po_workers p0) * chunk_size s"
    using pool_reach_crew [OF assms(2)] by (simp add: sum_list_triv crew_length)
  finally show ?thesis .
qed

theorem resident_rows_bounded_witness:
  "\<exists>p. demo_run [Claim 0] = Some p \<and> sum_list (map (resident \<circ> pw_phase) (po_workers p)) = 2 \<and>
     sum_list (map (resident \<circ> pw_phase) (po_workers p)) \<le> 2 * 50"
proof -
  obtain p where run: "demo_run [Claim 0] = Some p"
    and two: "sum_list (map (resident \<circ> pw_phase) (po_workers p)) = 2"
    unfolding demo_run_def by (simp add: run_eval)
  from resident_rows_bounded [OF demo_pool_start demo_run_reach [OF run]] run two
  show ?thesis by (auto simp: demo_pool_def default_settings_def)
qed

lemma fresh_chunk_id: "\<exists>cid. \<not> has_chunk st job cid"
proof -
  have "inj (\<lambda>n. (job, chunk_file (nat_str n)))" by (auto simp: inj_def chunk_file_def)
  then have "infinite (range (\<lambda>n. (job, chunk_file (nat_str n))))"
    using finite_imageD infinite_UNIV_nat by blast
  then have "\<not> range (\<lambda>n. (job, chunk_file (nat_str n))) \<subseteq> fst ` set st"
    using finite_subset by blast
  then show ?thesis by (auto simp: has_chunk_def)
qed

lemma live_phase_moves:
  assumes i: "i < length (po_workers p)" and "is_live (pw_phase (po_workers p ! i))"
  shows "\<exists>a p'. pool_step s rp dump be a p = Some p' \<and> (\<forall>j. a \<noteq> Crash j) \<and> (\<forall>d. a \<noteq> Tick d) \<and>
    pw_phase (po_workers p' ! i) \<noteq> pw_phase (po_workers p ! i)"
proof (cases "pw_phase (po_workers p ! i)")
  case Idle
  then show ?thesis using i
    by (intro exI [of _ "Claim i"]) (auto simp: phase_of_def claim_step_def Let_def split: prod.split)
next
  case (Busy chunk)
  then show ?thesis using i
    by (intro exI [of _ "Process i ok_env"]) (auto simp: phase_of_def process_step_def split: sum.split)
next
  case (Flushing rs)
  obtain cid where "\<not> has_chunk (po_store p) (pw_job (po_workers p ! i)) cid"
    using fresh_chunk_id by blast
  with Flushing show ?thesis using i
    by (intro exI [of _ "Flush i cid"]) (auto simp: phase_of_def flush_step_def split: sum.split)
next
  case (Committing rs ref)
  then show ?thesis using i
    by (intro exI [of _ "Commit i"]) (auto simp: phase_of_def commit_step_def)
qed (use assms(2) in simp_all)

lemma claim_stops_iff:
  assumes "db_wf (po_db p)" and "0 < chunk_size s" and "i < length (po_workers p)"
  shows "pw_phase (po_workers (claim_step s i p) ! i) = Stopped \<longleftrightarrow>
    (\<forall>r \<in> set (items (po_db p)). i_job_id r = pw_job (po_workers p ! i) \<longrightarrow> \<not> claimable (po_now p) r)"
  using assms(3) claim_empty_iff [OF assms(1,2), of "pw_job (po_workers p ! i)" "pw_id (po_workers p ! i)"
      "lease_ttl_seconds s" "po_now p" "{}"]
  by (auto simp: claim_step_def Let_def eligible_def split: prod.split)

text \<open>
  C28: No worker is ever stuck: in every state a live worker has a next action, and an idle
  worker's claim ends its loop exactly when no row of its job is claimable at that moment, so a
  row with an expired lease is never left behind by a worker that is still running.
\<close>

theorem live_worker_can_move:
  assumes "pool_start dump p0" and "pool_reach s rp dump be p0 p" and "i < length (po_workers p)"
    and "is_live (pw_phase (po_workers p ! i))" and "0 < chunk_size s"
  shows "(\<exists>a p'. pool_step s rp dump be a p = Some p' \<and> (\<forall>j. a \<noteq> Crash j) \<and> (\<forall>d. a \<noteq> Tick d) \<and>
       pw_phase (po_workers p' ! i) \<noteq> pw_phase (po_workers p ! i)) \<and>
     (pw_phase (po_workers p ! i) = Idle \<longrightarrow>
       (pw_phase (po_workers (claim_step s i p) ! i) = Stopped \<longleftrightarrow>
          (\<forall>r \<in> set (items (po_db p)). i_job_id r = pw_job (po_workers p ! i) \<longrightarrow>
             \<not> claimable (po_now p) r)))"
proof -
  have "db_wf (po_db p)" using reach_from_start [OF assms(1,2)] by (simp add: pool_inv_def)
  then show ?thesis
    using live_phase_moves [OF assms(3,4), of s rp dump be] claim_stops_iff [OF _ assms(5,3)] by simp
qed

theorem live_worker_can_move_witness:
  "pw_phase (po_workers (claim_step default_settings 0 demo_pool) ! 0) \<noteq> Stopped"
proof -
  have "demo_row 1 ''a'' \<in> set (items (po_db demo_pool))"
    "i_job_id (demo_row 1 ''a'') = pw_job (po_workers demo_pool ! 0)"
    "claimable (po_now demo_pool) (demo_row 1 ''a'')"
    by (simp_all add: demo_pool_def demo_db_def demo_row_def claimable_def)
  moreover have "0 < length (po_workers demo_pool)" "is_live (pw_phase (po_workers demo_pool ! 0))"
    "pw_phase (po_workers demo_pool ! 0) = Idle" "0 < chunk_size default_settings"
    by (simp_all add: demo_pool_def default_settings_def)
  ultimately show ?thesis
    using live_worker_can_move [OF demo_pool_start reach_start, of 0 default_settings shipped_policy json_dump
        "LocalBackend []"] by blast
qed

end
