(* ===== verification/WorkerRefine.thy ===== *)
theory WorkerRefine
  imports EngineProps
begin

text \<open>
  The two models of \<open>Worker.run\<close> agree: the loop \<open>worker_run\<close> of one worker, on the
  PostgreSQL queue and a storage backend, is a run of the pool in which the other workers stand
  still. So every guarantee of the pool holds along the loop.
\<close>

section \<open>Steps of one worker\<close>

definition idle_at :: "pool \<Rightarrow> nat \<Rightarrow> string \<Rightarrow> uuid \<Rightarrow> bool" where
  "idle_at p i w job \<longleftrightarrow> i < length (po_workers p) \<and>
     po_workers p ! i = \<lparr>pw_id = w, pw_job = job, pw_phase = Idle\<rparr>"

definition others_kept :: "nat \<Rightarrow> pool \<Rightarrow> pool \<Rightarrow> bool" where
  "others_kept i p p' \<longleftrightarrow> length (po_workers p') = length (po_workers p) \<and>
     (\<forall>j < length (po_workers p). j \<noteq> i \<longrightarrow> po_workers p' ! j = po_workers p ! j)"

lemma others_kept_trans: "others_kept i p q \<Longrightarrow> others_kept i q r \<Longrightarrow> others_kept i p r"
  by (simp add: others_kept_def)

lemma others_kept_set_phase:
  "po_workers q = po_workers p \<Longrightarrow> others_kept i p (set_phase i ph q)"
  by (simp add: others_kept_def set_phase_def)

lemma others_kept_next:
  "others_kept i p q \<Longrightarrow> po_workers q' = po_workers q \<Longrightarrow> others_kept i p (set_phase i ph q')"
  by (auto simp: others_kept_def set_phase_def)

lemma reach_one: "pool_step s rp dump be a p = Some p' \<Longrightarrow> pool_reach s rp dump be p p'"
  by (rule reach_step [OF reach_start])

lemma tick_reach:
  assumes "po_now p \<le> t" shows "pool_reach s rp dump be p (p\<lparr>po_now := t\<rparr>)"
  using assms by (intro reach_one [of _ _ _ _ "Tick (nat (t - po_now p))"]) simp

lemma now_db_swap: "p\<lparr>po_now := t, po_db := db\<rparr> = p\<lparr>po_db := db, po_now := t\<rparr>"
  by (cases p) simp

lemma store_db_swap: "p\<lparr>po_store := st, po_db := db\<rparr> = p\<lparr>po_db := db, po_store := st\<rparr>"
  by (cases p) simp

text \<open>The heartbeats while a chunk is in work.\<close>

lemma beats_reach:
  assumes "phase_of p i = Some (Busy chunk)" and "sorted (po_now p # ts)"
  shows "pool_reach s rp dump be p
    (p\<lparr>po_db := heartbeats renew_lease (pw_id (po_workers p ! i)) (lease_ttl_seconds s) ts (po_db p),
       po_now := last (po_now p # ts)\<rparr>)"
  using assms
proof (induction ts arbitrary: p)
  case Nil
  then show ?case by (simp add: heartbeats_def reach_start)
next
  case (Cons t ts)
  let ?q = "p\<lparr>po_db := renew_lease (pw_id (po_workers p ! i)) (lease_ttl_seconds s) t (po_db p), po_now := t\<rparr>"
  have "pool_reach s rp dump be p (p\<lparr>po_now := t\<rparr>)" using Cons.prems by (intro tick_reach) simp
  moreover have "pool_reach s rp dump be (p\<lparr>po_now := t\<rparr>) ?q"
    using Cons.prems by (intro reach_one [of _ _ _ _ "Beat i"]) (auto simp: phase_of_def beat_step_def now_db_swap split: if_splits)
  ultimately have "pool_reach s rp dump be p ?q" using pool_reach_trans by blast
  moreover have "pool_reach s rp dump be ?q
      (?q\<lparr>po_db := heartbeats renew_lease (pw_id (po_workers ?q ! i)) (lease_ttl_seconds s) ts (po_db ?q),
         po_now := last (po_now ?q # ts)\<rparr>)"
    using Cons.prems by (intro Cons.IH) (simp_all add: phase_of_Some)
  ultimately show ?case using pool_reach_trans by (fastforce simp: heartbeats_def)
qed

lemma has_chunk_write:
  assumes "backend_write dump be job cid rs st = Inr (st', ref)"
  shows "has_chunk st' job' cid' \<longleftrightarrow> job' = job \<and> cid' = cid \<or> has_chunk st job' cid'"
proof (cases be)
  case (LocalBackend dir)
  with assms have "st' = put_file (job, chunk_file cid) (chunk_payload dump rs) st"
    by (simp add: write_chunk_def)
  then have "fst ` set st' = insert (job, chunk_file cid) (fst ` set st)" by (simp only: put_file_keys)
  then show ?thesis by (simp only: has_chunk_def insert_iff) (simp add: chunk_file_def)
qed (use assms in simp)

section \<open>The refinement\<close>

text \<open>Time does not go back along the loop.\<close>

definition run_clock :: "run_env \<Rightarrow> bool" where
  "run_clock env \<longleftrightarrow>
     (\<forall>k. sorted (en_claim_time env k # en_beats env k @ [en_commit_time env k, en_claim_time env (Suc k)]))"

definition end_phase :: "exn + unit \<Rightarrow> phase" where
  "end_phase r = (case r of Inl e \<Rightarrow> Raised e | Inr _ \<Rightarrow> Stopped)"

text \<open>One round of the loop up to the results, and from the results to the commit.\<close>

lemma round_claim:
  assumes idle: "idle_at p i w job" and now: "po_now p \<le> t"
    and cl: "claim_chunk job w (chunk_size s) (lease_ttl_seconds s) t {} (po_db p) = (q1, chunk)"
  shows "pool_reach s rp dump be p
    (set_phase i (if chunk = [] then Stopped else Busy chunk) (p\<lparr>po_db := q1, po_now := t\<rparr>))"
proof (rule pool_reach_trans [OF _ tick_reach [OF now]])
  show "pool_reach s rp dump be (p\<lparr>po_now := t\<rparr>)
      (set_phase i (if chunk = [] then Stopped else Busy chunk) (p\<lparr>po_db := q1, po_now := t\<rparr>))"
    using idle cl
    by (intro reach_one [of _ _ _ _ "Claim i"]) (simp add: idle_at_def phase_of_def claim_step_def Let_def now_db_swap)
qed

lemma round_commit:
  assumes i: "i < length (po_workers p)" and w: "pw_id (po_workers p ! i) = w"
    and ph: "pw_phase (po_workers p ! i) = Committing rs ref" and now: "po_now p \<le> t"
  shows "pool_reach s rp dump be p
    (set_phase i Idle (p\<lparr>po_db := fst (complete_items w rs ref t (po_db p)), po_now := t\<rparr>))"
proof (rule pool_reach_trans [OF _ tick_reach [OF now]])
  show "pool_reach s rp dump be (p\<lparr>po_now := t\<rparr>)
      (set_phase i Idle (p\<lparr>po_db := fst (complete_items w rs ref t (po_db p)), po_now := t\<rparr>))"
    using assms by (intro reach_one [of _ _ _ _ "Commit i"]) (simp add: phase_of_def commit_step_def now_db_swap)
qed

text \<open>Where the loop stands, with what the rest of it relies on.\<close>

definition loop_at ::
  "pool \<Rightarrow> nat \<Rightarrow> string \<Rightarrow> uuid \<Rightarrow> run_env \<Rightarrow> nat \<Rightarrow> (database, chunk_store) worker_state \<Rightarrow> bool" where
  "loop_at p i w job env k st \<longleftrightarrow> idle_at p i w job \<and> po_db p = ws_queue st \<and> po_store p = ws_store st \<and>
     po_now p \<le> en_claim_time env k \<and> (\<forall>j \<ge> k. \<not> has_chunk (ws_store st) job (en_chunk_id env j))"

definition reaches_end ::
  "settings \<Rightarrow> retry_policy \<Rightarrow> dumper \<Rightarrow> backend \<Rightarrow> pool \<Rightarrow> nat \<Rightarrow>
   (exn + unit) \<times> (database, chunk_store) worker_state \<Rightarrow> bool" where
  "reaches_end s rp dump be p i out \<longleftrightarrow>
     (\<exists>p'. pool_reach s rp dump be p p' \<and> others_kept i p p' \<and> po_db p' = ws_queue (snd out) \<and>
        po_store p' = ws_store (snd out) \<and> pw_phase (po_workers p' ! i) = end_phase (fst out))"

lemma reaches_end_step:
  "pool_reach s rp dump be p q \<Longrightarrow> others_kept i p q \<Longrightarrow> reaches_end s rp dump be q i out \<Longrightarrow>
   reaches_end s rp dump be p i out"
  unfolding reaches_end_def using pool_reach_trans others_kept_trans by blast

lemma reaches_end_now:
  "pool_reach s rp dump be p p' \<Longrightarrow> others_kept i p p' \<Longrightarrow> po_db p' = ws_queue st \<Longrightarrow>
   po_store p' = ws_store st \<Longrightarrow> pw_phase (po_workers p' ! i) = end_phase r \<Longrightarrow>
   reaches_end s rp dump be p i (r, st)"
  unfolding reaches_end_def by fastforce

text \<open>From the results of a chunk on: the flush may raise, else the commit closes the round.\<close>

lemma round_flush:
  assumes i: "i < length (po_workers p)"
    and me: "po_workers p ! i = \<lparr>pw_id = w, pw_job = job, pw_phase = Flushing rs\<rparr>"
    and fresh: "\<not> has_chunk (po_store p) job cid"
  shows "case backend_write dump be job cid rs (po_store p) of
      Inl e \<Rightarrow> pool_reach s rp dump be p (set_phase i (Raised e) p)
    | Inr (store', ref) \<Rightarrow> po_now p \<le> t \<longrightarrow> pool_reach s rp dump be p
        (set_phase i Idle (p\<lparr>po_db := fst (complete_items w rs ref t (po_db p)), po_store := store', po_now := t\<rparr>))"
proof -
  have flush: "pool_reach s rp dump be p (flush_step dump be i rs cid p)"
    using assms by (intro reach_one [of _ _ _ _ "Flush i cid"]) (simp add: phase_of_def)
  show ?thesis
  proof (cases "backend_write dump be job cid rs (po_store p)")
    case (Inl e)
    with flush me show ?thesis by (simp add: flush_step_def)
  next
    case (Inr x)
    obtain store' ref where x: "x = (store', ref)" by fastforce
    let ?q = "set_phase i (Committing rs ref) (p\<lparr>po_store := store'\<rparr>)"
    have q: "flush_step dump be i rs cid p = ?q" using Inr x me by (simp add: flush_step_def)
    have "pool_reach s rp dump be p
        (set_phase i Idle (?q\<lparr>po_db := fst (complete_items w rs ref t (po_db ?q)), po_now := t\<rparr>))" if "po_now p \<le> t"
      using flush round_commit [of i ?q w rs ref t s rp dump be] that i me pool_reach_trans unfolding q by fastforce
    then show ?thesis using Inr x i by (simp add: set_phase_def store_db_swap)
  qed
qed

text \<open>Up to the results: the claim, the heartbeats, the processing.\<close>

lemma round_process:
  assumes idle: "idle_at p i w job" and clock: "sorted (po_now p # t # ts)"
    and cl: "claim_chunk job w (chunk_size s) (lease_ttl_seconds s) t {} (po_db p) = (q1, chunk)"
    and ne: "chunk \<noteq> []"
  shows "pool_reach s rp dump be p
    (set_phase i (case fst (process_chunk s rp env chunk no_metrics) of Inl e \<Rightarrow> Raised e | Inr rs \<Rightarrow> Flushing rs)
       (p\<lparr>po_db := heartbeats renew_lease w (lease_ttl_seconds s) ts q1, po_now := last (t # ts)\<rparr>))"
proof -
  let ?b = "set_phase i (Busy chunk) (p\<lparr>po_db := q1, po_now := t\<rparr>)"
  let ?c = "?b\<lparr>po_db := heartbeats renew_lease w (lease_ttl_seconds s) ts q1, po_now := last (t # ts)\<rparr>"
  from idle have i: "i < length (po_workers p)" and me: "po_workers p ! i = \<lparr>pw_id = w, pw_job = job, pw_phase = Idle\<rparr>"
    by (simp_all add: idle_at_def)
  have busy: "phase_of ?b i = Some (Busy chunk)" using i by (simp add: phase_of_Some)
  have "pool_reach s rp dump be p ?b" using round_claim [OF idle _ cl] clock ne by simp
  moreover have "pool_reach s rp dump be ?b ?c"
    using beats_reach [OF busy, of ts s rp dump be] clock i me by simp
  moreover have "pool_reach s rp dump be ?c (process_step s rp i chunk env ?c)"
    using i by (intro reach_one [of _ _ _ _ "Process i env"]) (simp add: phase_of_def)
  ultimately have "pool_reach s rp dump be p (process_step s rp i chunk env ?c)"
    using pool_reach_trans by blast
  then show ?thesis using i by (simp add: process_step_def set_phase_def split: sum.splits)
qed

lemma run_clock_round:
  assumes "run_clock env" and "now \<le> en_claim_time env k"
  shows "sorted (now # en_claim_time env k # en_beats env k)"
    and "last (en_claim_time env k # en_beats env k) \<le> en_commit_time env k"
    and "en_commit_time env k \<le> en_claim_time env (Suc k)"
proof -
  from assms(1) have "sorted ((en_claim_time env k # en_beats env k) @ [en_commit_time env k, en_claim_time env (Suc k)])"
    unfolding run_clock_def by simp
  then have *: "sorted (en_claim_time env k # en_beats env k)"
    "\<forall>x \<in> set (en_claim_time env k # en_beats env k). x \<le> en_commit_time env k"
    "en_commit_time env k \<le> en_claim_time env (Suc k)"
    unfolding sorted_append by simp_all
  then show "en_commit_time env k \<le> en_claim_time env (Suc k)" by simp
  show "last (en_claim_time env k # en_beats env k) \<le> en_commit_time env k"
    using *(2) last_in_set [of "en_claim_time env k # en_beats env k"] by blast
  show "sorted (now # en_claim_time env k # en_beats env k)"
    using *(1) assms(2) by auto
qed

text \<open>The queue after the heartbeats of a round, and the pool when its results are there.\<close>

definition beaten :: "settings \<Rightarrow> string \<Rightarrow> run_env \<Rightarrow> nat \<Rightarrow> database \<Rightarrow> database" where
  "beaten s w env k q = heartbeats renew_lease w (lease_ttl_seconds s) (en_beats env k) q"

definition at_results :: "settings \<Rightarrow> string \<Rightarrow> run_env \<Rightarrow> nat \<Rightarrow> database \<Rightarrow> pool \<Rightarrow> pool" where
  "at_results s w env k q1 p =
     p\<lparr>po_db := beaten s w env k q1, po_now := last (en_claim_time env k # en_beats env k)\<rparr>"

lemma at_results_sel [simp]:
  "po_db (at_results s w env k q1 p) = beaten s w env k q1" "po_store (at_results s w env k q1 p) = po_store p"
  "po_workers (at_results s w env k q1 p) = po_workers p"
  "po_now (at_results s w env k q1 p) = last (en_claim_time env k # en_beats env k)"
  by (simp_all add: at_results_def)

lemma round_to_results:
  assumes clock: "run_clock env" and at: "loop_at p i w job env k st"
    and cl: "claim_chunk job w (chunk_size s) (lease_ttl_seconds s) (en_claim_time env k) {} (ws_queue st) = (q1, chunk)"
    and ne: "chunk \<noteq> []"
  shows "pool_reach s rp dump be p (set_phase i
    (case fst (process_chunk s rp (en_rows env k) chunk m) of Inl e \<Rightarrow> Raised e | Inr rs \<Rightarrow> Flushing rs)
    (at_results s w env k q1 p))"
proof -
  have idle: "idle_at p i w job" and now: "po_now p \<le> en_claim_time env k" and db: "po_db p = ws_queue st"
    using at by (simp_all add: loop_at_def)
  have "fst (process_chunk s rp (en_rows env k) chunk m) = fst (process_chunk s rp (en_rows env k) chunk no_metrics)"
    by (simp add: process_chunk_results)
  then show ?thesis
    using round_process [OF idle run_clock_round(1) [OF clock now] cl [folded db] ne, of rp dump be "en_rows env k"]
    by (simp add: at_results_def beaten_def)
qed

text \<open>A round whose processing or flush raises ends the loop.\<close>

lemma round_raises:
  assumes clock: "run_clock env" and at: "loop_at p i w job env k st"
    and cl: "claim_chunk job w (chunk_size s) (lease_ttl_seconds s) (en_claim_time env k) {} (ws_queue st) = (q1, chunk)"
    and ne: "chunk \<noteq> []"
    and raised: "fst (process_chunk s rp (en_rows env k) chunk m) = Inl e \<or>
      (\<exists>rs. fst (process_chunk s rp (en_rows env k) chunk m) = Inr rs \<and>
         backend_write dump be job (en_chunk_id env k) rs (ws_store st) = Inl e)"
  shows "reaches_end s rp dump be p i (Inl e, st\<lparr>ws_queue := beaten s w env k q1, ws_metrics := m2\<rparr>)"
proof -
  let ?p = "at_results s w env k q1 p"
  note reach = round_to_results [OF clock at cl ne, of rp dump be m]
  from at have i: "i < length (po_workers p)" and sto: "po_store p = ws_store st"
    and me: "po_workers p ! i = \<lparr>pw_id = w, pw_job = job, pw_phase = Idle\<rparr>"
    and fresh: "\<not> has_chunk (ws_store st) job (en_chunk_id env k)" by (simp_all add: loop_at_def idle_at_def)
  from raised show ?thesis
  proof
    assume "fst (process_chunk s rp (en_rows env k) chunk m) = Inl e"
    with reach i sto show ?thesis
      by (intro reaches_end_now [where p' = "set_phase i (Raised e) ?p"])
        (simp_all add: end_phase_def others_kept_set_phase)
  next
    assume "\<exists>rs. fst (process_chunk s rp (en_rows env k) chunk m) = Inr rs \<and>
      backend_write dump be job (en_chunk_id env k) rs (ws_store st) = Inl e"
    then obtain rs where rs: "fst (process_chunk s rp (en_rows env k) chunk m) = Inr rs"
      and wr: "backend_write dump be job (en_chunk_id env k) rs (ws_store st) = Inl e" by blast
    let ?f = "set_phase i (Flushing rs) ?p"
    have "pool_reach s rp dump be ?f (set_phase i (Raised e) ?f)"
      using round_flush [of i ?f w job rs "en_chunk_id env k" s rp dump be] i me fresh sto wr by simp
    moreover have "pool_reach s rp dump be p ?f" using reach rs by simp
    ultimately have "pool_reach s rp dump be p (set_phase i (Raised e) ?f)" using pool_reach_trans by blast
    moreover have "others_kept i p (set_phase i (Raised e) ?f)"
      by (rule others_kept_next [OF others_kept_set_phase [of ?p p]]) simp_all
    ultimately show ?thesis using i sto
      by (intro reaches_end_now [where p' = "set_phase i (Raised e) ?f"]) (simp_all add: end_phase_def)
  qed
qed

text \<open>A round whose chunk is stored and committed leads to the next.\<close>

lemma round_commits:
  assumes clock: "run_clock env" and inj: "inj (en_chunk_id env)" and at: "loop_at p i w job env k st"
    and cl: "claim_chunk job w (chunk_size s) (lease_ttl_seconds s) (en_claim_time env k) {} (ws_queue st) = (q1, chunk)"
    and ne: "chunk \<noteq> []" and rs: "fst (process_chunk s rp (en_rows env k) chunk m) = Inr rs"
    and wr: "backend_write dump be job (en_chunk_id env k) rs (ws_store st) = Inr (store', ref)"
  shows "\<exists>p'. pool_reach s rp dump be p p' \<and> others_kept i p p' \<and> loop_at p' i w job env (Suc k)
    (st\<lparr>ws_queue := fst (complete_items w rs ref (en_commit_time env k) (beaten s w env k q1)),
        ws_store := store', ws_metrics := m2\<rparr>)"
proof -
  let ?tc = "en_commit_time env k" and ?f = "set_phase i (Flushing rs) (at_results s w env k q1 p)"
  let ?q3 = "fst (complete_items w rs ref ?tc (beaten s w env k q1))"
  let ?g = "set_phase i Idle (?f\<lparr>po_db := ?q3, po_store := store', po_now := ?tc\<rparr>)"
  from at have i: "i < length (po_workers p)" and sto: "po_store p = ws_store st"
    and me: "po_workers p ! i = \<lparr>pw_id = w, pw_job = job, pw_phase = Idle\<rparr>"
    and now: "po_now p \<le> en_claim_time env k"
    and fresh: "\<And>j. k \<le> j \<Longrightarrow> \<not> has_chunk (ws_store st) job (en_chunk_id env j)"
    by (simp_all add: loop_at_def idle_at_def)
  note times = run_clock_round [OF clock now]
  have "pool_reach s rp dump be p ?f" using round_to_results [OF clock at cl ne, of rp dump be m] rs by simp
  moreover have "pool_reach s rp dump be ?f ?g"
    using round_flush [of i ?f w job rs "en_chunk_id env k" s rp dump be ?tc] i me fresh [of k] sto wr times(2)
    by simp
  ultimately have "pool_reach s rp dump be p ?g" using pool_reach_trans by blast
  moreover have "others_kept i p ?g"
    by (rule others_kept_next [OF others_kept_set_phase [of "at_results s w env k q1 p" p]]) simp_all
  moreover have "\<not> has_chunk store' job (en_chunk_id env j)" if "Suc k \<le> j" for j
    using has_chunk_write [OF wr, of job "en_chunk_id env j"] that fresh [of j] injD [OF inj, of j k] by auto
  then have "loop_at ?g i w job env (Suc k) (st\<lparr>ws_queue := ?q3, ws_store := store', ws_metrics := m2\<rparr>)"
    using i me times(3) by (simp add: loop_at_def idle_at_def)
  ultimately show ?thesis by blast
qed

lemma worker_run_reaches:
  assumes clock: "run_clock env" and inj: "inj (en_chunk_id env)"
    and run: "worker_run (\<lambda>job w n l now. claim_chunk job w n l now {}) complete_items renew_lease
      (backend_write dump be) s rp env job w fuel k st = Some out"
    and at: "loop_at p i w job env k st"
  shows "reaches_end s rp dump be p i out"
  using run at
proof (induction fuel arbitrary: k st p)
  case (Suc fuel)
  note at = Suc.prems(2)
  obtain q1 chunk where cl: "claim_chunk job w (chunk_size s) (lease_ttl_seconds s) (en_claim_time env k) {}
      (ws_queue st) = (q1, chunk)" by fastforce
  show ?case
  proof (cases "chunk = []")
    case True
    have "out = (Inr (), st\<lparr>ws_queue := q1\<rparr>)" using Suc.prems(1) cl True by simp
    moreover have "pool_reach s rp dump be p (set_phase i Stopped (p\<lparr>po_db := q1, po_now := en_claim_time env k\<rparr>))"
      using round_claim [of p i w job "en_claim_time env k" s q1 chunk rp dump be] at cl True
      by (simp add: loop_at_def)
    ultimately show ?thesis using at
      by (auto simp: loop_at_def idle_at_def end_phase_def intro!: reaches_end_now others_kept_set_phase)
  next
    case False
    define m1 where "m1 = (ws_metrics st)\<lparr>m_chunks := m_chunks (ws_metrics st) + 1\<rparr>"
    obtain res m2 where pc: "process_chunk s rp (en_rows env k) chunk m1 = (res, m2)" by fastforce
    then have res: "fst (process_chunk s rp (en_rows env k) chunk m1) = res" by simp
    have step: "Some out = (case res of
        Inl e \<Rightarrow> Some (Inl e, st\<lparr>ws_queue := beaten s w env k q1, ws_metrics := m2\<rparr>)
      | Inr rs \<Rightarrow> (case backend_write dump be job (en_chunk_id env k) rs (ws_store st) of
           Inl e \<Rightarrow> Some (Inl e, st\<lparr>ws_queue := beaten s w env k q1, ws_metrics := m2\<rparr>)
         | Inr (store', ref) \<Rightarrow> worker_run (\<lambda>job w n l now. claim_chunk job w n l now {}) complete_items renew_lease
             (backend_write dump be) s rp env job w fuel (Suc k)
             (st\<lparr>ws_queue := fst (complete_items w rs ref (en_commit_time env k) (beaten s w env k q1)),
                 ws_store := store', ws_metrics := m2\<rparr>)))"
      using Suc.prems(1) cl False pc unfolding beaten_def by (simp add: m1_def Let_def)
    show ?thesis
    proof (cases "(\<exists>e. res = Inl e) \<or> (\<exists>rs e. res = Inr rs \<and>
        backend_write dump be job (en_chunk_id env k) rs (ws_store st) = Inl e)")
      case True
      then show ?thesis using step res by (auto intro!: round_raises [OF clock at cl False])
    next
      case ok: False
      then obtain rs store' ref where "res = Inr rs"
        and "backend_write dump be job (en_chunk_id env k) rs (ws_store st) = Inr (store', ref)"
        by (metis sum.exhaust surj_pair)
      with step res round_commits [OF clock inj at cl False, of rp m1 rs dump be store' ref m2] Suc.IH
      show ?thesis using reaches_end_step by fastforce
    qed
  qed
qed simp

section \<open>Property\<close>

text \<open>
  C12: The worker's loop refines the pool. Whatever the rows' environment, the clock readings in
  order and the chunk ids fresh, a run of the loop by the idle worker \<open>i\<close> of a pool whose other
  workers stand still is a run of the pool: it reaches a state with the same tables and the same
  files, in which the worker has stopped if the loop returned and has raised its exception if the
  loop raised, and no other worker has moved.
\<close>

theorem worker_run_is_pool_run:
  assumes "run_clock env" and "inj (en_chunk_id env)"
    and "i < length (po_workers p)" and "po_workers p ! i = \<lparr>pw_id = w, pw_job = job, pw_phase = Idle\<rparr>"
    and "po_now p \<le> en_claim_time env 0" and "\<And>k. \<not> has_chunk (po_store p) job (en_chunk_id env k)"
    and "worker_run (\<lambda>job w n l now. claim_chunk job w n l now {}) complete_items renew_lease
      (backend_write dump be) s rp env job w fuel 0 \<lparr>ws_queue = po_db p, ws_store = po_store p, ws_metrics = m\<rparr>
      = Some (r, st)"
  shows "\<exists>p'. pool_reach s rp dump be p p' \<and> po_db p' = ws_queue st \<and> po_store p' = ws_store st \<and>
    pw_phase (po_workers p' ! i) = (case r of Inl e \<Rightarrow> Raised e | Inr _ \<Rightarrow> Stopped) \<and>
    (\<forall>j < length (po_workers p). j \<noteq> i \<longrightarrow> po_workers p' ! j = po_workers p ! j)"
proof -
  have "loop_at p i w job env 0 \<lparr>ws_queue = po_db p, ws_store = po_store p, ws_metrics = m\<rparr>"
    using assms(3-6) by (simp add: loop_at_def idle_at_def)
  from worker_run_reaches [OF assms(1,2,7) this] show ?thesis
    by (auto simp: reaches_end_def others_kept_def end_phase_def)
qed

text \<open>The loop of the first of two workers over the two rows of \<open>demo_db\<close>.\<close>

definition loop_env :: run_env where
  "loop_env = \<lparr>en_claim_time = int, en_beats = (\<lambda>k. [int k]), en_commit_time = int, en_chunk_id = nat_str,
     en_rows = (\<lambda>k. ok_env)\<rparr>"

lemma loop_env_returns:
  "\<exists>st. worker_run (\<lambda>job w n l now. claim_chunk job w n l now {}) complete_items renew_lease
      (backend_write json_dump (LocalBackend [])) default_settings shipped_policy loop_env ''j'' ''w0'' 3 0
      \<lparr>ws_queue = po_db demo_pool, ws_store = po_store demo_pool, ws_metrics = no_metrics\<rparr> = Some (Inr (), st)"
proof -
  let ?st = "\<lparr>ws_queue = po_db demo_pool, ws_store = po_store demo_pool, ws_metrics = no_metrics\<rparr>"
  have "a < nat (retry_max_attempts default_settings) \<Longrightarrow>
      \<exists>d. delay_for shipped_policy a (re_draw (en_rows loop_env k c) a) = Inr d" for k c a
    by (rule delay_for_returns) (simp_all add: default_settings_def)
  moreover have "r \<in> set (items demo_db) \<Longrightarrow> i_status r \<noteq> I_CLAIMED" for r
    by (auto simp: demo_db_def demo_row_def)
  moreover have "length (items demo_db) < 3" by (simp add: demo_db_def)
  ultimately show ?thesis
    using lone_worker_returns [of ?st "''j''" default_settings 3 shipped_policy loop_env json_dump "''w0''"] demo_db_wf
    by (auto simp: demo_pool_def default_settings_def local_store_def)
qed

theorem worker_run_is_pool_run_witness:
  "\<exists>p st. worker_run (\<lambda>job w n l now. claim_chunk job w n l now {}) complete_items renew_lease
      (backend_write json_dump (LocalBackend [])) default_settings shipped_policy loop_env ''j'' ''w0'' 3 0
      \<lparr>ws_queue = po_db demo_pool, ws_store = po_store demo_pool, ws_metrics = no_metrics\<rparr> = Some (Inr (), st) \<and>
    pool_reach default_settings shipped_policy json_dump (LocalBackend []) demo_pool p \<and>
    po_db p = ws_queue st \<and> pw_phase (po_workers p ! 0) = Stopped \<and> pw_phase (po_workers p ! 1) = Idle"
proof -
  obtain st where run: "worker_run (\<lambda>job w n l now. claim_chunk job w n l now {}) complete_items renew_lease
      (backend_write json_dump (LocalBackend [])) default_settings shipped_policy loop_env ''j'' ''w0'' 3 0
      \<lparr>ws_queue = po_db demo_pool, ws_store = po_store demo_pool, ws_metrics = no_metrics\<rparr> = Some (Inr (), st)"
    using loop_env_returns by blast
  have "run_clock loop_env" by (simp add: run_clock_def loop_env_def)
  moreover have "inj (en_chunk_id loop_env)" by (simp add: loop_env_def inj_def)
  moreover have "po_workers demo_pool ! 0 = \<lparr>pw_id = ''w0'', pw_job = ''j'', pw_phase = Idle\<rparr>"
    "0 < length (po_workers demo_pool)" "po_now demo_pool \<le> en_claim_time loop_env 0"
    "\<not> has_chunk (po_store demo_pool) ''j'' (en_chunk_id loop_env k)" for k
    by (simp_all add: demo_pool_def loop_env_def has_chunk_def)
  ultimately obtain p where "pool_reach default_settings shipped_policy json_dump (LocalBackend []) demo_pool p"
    "po_db p = ws_queue st" "pw_phase (po_workers p ! 0) = Stopped"
    "\<forall>j < length (po_workers demo_pool). j \<noteq> 0 \<longrightarrow> po_workers p ! j = po_workers demo_pool ! j"
    using worker_run_is_pool_run [OF _ _ _ _ _ _ run, of 0] by auto
  then show ?thesis using run by (auto simp: demo_pool_def)
qed

end
