(* ===== verification/EngineDup.thy ===== *)
theory EngineDup
  imports EngineProps
begin

text \<open>
  Results are stored at least once, not exactly once: a worker that dies between the flush and the
  commit leaves its chunk in the store, and whoever takes its rows over stores them again under
  another chunk id.
\<close>

lemma chunk_ref_inject: "chunk_ref job cid = chunk_ref job cid' \<longleftrightarrow> cid = cid'"
  by (simp add: chunk_ref_def chunk_file_def)

section \<open>References are used once\<close>

text \<open>The workers of a job that are about to commit a reference, and whether a row carries it.\<close>

definition committers :: "uuid \<Rightarrow> string \<Rightarrow> pool \<Rightarrow> nat set" where
  "committers job ref p =
     {j. \<exists>rs. phase_of p j = Some (Committing rs ref) \<and> pw_job (po_workers p ! j) = job}"

definition carried :: "uuid \<Rightarrow> string \<Rightarrow> pool \<Rightarrow> bool" where
  "carried job ref p \<longleftrightarrow> (\<exists>e st. queue_view (po_db p) job e = Some (Finished st (Some ref)))"

text \<open>A reference that is still to be committed has one committer and no row.\<close>

definition refs_ok :: "pool \<Rightarrow> bool" where
  "refs_ok p \<longleftrightarrow> (\<forall>job ref. \<forall>j \<in> committers job ref p. committers job ref p = {j} \<and> \<not> carried job ref p)"

lemma committers_set_phase:
  assumes "po_workers q = po_workers p"
  shows "committers job ref (set_phase i ph q) =
    (committers job ref p - {i}) \<union>
    (if i < length (po_workers p) \<and> pw_job (po_workers p ! i) = job \<and> (\<exists>rs. ph = Committing rs ref) then {i} else {})"
proof (rule set_eqI)
  show "x \<in> committers job ref (set_phase i ph q) \<longleftrightarrow> x \<in> (committers job ref p - {i}) \<union>
    (if i < length (po_workers p) \<and> pw_job (po_workers p ! i) = job \<and> (\<exists>rs. ph = Committing rs ref) then {i} else {})" for x
    by (cases "x = i") (auto simp: committers_def phase_of_Some set_phase_def assms)
qed

lemma committers_keep: "po_workers q = po_workers p \<Longrightarrow> committers job ref q = committers job ref p"
  by (simp add: committers_def phase_of_def)

lemma carried_set_phase [simp]: "carried job ref (set_phase i ph q) = carried job ref q"
  by (simp add: carried_def)

lemma has_chunk_stored: "((job, chunk_file cid), payload) \<in> set st \<Longrightarrow> has_chunk st job cid"
  unfolding has_chunk_def by (metis fst_conv imageI)

lemma stored_committer:
  "pool_inv s dump p \<Longrightarrow> j \<in> committers job ref p \<Longrightarrow> \<exists>cid. ref = chunk_ref job cid \<and> has_chunk (po_store p) job cid"
  using commit_facts(2) has_chunk_stored unfolding committers_def by blast

lemma stored_carried:
  "pool_inv s dump p \<Longrightarrow> carried job ref p \<Longrightarrow> \<exists>cid. ref = chunk_ref job cid \<and> has_chunk (po_store p) job cid"
  using has_chunk_stored unfolding carried_def pool_inv_def durable_def stored_result_def by blast

text \<open>
  One step: for a chunk already stored, no committer is added, and a row gets its reference only from
  a committer that is then done.
\<close>

text \<open>
  What a step may do to a reference: no worker starts to commit under it, and it appears in a row only
  by the commit of such a worker.
\<close>

definition ref_step :: "uuid \<Rightarrow> string \<Rightarrow> pool \<Rightarrow> pool \<Rightarrow> bool" where
  "ref_step job ref p p' \<longleftrightarrow> committers job ref p' \<subseteq> committers job ref p \<and>
     (carried job ref p' \<longrightarrow> carried job ref p \<or> (\<exists>j \<in> committers job ref p. j \<notin> committers job ref p'))"

lemma claim_ref_step:
  assumes wf: "db_wf (po_db p)" and i: "phase_of p i = Some Idle"
  shows "ref_step job ref p (claim_step s i p)"
proof -
  obtain db' chunk where cl: "claim_chunk (pw_job (po_workers p ! i)) (pw_id (po_workers p ! i)) (chunk_size s)
      (lease_ttl_seconds s) (po_now p) {} (po_db p) = (db', chunk)" by fastforce
  from claim_view [OF wf, of "pw_job (po_workers p ! i)" "pw_id (po_workers p ! i)" "chunk_size s"
      "lease_ttl_seconds s" "po_now p" "{}" job]
  have "carried job ref (p\<lparr>po_db := db'\<rparr>) \<longrightarrow> carried job ref p"
    by (auto simp: carried_def cl split: if_splits)
  then show ?thesis using i
    by (auto simp: ref_step_def claim_step_def Let_def cl committers_set_phase [of "p\<lparr>po_db := db'\<rparr>" p] split: if_splits)
qed

lemma flush_ref_step:
  assumes ph: "phase_of p i = Some (Flushing rs)"
    and fresh: "\<not> has_chunk (po_store p) (pw_job (po_workers p ! i)) cid'"
    and sto: "has_chunk (po_store p) job cid"
  shows "ref_step job (chunk_ref job cid) p (flush_step dump be i rs cid' p)"
proof (cases be)
  case (LocalBackend dir)
  let ?q = "p\<lparr>po_store := put_file (pw_job (po_workers p ! i), chunk_file cid') (chunk_payload dump rs) (po_store p)\<rparr>"
  have "pw_job (po_workers p ! i) = job \<Longrightarrow> chunk_ref job cid \<noteq> chunk_ref (pw_job (po_workers p ! i)) cid'"
    using fresh sto by (auto simp: chunk_ref_inject)
  moreover have "carried job ref ?q = carried job ref p" for ref by (simp add: carried_def)
  ultimately show ?thesis using ph
    by (auto simp: ref_step_def flush_step_def LocalBackend write_chunk_def committers_set_phase [of ?q p])
next
  case S3Backend
  then show ?thesis using ph by (auto simp: ref_step_def flush_step_def committers_set_phase [of p p])
qed

lemma commit_ref_step:
  assumes inv: "pool_inv s dump p" and ph: "phase_of p i = Some (Committing rs r)"
  shows "ref_step job ref p (commit_step i rs r p)"
proof -
  note facts = commit_facts [OF inv ph]
  have com: "committers job ref (commit_step i rs r p) = committers job ref p - {i}"
    using committers_set_phase [of "p\<lparr>po_db := commit_db i rs r p\<rparr>" p job ref i Idle]
    by (simp add: commit_step_def commit_db_def)
  have "carried job ref (commit_step i rs r p) \<Longrightarrow> carried job ref p \<or> i \<in> committers job ref p"
  proof -
    assume "carried job ref (commit_step i rs r p)"
    then obtain e st where "queue_view (commit_db i rs r p) job e = Some (Finished st (Some ref))"
      by (auto simp: carried_def commit_step_def commit_db_def)
    then obtain u where u: "queue_view (po_db p) job e = Some u"
      "finish_view (pw_id (po_workers p ! i)) rs r e u = Finished st (Some ref)" using facts(3) by auto
    show ?thesis
    proof (cases "u = Held (pw_id (po_workers p ! i))")
      case True
      with u have "r = ref" by (auto simp: finish_view_def split: option.splits)
      with True u facts(4) [of job e] ph show ?thesis by (simp add: committers_def)
    next
      case False
      with u show ?thesis by (auto simp: finish_view_def carried_def)
    qed
  qed
  then show ?thesis using com by (auto simp: ref_step_def)
qed

lemma step_stored_ref:
  assumes inv: "pool_inv s dump p" and step: "pool_step s rp dump be a p = Some p'"
    and sto: "has_chunk (po_store p) job cid"
  shows "ref_step job (chunk_ref job cid) p p'"
proof (cases a)
  case (Claim i)
  with step inv show ?thesis by (auto simp: pool_inv_def claim_ref_step split: if_splits)
next
  case (Process i env)
  with step show ?thesis
    by (auto simp: ref_step_def process_step_def committers_set_phase [of p p]
        split: option.splits phase.splits if_splits sum.splits)
next
  case (Flush i cid')
  with step sto show ?thesis by (auto simp: flush_ref_step split: option.splits phase.splits if_splits)
next
  case (Commit i)
  with step show ?thesis by (auto simp: commit_ref_step [OF inv] split: option.splits phase.splits)
next
  case (Beat i)
  then have p': "p' = beat_step s i p" using step by (simp split: option.splits phase.splits)
  have "committers job ref p' = committers job ref p" for ref
    by (rule committers_keep) (simp add: p' beat_step_def)
  then show ?thesis by (simp add: ref_step_def p' beat_step_def carried_def renew_view)
next
  case (Tick d)
  then have p': "p' = p\<lparr>po_now := po_now p + int d\<rparr>" using step by simp
  have "committers job ref p' = committers job ref p" for ref by (rule committers_keep) (simp add: p')
  then show ?thesis by (simp add: ref_step_def p' carried_def)
next
  case (Crash i)
  with step show ?thesis by (auto simp: ref_step_def committers_set_phase [of p p] split: option.splits if_splits)
qed

text \<open>A committer is added only by a flush, with a reference not used before.\<close>

lemma committers_set_idle:
  "po_workers q = po_workers p \<Longrightarrow> (\<And>rs. ph \<noteq> Committing rs ref) \<Longrightarrow>
    committers job ref (set_phase i ph q) \<subseteq> committers job ref p"
  by (auto simp: committers_set_phase [of q p])

lemma step_committers:
  assumes step: "pool_step s rp dump be a p = Some p'" and no_flush: "\<And>i cid. a \<noteq> Flush i cid"
  shows "committers job ref p' \<subseteq> committers job ref p"
proof (cases a)
  case (Claim i)
  obtain db' chunk where cl: "claim_chunk (pw_job (po_workers p ! i)) (pw_id (po_workers p ! i)) (chunk_size s)
      (lease_ttl_seconds s) (po_now p) {} (po_db p) = (db', chunk)" by fastforce
  have "p' = claim_step s i p" using step Claim by (simp split: if_splits)
  then have "p' = set_phase i (if chunk = [] then Stopped else Busy chunk) (p\<lparr>po_db := db'\<rparr>)"
    by (simp only: claim_step_def Let_def cl prod.case)
  then show ?thesis by (simp only:, intro committers_set_idle) simp_all
next
  case (Process i env)
  then obtain chunk where "p' = process_step s rp i chunk env p" using step by (auto split: option.splits phase.splits)
  then show ?thesis
    by (simp only: process_step_def, intro committers_set_idle) (simp_all split: sum.split)
next
  case (Commit i)
  then obtain rs r where "p' = commit_step i rs r p" using step by (auto split: option.splits phase.splits)
  then show ?thesis by (simp only: commit_step_def, intro committers_set_idle) simp_all
next
  case (Beat i)
  then have "p' = beat_step s i p" using step by (simp split: option.splits phase.splits)
  then have "committers job ref p' = committers job ref p" by (intro committers_keep) (simp add: beat_step_def)
  then show ?thesis by simp
next
  case (Tick d)
  then have "committers job ref p' = committers job ref p" using step by (intro committers_keep) auto
  then show ?thesis by simp
next
  case (Crash i)
  then have "p' = set_phase i Crashed p" using step by (simp split: option.splits if_splits)
  then show ?thesis by (simp only:, intro committers_set_idle) simp_all
qed (use no_flush in simp)

lemma step_new_committer:
  assumes step: "pool_step s rp dump be a p = Some p'" and new: "j \<in> committers job ref p'" "j \<notin> committers job ref p"
  shows "\<exists>cid. ref = chunk_ref job cid \<and> \<not> has_chunk (po_store p) job cid \<and>
    committers job ref p' = insert j (committers job ref p) \<and> carried job ref p' = carried job ref p"
proof -
  obtain i cid where a: "a = Flush i cid" using step_committers [OF step] new by blast
  with step obtain rs where p': "p' = flush_step dump be i rs cid p"
    and fresh: "\<not> has_chunk (po_store p) (pw_job (po_workers p ! i)) cid"
    by (auto split: option.splits phase.splits if_splits)
  show ?thesis
  proof (cases be)
    case (LocalBackend dir)
    define q where "q = p\<lparr>po_store := put_file (pw_job (po_workers p ! i), chunk_file cid) (chunk_payload dump rs) (po_store p)\<rparr>"
    have q: "po_workers q = po_workers p" "carried job ref q = carried job ref p" by (simp_all add: q_def carried_def)
    have p': "p' = set_phase i (Committing rs (chunk_ref (pw_job (po_workers p ! i)) cid)) q"
      by (simp add: p' flush_step_def LocalBackend write_chunk_def q_def)
    show ?thesis
      using new fresh by (auto simp: p' q committers_set_phase [OF q(1)] split: if_splits)
  next
    case S3Backend
    with new show ?thesis by (auto simp: p' flush_step_def committers_set_phase [of p p] split: if_splits)
  qed
qed

lemma refs_ok_step:
  assumes inv: "pool_inv s dump p" and step: "pool_step s rp dump be a p = Some p'" and ok: "refs_ok p"
  shows "refs_ok p'"
  unfolding refs_ok_def
proof (intro allI ballI)
  fix job ref j
  assume j: "j \<in> committers job ref p'"
  show "committers job ref p' = {j} \<and> \<not> carried job ref p'"
  proof (cases "j \<in> committers job ref p")
    case True
    then obtain cid where "ref = chunk_ref job cid" "has_chunk (po_store p) job cid"
      using stored_committer [OF inv] by blast
    then have once: "ref_step job ref p p'" using step_stored_ref [OF inv step] by simp
    have own: "committers job ref p = {j}" "\<not> carried job ref p" using ok True by (auto simp: refs_ok_def)
    with once j have "committers job ref p' = {j}" by (auto simp: ref_step_def)
    with once own show ?thesis by (auto simp: ref_step_def)
  next
    case False
    from step_new_committer [OF step j this] obtain cid where cid: "ref = chunk_ref job cid"
      "\<not> has_chunk (po_store p) job cid" and new: "committers job ref p' = insert j (committers job ref p)"
      "carried job ref p' = carried job ref p" by blast
    have "committers job ref p = {}" using stored_committer [OF inv] cid by (fastforce simp: chunk_ref_inject)
    moreover have "\<not> carried job ref p" using stored_carried [OF inv] cid by (fastforce simp: chunk_ref_inject)
    ultimately show ?thesis using new by simp
  qed
qed

lemma refs_ok_start: "pool_start dump p \<Longrightarrow> refs_ok p"
  by (auto simp: refs_ok_def committers_def pool_start_def list_all_length phase_of_Some)

lemma refs_ok_reach:
  "pool_reach s rp dump be p0 p \<Longrightarrow> pool_start dump p0 \<Longrightarrow> refs_ok p"
  by (induction rule: pool_reach.induct) (auto intro: refs_ok_start refs_ok_step reach_from_start)

section \<open>Orphaned chunks\<close>

text \<open>A stored chunk whose reference nobody will commit and no row carries.\<close>

definition orphaned :: "dumper \<Rightarrow> uuid \<Rightarrow> string \<Rightarrow> result_record list \<Rightarrow> pool \<Rightarrow> bool" where
  "orphaned dump job cid rs p \<longleftrightarrow> ((job, chunk_file cid), chunk_payload dump rs) \<in> set (po_store p) \<and>
     committers job (chunk_ref job cid) p = {} \<and> \<not> carried job (chunk_ref job cid) p"

lemma pool_step_store:
  "pool_step s rp dump be a p = Some p' \<Longrightarrow> set (po_store p) \<subseteq> set (po_store p')"
proof (cases a)
  case (Flush i cid)
  assume "pool_step s rp dump be a p = Some p'"
  with Flush show ?thesis
    by (cases be) (auto simp: flush_step_def write_chunk_def has_chunk_def put_file_fresh
        split: option.splits phase.splits if_splits)
qed (auto simp: claim_step_def process_step_def commit_step_def beat_step_def Let_def
    split: option.splits phase.splits if_splits prod.splits sum.splits)

lemma orphaned_step:
  assumes inv: "pool_inv s dump p" and step: "pool_step s rp dump be a p = Some p'" and orph: "orphaned dump job cid rs p"
  shows "orphaned dump job cid rs p'"
proof -
  have "has_chunk (po_store p) job cid" using orph has_chunk_stored by (auto simp: orphaned_def)
  from step_stored_ref [OF inv step this] orph pool_step_store [OF step] show ?thesis
    unfolding orphaned_def ref_step_def by blast
qed

lemma orphaned_reach:
  "pool_reach s rp dump be p p' \<Longrightarrow> pool_inv s dump p \<Longrightarrow> orphaned dump job cid rs p \<Longrightarrow> orphaned dump job cid rs p'"
  by (induction rule: pool_reach.induct) (auto intro: orphaned_step pool_reach_inv)

lemma crashed_commit_orphans:
  assumes inv: "pool_inv s dump p" and ok: "refs_ok p" and ph: "phase_of p i = Some (Committing rs ref)"
  shows "\<exists>cid. ref = chunk_ref (pw_job (po_workers p ! i)) cid \<and>
    orphaned dump (pw_job (po_workers p ! i)) cid rs (set_phase i Crashed p)"
proof -
  obtain cid where cid: "ref = chunk_ref (pw_job (po_workers p ! i)) cid"
    "((pw_job (po_workers p ! i), chunk_file cid), chunk_payload dump rs) \<in> set (po_store p)"
    using commit_facts(2) [OF inv ph] by blast
  have "i \<in> committers (pw_job (po_workers p ! i)) ref p" using ph by (simp add: committers_def)
  with ok have "committers (pw_job (po_workers p ! i)) ref p = {i}" "\<not> carried (pw_job (po_workers p ! i)) ref p"
    by (auto simp: refs_ok_def)
  then show ?thesis using cid by (auto simp: orphaned_def committers_set_phase [of p p])
qed

lemma carried_row:
  assumes "db_wf (po_db p)" and "r \<in> set (items (po_db p))" and "is_terminal (i_status r)"
  shows "queue_view (po_db p) (i_job_id r) (i_external_id r) = Some (Finished (i_status r) (i_result_ref r))"
  using lookup_item_wf [OF assms(1,2)] assms(3) by (simp add: queue_view_def view_row_terminal)

section \<open>The property\<close>

text \<open>
  C9: Delivery of results is at least once: when a worker dies after it has written its chunk and
  before its commit, every row of that chunk that is ever finished (by whoever takes it over) has
  a record in the dead worker's chunk and another one in a different chunk object of the same job,
  and both objects stay in the store, so a download has the row twice.
\<close>

theorem crashed_commit_leaves_duplicate:
  assumes "pool_start dump p0" and "pool_reach s rp dump be p0 p"
    and "phase_of p i = Some (Committing rs ref)"
    and "pool_reach s rp dump be (set_phase i Crashed p) p'"
    and "r \<in> set (items (po_db p'))" and "i_job_id r = pw_job (po_workers p ! i)"
    and "is_terminal (i_status r)" and "i_result_ref r = Some ref'"
    and "i_external_id r \<in> rr_external_id ` set rs"
  shows "\<exists>cid cid' rs'. cid \<noteq> cid' \<and>
    ((i_job_id r, chunk_file cid), chunk_payload dump rs) \<in> set (po_store p') \<and>
    ((i_job_id r, chunk_file cid'), chunk_payload dump rs') \<in> set (po_store p') \<and>
    i_external_id r \<in> rr_external_id ` set rs \<inter> rr_external_id ` set rs'"
proof -
  have inv: "pool_inv s dump p" by (rule reach_from_start [OF assms(1,2)])
  obtain cid where orph: "orphaned dump (i_job_id r) cid rs (set_phase i Crashed p)"
    using crashed_commit_orphans [OF inv refs_ok_reach [OF assms(2,1)] assms(3)] assms(6) by auto
  have "pool_step s rp dump be (Crash i) p = Some (set_phase i Crashed p)" using assms(3) by simp
  from reach_from_start [OF assms(1) reach_step [OF assms(2) this]]
  have inv1: "pool_inv s dump (set_phase i Crashed p)" .
  from orphaned_reach [OF assms(4) inv1 orph] have orph': "orphaned dump (i_job_id r) cid rs p'" .
  from pool_reach_inv [OF assms(4) inv1] have inv': "pool_inv s dump p'" .
  have view: "queue_view (po_db p') (i_job_id r) (i_external_id r) = Some (Finished (i_status r) (Some ref'))"
    using carried_row [OF _ assms(5,7)] inv' assms(8) by (simp add: pool_inv_def)
  then have "stored_result dump (po_store p') (i_job_id r) (i_external_id r) (i_status r) ref'"
    using inv' by (simp add: pool_inv_def durable_def)
  then obtain cid' rs' where "ref' = chunk_ref (i_job_id r) cid'" "i_external_id r \<in> rr_external_id ` set rs'"
    "((i_job_id r, chunk_file cid'), chunk_payload dump rs') \<in> set (po_store p')"
    unfolding stored_result_def by (metis imageI)
  moreover from this view orph' have "cid \<noteq> cid'" by (auto simp: orphaned_def carried_def)
  ultimately show ?thesis using orph' assms(9) unfolding orphaned_def by blast
qed

text \<open>The first worker dies before its commit, its lease ends, the second one does the row again.\<close>

definition demo_flushed :: "action list" where
  "demo_flushed = [Claim 0, Process 0 ok_env, Flush 0 ''c'']"

definition demo_takeover :: "nat \<Rightarrow> action list" where
  "demo_takeover d = [Tick d, Claim 1, Process 1 ok_env, Flush 1 ''d'', Commit 1]"

lemma demo_takeover_run:
  "lease_end 0 120 < int d \<Longrightarrow>
   \<exists>p. demo_run demo_flushed = Some p \<and> pw_job (po_workers p ! 0) = ''j'' \<and>
     (\<exists>rs. phase_of p 0 = Some (Committing rs (chunk_ref ''j'' ''c'')) \<and> ''a'' \<in> rr_external_id ` set rs) \<and>
     (\<exists>p'. pool_runs default_settings shipped_policy json_dump (LocalBackend []) (demo_takeover d) (set_phase 0 Crashed p) = Some p' \<and>
       (\<exists>r \<in> set (items (po_db p')). i_job_id r = ''j'' \<and> i_external_id r = ''a'' \<and>
         is_terminal (i_status r) \<and> i_result_ref r = Some (chunk_ref ''j'' ''d'')))"
  unfolding demo_run_def demo_flushed_def demo_takeover_def
  by (simp add: run_eval chunk_file_def)

theorem crashed_commit_leaves_duplicate_witness:
  "\<exists>p p' cid cid' rs rs'. demo_run demo_flushed = Some p \<and>
     pool_runs default_settings shipped_policy json_dump (LocalBackend []) (demo_takeover 200000000) (set_phase 0 Crashed p) = Some p' \<and>
     cid \<noteq> cid' \<and> ((''j'', chunk_file cid), chunk_payload json_dump rs) \<in> set (po_store p') \<and>
     ((''j'', chunk_file cid'), chunk_payload json_dump rs') \<in> set (po_store p') \<and>
     ''a'' \<in> rr_external_id ` set rs \<inter> rr_external_id ` set rs'"
proof -
  have ended: "lease_end 0 120 < int 200000000" by (simp add: lease_end_def)
  obtain p rs p' r where run: "demo_run demo_flushed = Some p"
    and ph: "phase_of p 0 = Some (Committing rs (chunk_ref ''j'' ''c''))"
    and over: "pool_runs default_settings shipped_policy json_dump (LocalBackend []) (demo_takeover 200000000) (set_phase 0 Crashed p) = Some p'"
    and r: "r \<in> set (items (po_db p'))" "i_job_id r = pw_job (po_workers p ! 0)" "is_terminal (i_status r)"
      "i_result_ref r = Some (chunk_ref ''j'' ''d'')" "i_external_id r \<in> rr_external_id ` set rs"
    and cols: "i_job_id r = ''j''" "i_external_id r = ''a''"
    using demo_takeover_run [of 200000000] ended by metis
  from crashed_commit_leaves_duplicate [OF demo_pool_start demo_run_reach [OF run] ph
      pool_runs_reach [OF over] r] run over
  show ?thesis unfolding cols by blast
qed

end
