(* ===== verification/EngineOnce.thy ===== *)
theory EngineOnce
  imports EngineProps
begin

text \<open>
  When results are stored exactly once: in runs where no worker dies between flush and commit and no
  lease ends while its worker still works on the rows.
\<close>

section \<open>Calm runs\<close>

definition holding :: "phase \<Rightarrow> bool" where
  "holding ph \<longleftrightarrow> (case ph of Busy chunk \<Rightarrow> True | Flushing rs \<Rightarrow> True | Committing rs ref \<Rightarrow> True | _ \<Rightarrow> False)"

fun calm :: "action \<Rightarrow> pool \<Rightarrow> bool" where
  "calm (Claim i) p \<longleftrightarrow> list_all (\<lambda>r. i_status r = I_CLAIMED \<and> claimable (po_now p) r \<longrightarrow>
     list_all (\<lambda>w. i_worker_id r = Some (pw_id w) \<longrightarrow> \<not> holding (pw_phase w)) (po_workers p)) (items (po_db p))"
| "calm (Crash i) p \<longleftrightarrow> (case phase_of p i of Some (Committing rs ref) \<Rightarrow> False | _ \<Rightarrow> True)"
| "calm _ p \<longleftrightarrow> True"

inductive calm_reach :: "settings \<Rightarrow> retry_policy \<Rightarrow> dumper \<Rightarrow> backend \<Rightarrow> pool \<Rightarrow> pool \<Rightarrow> bool"
  for s rp dump be p0 where
  calm_start: "calm_reach s rp dump be p0 p0"
| calm_step: "calm_reach s rp dump be p0 p \<Longrightarrow> calm a p \<Longrightarrow> pool_step s rp dump be a p = Some p' \<Longrightarrow>
    calm_reach s rp dump be p0 p'"

lemma calm_reach_pool: "calm_reach s rp dump be p0 p \<Longrightarrow> pool_reach s rp dump be p0 p"
  by (induction rule: calm_reach.induct) (auto intro: reach_start reach_step)

section \<open>What is in hand is held\<close>

definition hands_ok :: "pool \<Rightarrow> bool" where
  "hands_ok p \<longleftrightarrow> (\<forall>i ids. i < length (po_workers p) \<longrightarrow> in_hand (pw_phase (po_workers p ! i)) = Some ids \<longrightarrow>
     distinct ids \<and>
     (\<forall>e \<in> set ids. queue_view (po_db p) (pw_job (po_workers p ! i)) e = Some (Held (pw_id (po_workers p ! i)))))"

lemma hands_okD:
  "hands_ok p \<Longrightarrow> phase_of p i = Some ph \<Longrightarrow> in_hand ph = Some ids \<Longrightarrow> distinct ids \<and>
     (\<forall>e \<in> set ids. queue_view (po_db p) (pw_job (po_workers p ! i)) e = Some (Held (pw_id (po_workers p ! i))))"
  by (auto simp: hands_ok_def phase_of_Some)

lemma holding_hand: "in_hand ph = Some ids \<Longrightarrow> e \<in> set ids \<Longrightarrow> holding ph"
  by (cases ph) (auto simp: holding_def)

lemma hands_ok_keep:
  assumes "hands_ok p" and "po_workers q = po_workers p" and "\<And>job e. queue_view (po_db q) job e = queue_view (po_db p) job e"
  shows "hands_ok q"
  using assms by (simp add: hands_ok_def)

lemma hands_ok_set_phase:
  assumes "hands_ok q" and "i < length (po_workers q) \<Longrightarrow> in_hand ph = None \<or> in_hand ph = Some [] \<or> in_hand ph = in_hand (pw_phase (po_workers q ! i))"
  shows "hands_ok (set_phase i ph q)"
  using assms unfolding hands_ok_def by (auto; metis)

text \<open>A row in somebody's hand is not claimed in a calm run.\<close>

lemma calm_claim_leaves_hands:
  assumes wf: "db_wf (po_db p)" and hands: "hands_ok p" and calm: "calm (Claim i) p"
    and j: "phase_of p j = Some ph" "in_hand ph = Some ids" "e \<in> set ids"
  shows "e \<notin> set (map ci_external_id (snd (claim_chunk (pw_job (po_workers p ! j)) w n l (po_now p) locked (po_db p))))"
proof
  assume "e \<in> set (map ci_external_id (snd (claim_chunk (pw_job (po_workers p ! j)) w n l (po_now p) locked (po_db p))))"
  then obtain r where r: "r \<in> set (claim_select (pw_job (po_workers p ! j)) n (po_now p) locked (po_db p))"
    and e: "i_external_id r = e" unfolding claimed_external_ids by auto
  note el = claim_select_set [OF wf r]
  have "queue_view (po_db p) (pw_job (po_workers p ! j)) e = Some (view_row r)"
    using lookup_item_wf [OF wf el(1)] el(2) e by (simp add: queue_view_def eligible_def)
  then have held: "view_row r = Held (pw_id (po_workers p ! j))" using hands_okD [OF hands j(1,2)] j(3) by simp
  then have "i_status r = I_CLAIMED" "i_worker_id r = Some (pw_id (po_workers p ! j))"
    using db_wf_row [OF wf el(1)] by (cases "i_status r"; auto simp: view_row_def row_wf_def split: option.splits)+
  moreover have "po_workers p ! j \<in> set (po_workers p)" "pw_phase (po_workers p ! j) = ph" using j(1) by (auto simp: phase_of_Some)
  ultimately have "\<not> holding ph" using calm el by (auto simp: list_all_iff eligible_def)
  with holding_hand [OF j(2,3)] show False by simp
qed

lemma hands_ok_claim:
  assumes inv: "pool_inv s dump p" and hands: "hands_ok p" and "calm (Claim i) p"
    and i: "phase_of p i = Some Idle" and "p' = claim_step s i p"
  shows "hands_ok p'"
proof -
  obtain db' chunk where cl: "claim_chunk (pw_job (po_workers p ! i)) (pw_id (po_workers p ! i)) (chunk_size s)
      (lease_ttl_seconds s) (po_now p) {} (po_db p) = (db', chunk)" by fastforce
  define ph where "ph = (if chunk = [] then Stopped else Busy chunk)"
  have p': "p' = set_phase i ph (p\<lparr>po_db := db'\<rparr>)" by (simp add: assms(5) claim_step_def Let_def cl ph_def)
  have wf: "db_wf (po_db p)" using inv by (simp add: pool_inv_def)
  have view: "queue_view db' job e = (if job = pw_job (po_workers p ! i) \<and> e \<in> set (map ci_external_id chunk)
      then Some (Held (pw_id (po_workers p ! i))) else queue_view (po_db p) job e)" for job e
    using claim_view [OF wf, of "pw_job (po_workers p ! i)" "pw_id (po_workers p ! i)" "chunk_size s"
        "lease_ttl_seconds s" "po_now p" "{}" job e] by (simp add: cl)
  have mine: "in_hand ph = Some (map ci_external_id chunk)" by (simp add: ph_def)
  have dist: "distinct (map ci_external_id chunk)"
    using claim_external_ids_distinct [OF wf] claimed_external_ids cl by (metis snd_conv)
  show ?thesis unfolding hands_ok_def
  proof (intro allI impI)
    fix j ids
    assume j: "j < length (po_workers p')" and ids: "in_hand (pw_phase (po_workers p' ! j)) = Some ids"
    show "distinct ids \<and> (\<forall>e \<in> set ids. queue_view (po_db p') (pw_job (po_workers p' ! j)) e = Some (Held (pw_id (po_workers p' ! j))))"
    proof (cases "j = i")
      case True
      then have "ids = map ci_external_id chunk" using j ids mine by (simp add: p')
      with True j dist show ?thesis by (simp add: p' view)
    next
      case False
      then have ph: "phase_of p j = Some (pw_phase (po_workers p ! j))" and ids': "in_hand (pw_phase (po_workers p ! j)) = Some ids"
        using j ids by (simp_all add: p' phase_of_Some)
      note old = hands_okD [OF hands ph ids']
      have "e \<notin> set (map ci_external_id chunk)" if "e \<in> set ids" "pw_job (po_workers p ! j) = pw_job (po_workers p ! i)" for e
        using calm_claim_leaves_hands [OF wf hands _ ph ids' that(1), of i "pw_id (po_workers p ! i)" "chunk_size s"
            "lease_ttl_seconds s" "{}"] assms(3) cl that(2) by simp
      with old False j show ?thesis by (auto simp: p' view)
    qed
  qed
qed

lemma hands_ok_commit:
  assumes inv: "pool_inv s dump p" and hands: "hands_ok p"
    and ph: "phase_of p i = Some (Committing rs ref)" and "p' = commit_step i rs ref p"
  shows "hands_ok p'"
proof -
  have p': "p' = set_phase i Idle (p\<lparr>po_db := commit_db i rs ref p\<rparr>)" by (simp add: assms(4) commit_step_def commit_db_def)
  have crew: "crew_distinct p" using inv by (simp add: pool_inv_def)
  show ?thesis unfolding hands_ok_def
  proof (intro allI impI)
    fix j ids
    assume j: "j < length (po_workers p')" and ids: "in_hand (pw_phase (po_workers p' ! j)) = Some ids"
    show "distinct ids \<and> (\<forall>e \<in> set ids. queue_view (po_db p') (pw_job (po_workers p' ! j)) e = Some (Held (pw_id (po_workers p' ! j))))"
    proof (cases "j = i")
      case False
      then have ph': "phase_of p j = Some (pw_phase (po_workers p ! j))" and ids': "in_hand (pw_phase (po_workers p ! j)) = Some ids"
        using j ids by (simp_all add: p' phase_of_Some)
      have "pw_id (po_workers p ! j) \<noteq> pw_id (po_workers p ! i)"
        using crew_nth [OF crew, of j i] False ph ph' by (simp add: phase_of_Some)
      with hands_okD [OF hands ph' ids'] False j show ?thesis
        by (simp add: p' commit_facts(3) [OF inv ph] finish_view_def)
    qed (use j ids in \<open>simp add: p'\<close>)
  qed
qed

lemma hands_ok_step:
  assumes inv: "pool_inv s dump p" and hands: "hands_ok p" and calm: "calm a p"
    and step: "pool_step s rp dump be a p = Some p'"
  shows "hands_ok p'"
proof (cases a)
  case (Claim i)
  then have "phase_of p i = Some Idle" "p' = claim_step s i p" using step by (simp_all split: if_splits)
  then show ?thesis using hands_ok_claim [OF inv hands] calm Claim by blast
next
  case (Process i env)
  then obtain chunk where ph: "phase_of p i = Some (Busy chunk)" and p': "p' = process_step s rp i chunk env p"
    using step by (auto split: option.splits phase.splits)
  show ?thesis unfolding p' process_step_def
    by (rule hands_ok_set_phase [OF hands])
      (use ph process_chunk_Inr(1) [of s rp env chunk no_metrics] in \<open>auto simp: phase_of_Some split: sum.split\<close>)
next
  case (Flush i cid)
  then obtain rs where ph: "phase_of p i = Some (Flushing rs)" and p': "p' = flush_step dump be i rs cid p"
    using step by (auto split: option.splits phase.splits if_splits)
  have keep: "hands_ok (p\<lparr>po_store := st\<rparr>)" for st by (rule hands_ok_keep [OF hands]) simp_all
  show ?thesis unfolding p' flush_step_def
    using ph by (auto simp: phase_of_Some split: sum.split intro!: hands_ok_set_phase hands keep)
next
  case (Commit i)
  then obtain rs ref where "phase_of p i = Some (Committing rs ref)" "p' = commit_step i rs ref p"
    using step by (auto split: option.splits phase.splits)
  then show ?thesis by (rule hands_ok_commit [OF inv hands])
next
  case (Beat i)
  then have "p' = beat_step s i p" using step by (simp split: option.splits phase.splits)
  then show ?thesis by (intro hands_ok_keep [OF hands]) (simp_all add: beat_step_def renew_view)
next
  case (Tick d)
  then have "p' = p\<lparr>po_now := po_now p + int d\<rparr>" using step by simp
  then show ?thesis by (intro hands_ok_keep [OF hands]) simp_all
next
  case (Crash i)
  then have "p' = set_phase i Crashed p" using step by (simp split: option.splits if_splits)
  then show ?thesis using hands_ok_set_phase [OF hands] by simp
qed

section \<open>Records and rows\<close>

text \<open>The files of a job, and a list of chunks as such files.\<close>

definition job_files :: "uuid \<Rightarrow> chunk_store \<Rightarrow> (string \<times> string) list" where
  "job_files job st = map (\<lambda>x. (snd (fst x), snd x)) (filter (\<lambda>x. fst (fst x) = job) st)"

definition as_files :: "dumper \<Rightarrow> (string \<times> result_record list) list \<Rightarrow> (string \<times> string) list" where
  "as_files dump chunks = map (\<lambda>(cid, rs). (chunk_file cid, chunk_payload dump rs)) chunks"

definition record_ids :: "(string \<times> result_record list) list \<Rightarrow> string list" where
  "record_ids chunks = concat (map (\<lambda>(cid, rs). map rr_external_id rs) chunks)"

lemma record_ids_snoc [simp]: "record_ids (chunks @ [(cid, rs)]) = record_ids chunks @ map rr_external_id rs"
  by (simp add: record_ids_def)

text \<open>Rows with a reference, and rows about to get one.\<close>

definition referenced :: "uuid \<Rightarrow> database \<Rightarrow> string set" where
  "referenced job db = {e. \<exists>st ref. queue_view db job e = Some (Finished st (Some ref))}"

definition committing :: "uuid \<Rightarrow> pool \<Rightarrow> string set" where
  "committing job p = {e. \<exists>i rs ref. phase_of p i = Some (Committing rs ref) \<and> pw_job (po_workers p ! i) = job \<and>
     e \<in> rr_external_id ` set rs}"

definition once :: "dumper \<Rightarrow> uuid \<Rightarrow> pool \<Rightarrow> bool" where
  "once dump job p \<longleftrightarrow> (\<exists>chunks. job_files job (po_store p) = as_files dump chunks \<and> distinct (record_ids chunks) \<and>
     set (record_ids chunks) = referenced job (po_db p) \<union> committing job p)"

lemma once_keep:
  assumes "once dump job p" and "po_store p' = po_store p"
    and "referenced job (po_db p') \<union> committing job p' = referenced job (po_db p) \<union> committing job p"
  shows "once dump job p'"
  using assms by (simp add: once_def)

definition commits :: "phase \<Rightarrow> string set" where
  "commits ph = (case ph of Committing rs ref \<Rightarrow> rr_external_id ` set rs | _ \<Rightarrow> {})"

definition commits_for :: "uuid \<Rightarrow> pool_worker \<Rightarrow> string set" where
  "commits_for job w = (if pw_job w = job then commits (pw_phase w) else {})"

lemma committing_alt: "committing job p = \<Union> (commits_for job ` set (po_workers p))"
  by (force simp: committing_def phase_of_Some commits_def commits_for_def in_set_conv_nth split: phase.splits if_splits)

lemma committing_keep: "po_workers q = po_workers p \<Longrightarrow> committing job q = committing job p"
  by (simp add: committing_alt)

lemma Union_image_update:
  "i < length xs \<Longrightarrow> f (xs ! i) = {} \<Longrightarrow> \<Union> (f ` set (xs[i := x])) = \<Union> (f ` set xs) \<union> f x"
proof (induction xs arbitrary: i)
  case (Cons y ys)
  then show ?case by (cases i) auto
qed simp

lemma committing_set_phase:
  assumes "i < length (po_workers p)" and "commits (pw_phase (po_workers p ! i)) = {}" and "po_workers q = po_workers p"
  shows "committing job (set_phase i ph q) = committing job p \<union> (if pw_job (po_workers p ! i) = job then commits ph else {})"
  using Union_image_update [of i "po_workers p" "commits_for job"] assms
  by (simp add: committing_alt set_phase_def commits_for_def)

lemma referenced_claim:
  assumes wf: "db_wf db"
  shows "referenced job (fst (claim_chunk job' w n l now locked db)) = referenced job db"
proof -
  have "queue_view (fst (claim_chunk job' w n l now locked db)) job e = Some (Finished st ref) \<longleftrightarrow>
      queue_view db job e = Some (Finished st ref)" for e st ref
    using claim_view [OF wf, of job' w n l now locked job e] claim_only_open [OF wf, of e job' w n l now locked]
    by (auto simp del: set_map)
  then show ?thesis by (simp add: referenced_def)
qed

lemma committing_held:
  assumes "hands_ok p" and "e \<in> committing job p"
  shows "\<exists>i. i < length (po_workers p) \<and> queue_view (po_db p) job e = Some (Held (pw_id (po_workers p ! i))) \<and>
    commits (pw_phase (po_workers p ! i)) \<noteq> {}"
  using assms hands_okD [OF assms(1)] by (fastforce simp: committing_def phase_of_Some commits_def)

lemma commits_simps [simp]:
  "commits Idle = {}" "commits (Busy chunk) = {}" "commits (Flushing rs) = {}"
  "commits (Committing rs ref) = rr_external_id ` set rs" "commits Stopped = {}" "commits (Raised e) = {}"
  "commits Crashed = {}"
  by (simp_all add: commits_def)

lemma once_set_phase:
  assumes "once dump job p" and "phase_of p i = Some ph" and "commits ph = {}" and "commits ph' = {}"
    and "po_workers q = po_workers p" and "po_store q = po_store p"
    and "referenced job (po_db q) = referenced job (po_db p)"
  shows "once dump job (set_phase i ph' q)"
  using committing_set_phase [of i p q job ph'] assms
  by (intro once_keep [OF assms(1)]) (simp_all add: phase_of_Some)

lemma once_claim:
  assumes "once dump job p" and "db_wf (po_db p)" and "phase_of p i = Some Idle"
  shows "once dump job (claim_step s i p)"
proof -
  obtain db' chunk where cl: "claim_chunk (pw_job (po_workers p ! i)) (pw_id (po_workers p ! i)) (chunk_size s)
      (lease_ttl_seconds s) (po_now p) {} (po_db p) = (db', chunk)" by fastforce
  then have "referenced job db' = referenced job (po_db p)" using referenced_claim [OF assms(2)] by (metis fst_conv)
  then have "once dump job (set_phase i (if chunk = [] then Stopped else Busy chunk) (p\<lparr>po_db := db'\<rparr>))"
    by (intro once_set_phase [OF assms(1,3)]) simp_all
  then show ?thesis by (simp add: claim_step_def Let_def cl)
qed

lemma once_commit:
  assumes inv: "pool_inv s dump p" and hands: "hands_ok p" and once: "once dump job p"
    and ph: "phase_of p i = Some (Committing rs ref)"
  shows "once dump job (commit_step i rs ref p)"
proof -
  note facts = commit_facts [OF inv ph]
  have step: "commit_step i rs ref p = set_phase i Idle (p\<lparr>po_db := commit_db i rs ref p\<rparr>)"
    by (simp add: commit_step_def commit_db_def)
  have com: "committing job (commit_step i rs ref p) = {e. \<exists>j rs' ref'. j \<noteq> i \<and> phase_of p j = Some (Committing rs' ref') \<and>
      pw_job (po_workers p ! j) = job \<and> e \<in> rr_external_id ` set rs'}"
    using ph by (auto simp: committing_def step phase_of_Some split: if_splits)
  have "e \<in> referenced job (po_db p) \<union> committing job p \<longleftrightarrow>
      e \<in> referenced job (po_db (commit_step i rs ref p)) \<union> committing job (commit_step i rs ref p)" for e
  proof (cases "queue_view (po_db p) job e = Some (Held (pw_id (po_workers p ! i)))")
    case True
    with facts(4) have e: "pw_job (po_workers p ! i) = job" "e \<in> set (map rr_external_id rs)" by blast+
    then have "first_result rs e \<noteq> None" by (auto simp: first_result_def find_None_iff)
    then have "e \<in> referenced job (po_db (commit_step i rs ref p))"
      using True by (auto simp: referenced_def step facts(3) finish_view_def)
    moreover have "e \<in> committing job p" using e ph by (auto simp: committing_def)
    ultimately show ?thesis by blast
  next
    case False
    then have "e \<in> referenced job (po_db (commit_step i rs ref p)) \<longleftrightarrow> e \<in> referenced job (po_db p)"
      by (auto simp: referenced_def step facts(3) finish_view_def)
    moreover have "\<not> (pw_job (po_workers p ! i) = job \<and> e \<in> rr_external_id ` set rs)"
      using hands_okD [OF hands ph] False by auto
    then have "j \<noteq> i" if "phase_of p j = Some (Committing rs' ref')" "pw_job (po_workers p ! j) = job"
      "e \<in> rr_external_id ` set rs'" for j rs' ref' using that ph by auto
    then have "e \<in> committing job p \<longleftrightarrow> e \<in> committing job (commit_step i rs ref p)"
      unfolding com unfolding committing_def by blast
    ultimately show ?thesis by blast
  qed
  then show ?thesis by (intro once_keep [OF once]) (auto simp: step)
qed

lemma once_flush:
  assumes crew: "crew_distinct p" and hands: "hands_ok p" and once: "once dump job p"
    and ph: "phase_of p i = Some (Flushing rs)"
    and fresh: "\<not> has_chunk (po_store p) (pw_job (po_workers p ! i)) cid"
  shows "once dump job (flush_step dump be i rs cid p)"
proof (cases be)
  case S3Backend
  with once ph show ?thesis by (auto simp: flush_step_def intro!: once_set_phase)
next
  case (LocalBackend dir)
  let ?w = "po_workers p ! i"
  define q where "q = p\<lparr>po_store := po_store p @ [((pw_job ?w, chunk_file cid), chunk_payload dump rs)]\<rparr>"
  have step: "flush_step dump be i rs cid p = set_phase i (Committing rs (chunk_ref (pw_job ?w) cid)) q"
    using fresh by (simp add: flush_step_def LocalBackend write_chunk_def has_chunk_def put_file_fresh q_def)
  have com: "committing job (flush_step dump be i rs cid p) =
      committing job p \<union> (if pw_job ?w = job then rr_external_id ` set rs else {})"
    unfolding step using ph by (subst committing_set_phase [of i p]) (auto simp: q_def phase_of_Some)
  from once obtain chunks where chunks: "job_files job (po_store p) = as_files dump chunks" "distinct (record_ids chunks)"
    "set (record_ids chunks) = referenced job (po_db p) \<union> committing job p" by (auto simp: once_def)
  show ?thesis
  proof (cases "pw_job ?w = job")
    case False
    with chunks show ?thesis unfolding once_def com by (auto simp: step q_def job_files_def)
  next
    case True
    have held: "queue_view (po_db p) job e = Some (Held (pw_id ?w))" if "e \<in> rr_external_id ` set rs" for e
      using hands_okD [OF hands ph] that True by auto
    have dist: "distinct (map rr_external_id rs)" using hands_okD [OF hands ph] by simp
    have "e \<notin> committing job p" if "e \<in> rr_external_id ` set rs" for e
    proof
      assume "e \<in> committing job p"
      then obtain j where "j < length (po_workers p)" "queue_view (po_db p) job e = Some (Held (pw_id (po_workers p ! j)))"
        "commits (pw_phase (po_workers p ! j)) \<noteq> {}" using committing_held [OF hands] by blast
      with held [OF that] have "pw_id (po_workers p ! j) = pw_id ?w" by simp
      then have "j = i" using crew_nth [OF crew \<open>j < length (po_workers p)\<close>, of i] ph
        by (simp add: phase_of_Some)
      with ph \<open>commits (pw_phase (po_workers p ! j)) \<noteq> {}\<close> show False by (simp add: phase_of_Some)
    qed
    moreover have "e \<notin> referenced job (po_db p)" if "e \<in> rr_external_id ` set rs" for e
      using held [OF that] by (simp add: referenced_def)
    ultimately have "set (record_ids chunks) \<inter> rr_external_id ` set rs = {}" unfolding chunks(3) by blast
    with chunks dist True show ?thesis unfolding once_def com
      by (intro exI [of _ "chunks @ [(cid, rs)]"]) (auto simp: step q_def job_files_def as_files_def)
  qed
qed

lemma once_step:
  assumes inv: "pool_inv s dump p" and hands: "hands_ok p" and once: "once dump job p" and calm: "calm a p"
    and step: "pool_step s rp dump be a p = Some p'"
  shows "once dump job p'"
proof (cases a)
  case (Claim i)
  then have "phase_of p i = Some Idle" "p' = claim_step s i p" using step by (simp_all split: if_splits)
  then show ?thesis using once_claim [OF once] inv by (simp add: pool_inv_def)
next
  case (Process i env)
  then obtain chunk where ph: "phase_of p i = Some (Busy chunk)" and p': "p' = process_step s rp i chunk env p"
    using step by (auto split: option.splits phase.splits)
  show ?thesis unfolding p' process_step_def
    by (rule once_set_phase [OF once ph]) (simp_all split: sum.split)
next
  case (Flush i cid)
  with step obtain rs where ph: "phase_of p i = Some (Flushing rs)" and p': "p' = flush_step dump be i rs cid p"
    and fresh: "\<not> has_chunk (po_store p) (pw_job (po_workers p ! i)) cid"
    by (auto split: option.splits phase.splits if_splits)
  have "crew_distinct p" using inv by (simp add: pool_inv_def)
  from once_flush [OF this hands once ph fresh] show ?thesis by (simp add: p')
next
  case (Commit i)
  then obtain rs ref where "phase_of p i = Some (Committing rs ref)" "p' = commit_step i rs ref p"
    using step by (auto split: option.splits phase.splits)
  then show ?thesis using once_commit [OF inv hands once] by simp
next
  case (Beat i)
  then have p': "p' = beat_step s i p" using step by (simp split: option.splits phase.splits)
  have "committing job p' = committing job p" by (rule committing_keep) (simp add: p' beat_step_def)
  then show ?thesis by (intro once_keep [OF once]) (simp_all add: p' beat_step_def referenced_def renew_view)
next
  case (Tick d)
  then have p': "p' = p\<lparr>po_now := po_now p + int d\<rparr>" using step by simp
  have "committing job p' = committing job p" by (rule committing_keep) (simp add: p')
  then show ?thesis by (intro once_keep [OF once]) (simp_all add: p')
next
  case (Crash i)
  then obtain ph where ph: "phase_of p i = Some ph" and p': "p' = set_phase i Crashed p"
    using step by (auto split: option.splits if_splits)
  have "commits ph = {}" using calm Crash ph by (auto simp: commits_def split: phase.splits)
  with once_set_phase [OF once ph, of Crashed p] show ?thesis by (simp add: p')
qed

lemma calm_reach_once:
  assumes "calm_reach s rp dump be p0 p" and start: "pool_start dump p0" and once0: "once dump job p0"
  shows "hands_ok p \<and> once dump job p"
  using assms(1)
proof (induction rule: calm_reach.induct)
  case calm_start
  have "hands_ok p0" using start by (auto simp: hands_ok_def pool_start_def list_all_length)
  with once0 show ?case by simp
next
  case (calm_step p a p')
  have "pool_inv s dump p" using reach_from_start [OF start calm_reach_pool [OF calm_step.hyps(1)]] .
  then show ?case using hands_ok_step once_step calm_step by blast
qed

lemma once_start:
  assumes start: "pool_start dump p0" and "\<And>cid. \<not> has_chunk (po_store p0) job cid" and "job_files job (po_store p0) = []"
  shows "once dump job p0"
proof -
  have "durable dump p0" using start by (simp add: pool_start_def)
  then have "referenced job (po_db p0) = {}"
    using assms(2) by (force simp: referenced_def durable_def stored_result_def has_chunk_def)
  moreover have "committing job p0 = {}"
    using start by (auto simp: committing_def pool_start_def list_all_length phase_of_Some)
  ultimately show ?thesis using assms(3) by (auto simp: once_def as_files_def record_ids_def intro!: exI [of _ "[]"])
qed

section \<open>The property\<close>

text \<open>
  C10: Without those crashes results are stored exactly once: in a run of the pool in which no worker
  dies between its flush and its commit and no row is claimed while the worker that holds it still
  works on it, the files of a job that had none hold at most one record for every row, exactly the
  rows with a result reference and those about to be committed have one, and once all workers
  have stopped the records are those of the finished rows that were sent to the client.
\<close>

theorem calm_runs_store_once:
  assumes "pool_start dump p0" and "job_files job (po_store p0) = []" and "calm_reach s rp dump be p0 p"
  shows "\<exists>chunks. job_files job (po_store p) = as_files dump chunks \<and> distinct (record_ids chunks) \<and>
    set (record_ids chunks) = referenced job (po_db p) \<union> committing job p \<and>
    (list_all (\<lambda>w. pw_phase w = Stopped) (po_workers p) \<longrightarrow> set (record_ids chunks) = referenced job (po_db p))"
proof -
  have "\<not> has_chunk (po_store p0) job cid" for cid
    using assms(2) by (force simp: has_chunk_def job_files_def filter_empty_conv)
  from calm_reach_once [OF assms(3,1) once_start [OF assms(1) this assms(2)]]
  have "once dump job p" by simp
  moreover have "committing job p = {}" if "list_all (\<lambda>w. pw_phase w = Stopped) (po_workers p)"
    using that by (auto simp: committing_def list_all_length phase_of_Some)
  ultimately show ?thesis unfolding once_def by auto
qed

fun calm_runs ::
  "settings \<Rightarrow> retry_policy \<Rightarrow> dumper \<Rightarrow> backend \<Rightarrow> action list \<Rightarrow> pool \<Rightarrow> pool option" where
  "calm_runs s rp dump be [] p = Some p"
| "calm_runs s rp dump be (a # as) p =
     (if calm a p then (case pool_step s rp dump be a p of None \<Rightarrow> None | Some p' \<Rightarrow> calm_runs s rp dump be as p')
      else None)"

lemma calm_runs_reach_from:
  "calm_reach s rp dump be p0 p \<Longrightarrow> calm_runs s rp dump be as p = Some p' \<Longrightarrow> calm_reach s rp dump be p0 p'"
  by (induction as arbitrary: p) (auto split: option.splits if_splits intro: calm_step)

text \<open>The first worker dies at work, its lease ends, and the second one does both rows.\<close>

definition demo_calm :: "nat \<Rightarrow> action list" where
  "demo_calm d = [Claim 0, Crash 0, Tick d, Claim 1, Process 1 ok_env, Flush 1 ''d'', Commit 1, Claim 1]"

lemma demo_calm_run:
  "lease_end 0 120 < int d \<Longrightarrow>
   \<exists>p. calm_runs default_settings shipped_policy json_dump (LocalBackend []) (demo_calm d) demo_pool = Some p \<and>
     length (po_store p) = 1 \<and> ''a'' \<in> referenced ''j'' (po_db p)"
  unfolding demo_calm_def
  by (simp add: run_eval holding_def referenced_def queue_view_def lookup_item_def view_row_def)

theorem calm_runs_store_once_witness:
  "\<exists>p chunks. calm_runs default_settings shipped_policy json_dump (LocalBackend []) (demo_calm 200000000) demo_pool = Some p \<and>
     length (po_store p) = 1 \<and> job_files ''j'' (po_store p) = as_files json_dump chunks \<and>
     distinct (record_ids chunks) \<and> ''a'' \<in> set (record_ids chunks)"
proof -
  have "lease_end 0 120 < int 200000000" by (simp add: lease_end_def)
  from demo_calm_run [OF this] obtain p
    where run: "calm_runs default_settings shipped_policy json_dump (LocalBackend []) (demo_calm 200000000) demo_pool = Some p"
      and one: "length (po_store p) = 1" and a: "''a'' \<in> referenced ''j'' (po_db p)" by blast
  have "job_files ''j'' (po_store demo_pool) = []" by (simp add: job_files_def demo_pool_def)
  from calm_runs_store_once [OF demo_pool_start this calm_runs_reach_from [OF calm_start run]] run one a
  show ?thesis by blast
qed

end
