(* ===== verification/EngineRun.thy ===== *)
theory EngineRun
  imports EngineProps
begin

text \<open>
  \<open>BatchEngine.run\<close> as a whole: the ids it gives its workers, the state it writes for
  each way the pool can end, and the state it writes although rows are left.
\<close>

section \<open>Worker ids\<close>

lemma worker_name_suffix:
  "worker_name host pid hex i = worker_name host pid hex' j \<Longrightarrow>
   length (take 8 hex) = length (take 8 hex') \<Longrightarrow> i = j"
  by (simp add: worker_name_def)

text \<open>
  The ids of one engine's workers are pairwise different, and with a host name of at most 40
  characters, a process id below ten million and fewer than a hundred thousand workers each fits
  the 64 characters of the \<open>worker_id\<close> column.
\<close>

lemma worker_ids_distinct_and_fit:
  assumes "\<And>i. length (hex i) = 32"
  shows "distinct (map pw_id (spawn s host pid hex job)) \<and>
    (length host \<le> 40 \<and> pid < 10 ^ 7 \<and> worker_pool_size s \<le> 10 ^ 5 \<longrightarrow>
       (\<forall>w \<in> set (spawn s host pid hex job). length (pw_id w) \<le> id_column_width))"
proof (rule conjI)
  have "inj_on (\<lambda>i. worker_name host pid (hex i) i) (set [0..<nat (worker_pool_size s)])"
    by (rule inj_onI) (rule worker_name_suffix, assumption, simp add: assms)
  then show "distinct (map pw_id (spawn s host pid hex job))"
    by (simp add: spawn_def o_def distinct_map)
  show "length host \<le> 40 \<and> pid < 10 ^ 7 \<and> worker_pool_size s \<le> 10 ^ 5 \<longrightarrow>
      (\<forall>w \<in> set (spawn s host pid hex job). length (pw_id w) \<le> id_column_width)"
  proof (intro impI ballI)
    fix w assume bounds: "length host \<le> 40 \<and> pid < 10 ^ 7 \<and> worker_pool_size s \<le> 10 ^ 5"
      and "w \<in> set (spawn s host pid hex job)"
    then obtain i where i': "i < nat (worker_pool_size s)" and w: "pw_id w = worker_name host pid (hex i) i"
      by (auto simp: spawn_def)
    have "nat (worker_pool_size s) \<le> 10 ^ 5" using bounds by (simp add: nat_le_iff)
    with i' have i: "i < 10 ^ 5" by linarith
    have "length (nat_str pid) \<le> 7" "length (nat_str i) \<le> 5"
      using bounds i by (auto intro: length_nat_str_le)
    with bounds show "length (pw_id w) \<le> id_column_width"
      by (simp add: w worker_name_def id_column_width_def assms)
  qed
qed

lemma worker_ids_distinct_and_fit_example:
  "list_all (\<lambda>w. length (pw_id w) \<le> 64)
     (spawn default_settings ''batch-api'' 4242 (\<lambda>i. replicate 32 (CHR ''a'')) ''j'')"
  using worker_ids_distinct_and_fit [of "\<lambda>i. replicate 32 (CHR ''a'')" default_settings "''batch-api''" 4242 "''j''"]
  by (simp add: id_column_width_def list_all_iff) (simp add: default_settings_def)

section \<open>The state written\<close>

lemma pool_step_jobs: "pool_step s rp dump be a p = Some p' \<Longrightarrow> jobs (po_db p') = jobs (po_db p)"
proof (cases a)
  case (Claim i)
  assume "pool_step s rp dump be a p = Some p'"
  with Claim show ?thesis
    using claim_chunk_frame(1) [of "pw_job (po_workers p ! i)" "pw_id (po_workers p ! i)" "chunk_size s"
        "lease_ttl_seconds s" "po_now p" "{}" "po_db p"]
    by (auto simp: claim_step_def Let_def split: if_splits prod.splits)
next
  case (Flush i cid)
  assume "pool_step s rp dump be a p = Some p'"
  with Flush show ?thesis
    by (auto simp: flush_step_def split: option.splits phase.splits if_splits sum.splits)
qed (auto simp: process_step_def commit_step_def beat_step_def frame_simps
      split: option.splits phase.splits if_splits)

lemma run_pool_jobs:
  "run_pool s rp dump be as p = (r, p') \<Longrightarrow> jobs (po_db p') = jobs (po_db p)"
proof (induction as arbitrary: p)
  case (Cons a as)
  then show ?case using pool_step_jobs [of s rp dump be a p]
    by (auto split: option.splits)
qed simp

lemma run_pool_outcome:
  "run_pool s rp dump be as p = (r, p') \<Longrightarrow> r = pool_outcome (po_workers p')"
  by (induction as arbitrary: p) (auto split: option.splits)

lemma run_pool_reach_from:
  "pool_reach s rp dump be p0 p \<Longrightarrow> run_pool s rp dump be as p = (r, p') \<Longrightarrow> pool_reach s rp dump be p0 p'"
  by (induction as arbitrary: p) (auto split: option.splits intro: reach_step)

lemma run_pool_reach: "run_pool s rp dump be as p = (r, p') \<Longrightarrow> pool_reach s rp dump be p p'"
  by (rule run_pool_reach_from [OF reach_start])

lemma pool_outcome_stopped:
  "pool_outcome ws = Some (Inr ()) \<Longrightarrow> w \<in> set ws \<Longrightarrow> pw_phase w = Stopped"
  by (auto simp: pool_outcome_def list_all_iff split: list.splits if_splits)

definition start_pool :: "settings \<Rightarrow> string \<Rightarrow> nat \<Rightarrow> (nat \<Rightarrow> string) \<Rightarrow> uuid \<Rightarrow> database \<Rightarrow> chunk_store \<Rightarrow> time \<Rightarrow> pool" where
  "start_pool s host pid hex job db store now =
     \<lparr>po_db = db, po_store = store, po_now = now, po_workers = spawn s host pid hex job\<rparr>"

text \<open>How \<open>engine_run\<close> ends, by the outcome of the pool.\<close>

lemma engine_run_cases:
  assumes "engine_run s rp dump be host pid hex sched job db store now = (r, p)"
  obtains (running) "r = None" "run_pool s rp dump be sched (start_pool s host pid hex job db store now) = (None, p)"
  | (failed) e where "r = Some (Inl e)"
      "run_pool s rp dump be sched (start_pool s host pid hex job db store now) = (Some (Inl e), p)"
  | (finished) q where "r = Some (Inr ())"
      "run_pool s rp dump be sched (start_pool s host pid hex job db store now) = (Some (Inr ()), q)"
      "p = q\<lparr>po_db := update_job job (\<lambda>r. r\<lparr>j_state := J_COMPLETED, j_error := None, j_updated_at := po_now q\<rparr>) (po_db q)\<rparr>"
proof -
  obtain r' q where run: "run_pool s rp dump be sched (start_pool s host pid hex job db store now) = (r', q)"
    by fastforce
  show ?thesis
  proof (cases r')
    case None
    with assms run running show ?thesis by (simp add: engine_run_def start_pool_def)
  next
    case (Some o1)
    show ?thesis
    proof (cases o1)
      case (Inl e)
      with assms run Some failed show ?thesis by (simp add: engine_run_def start_pool_def)
    next
      case (Inr u)
      with assms run Some finished [of q] show ?thesis
        by (simp add: engine_run_def start_pool_def set_state_def opt_text_ok_def)
    qed
  qed
qed

lemma find_job_completed:
  "job \<in> job_ids db \<Longrightarrow> jobs q = jobs db \<Longrightarrow>
   map_option j_state (find_job (update_job job (\<lambda>r. r\<lparr>j_state := st, j_error := e, j_updated_at := t\<rparr>) q) job)
     = Some st"
proof -
  assume "job \<in> job_ids db" and "jobs q = jobs db"
  then have "find_job q job \<noteq> None" by (simp add: find_job_None_iff job_ids_def)
  then show ?thesis by (auto simp: find_job_update)
qed

lemma engine_run_ends:
  assumes "pool_start dump (start_pool s host pid hex job db store now)" and "job \<in> job_ids db"
    and "leases_ended job now db"
    and "0 < chunk_size s" and "0 < worker_pool_size s"
    and "engine_run s rp dump be host pid hex sched job db store now = (r, p)"
  shows "if r = Some (Inr ())
    then map_option j_state (find_job (po_db p) job) = Some J_COMPLETED \<and>
      (\<forall>x \<in> set (items (po_db p)). i_job_id x = job \<longrightarrow> is_terminal (i_status x))
    else jobs (po_db p) = jobs db"
  using assms(6)
proof (cases rule: engine_run_cases)
  case running
  then show ?thesis using run_pool_jobs [OF running(2)] by (simp add: start_pool_def)
next
  case (failed e)
  then show ?thesis using run_pool_jobs [OF failed(2)] by (simp add: start_pool_def)
next
  case (finished q)
  note reach = run_pool_reach [OF finished(2)]
  have stop: "pw_phase w = Stopped" if "w \<in> set (po_workers q)" for w
    using pool_outcome_stopped [OF run_pool_outcome [OF finished(2), symmetric] that] .
  have crew: "crew q = crew (start_pool s host pid hex job db store now)" by (rule pool_reach_crew [OF reach])
  have "length (po_workers q) = nat (worker_pool_size s)"
    unfolding crew_length crew by (simp add: crew_def start_pool_def spawn_def)
  with assms(5) have i: "0 < length (po_workers q)" by simp
  have "pw_job (po_workers q ! 0) = job"
    unfolding crew_job(1) [OF i] crew using assms(5) by (simp add: crew_def start_pool_def spawn_def)
  moreover have "leases_ended job (po_now (start_pool s host pid hex job db store now))
      (po_db (start_pool s host pid hex job db store now))"
    using assms(3) by (simp add: start_pool_def)
  ultimately have "is_terminal (i_status x)" if "x \<in> set (items (po_db q))" "i_job_id x = job" for x
    using stopped_pool_terminal [OF assms(1) reach assms(4), of job "po_workers q ! 0" x] that stop i
    by simp
  moreover have "jobs (po_db q) = jobs db"
    using run_pool_jobs [OF finished(2)] by (simp add: start_pool_def)
  ultimately show ?thesis using find_job_completed [OF assms(2)] finished(1,3) by simp
qed


definition demo_engine :: "action list \<Rightarrow> (exn + unit) option \<times> pool" where
  "demo_engine sched =
     engine_run (default_settings\<lparr>worker_pool_size := 1\<rparr>) shipped_policy json_dump (LocalBackend []) ''h'' 1
       (\<lambda>i. replicate 32 (CHR ''a'')) sched ''j'' demo_db [] 0"

lemma demo_engine_start:
  "pool_start dump (start_pool (default_settings\<lparr>worker_pool_size := 1\<rparr>) ''h'' 1
     (\<lambda>i. replicate 32 (CHR ''a'')) ''j'' demo_db [] 0)"
  by (simp add: pool_start_def start_pool_def demo_db_wf crew_distinct_def durable_def spawn_def)
    (auto simp: demo_db_def demo_row_def queue_view_def lookup_item_def view_row_def)

lemma demo_engine_returns:
  "fst (demo_engine (demo_commit @ [Claim 0])) = Some (Inr ())"
  by (simp add: demo_engine_def engine_run_def demo_commit_def spawn_def pool_outcome_def
      raised_def set_state_def opt_text_ok_def run_eval del: shipped_policy_sel)


section \<open>Completion over a live lease\<close>

text \<open>A job whose open rows are all claimed under leases that have not ended.\<close>

definition all_leased :: "uuid \<Rightarrow> time \<Rightarrow> database \<Rightarrow> bool" where
  "all_leased job now db \<longleftrightarrow>
     (\<forall>r \<in> set (items db). i_job_id r = job \<longrightarrow> \<not> claimable now r)"

lemma claim_nothing:
  assumes "db_wf db" and "all_leased job now db"
  shows "claim_chunk job w n l now {} db = (db, [])"
proof -
  have "claim_select job n now {} db = []"
    using assms by (auto simp: claim_select_wf all_leased_def eligible_def filter_empty_conv)
  then show ?thesis by (simp add: claim_chunk_def Let_def update_items_none)
qed

text \<open>The pool while its workers stop one after the other.\<close>

definition stopping :: "pool_worker list \<Rightarrow> nat \<Rightarrow> pool_worker list" where
  "stopping ws k = map (\<lambda>(i, w). if i < k then w\<lparr>pw_phase := Stopped\<rparr> else w) (enumerate 0 ws)"

lemma stopping_nth: "i < length ws \<Longrightarrow>
    stopping ws k ! i = (if i < k then (ws ! i)\<lparr>pw_phase := Stopped\<rparr> else ws ! i)"
  by (simp add: stopping_def nth_enumerate_eq)

lemma length_stopping [simp]: "length (stopping ws k) = length ws"
  by (simp add: stopping_def)

lemma stopping_Suc: "k < length ws \<Longrightarrow>
    (stopping ws k)[k := (ws ! k)\<lparr>pw_phase := Stopped\<rparr>] = stopping ws (Suc k)"
  by (rule nth_equalityI) (auto simp: stopping_nth nth_list_update)

lemma stopping_outcome:
  assumes "list_all (\<lambda>w. pw_phase w = Idle) ws" and "k \<le> length ws"
  shows "pool_outcome (stopping ws k) = (if k = length ws then Some (Inr ()) else None)"
proof -
  have ph: "pw_phase (stopping ws k ! i) = (if i < k then Stopped else Idle)" if "i < length ws" for i
    using that assms(1) by (simp add: stopping_nth list_all_length)
  then have "pw_phase w \<in> {Stopped, Idle}" if "w \<in> set (stopping ws k)" for w
    using that by (auto simp: in_set_conv_nth split: if_splits)
  then have "raised w = None" if "w \<in> set (stopping ws k)" for w
    using that by (fastforce simp: raised_def)
  then have "List.map_filter raised (stopping ws k) = []"
    by (simp add: List.map_filter_def)
  moreover have "list_all (\<lambda>w. pw_phase w = Stopped) (stopping ws k) \<longleftrightarrow> k = length ws"
    using ph assms(2) by (auto simp: list_all_length)
  ultimately show ?thesis by (simp add: pool_outcome_def)
qed

lemma run_pool_stops:
  assumes wf: "db_wf db" and leased: "all_leased job now db"
    and idle: "list_all (\<lambda>w. pw_phase w = Idle) ws" and job: "\<forall>w \<in> set ws. pw_job w = job"
    and "k \<le> length ws"
  shows "run_pool s rp dump be (map Claim [k..<length ws])
      \<lparr>po_db = db, po_store = store, po_now = now, po_workers = stopping ws k\<rparr> =
    (Some (Inr ()), \<lparr>po_db = db, po_store = store, po_now = now, po_workers = stopping ws (length ws)\<rparr>)"
  using assms(5)
proof (induction "length ws - k" arbitrary: k)
  case 0
  then have "k = length ws" by simp
  then show ?case by (simp add: stopping_outcome [OF idle])
next
  case (Suc n)
  let ?p = "\<lparr>po_db = db, po_store = store, po_now = now, po_workers = stopping ws k\<rparr>"
  from Suc have k: "k < length ws" by simp
  then have w: "stopping ws k ! k = ws ! k" "pw_phase (ws ! k) = Idle" "pw_job (ws ! k) = job"
    using idle job by (simp_all add: stopping_nth list_all_length)
  have "pool_step s rp dump be (Claim k) ?p =
      Some \<lparr>po_db = db, po_store = store, po_now = now, po_workers = stopping ws (Suc k)\<rparr>"
    using k w claim_nothing [OF wf leased]
    by (simp add: phase_of_def claim_step_def Let_def set_phase_def stopping_Suc)
  moreover have "[k..<length ws] = k # [Suc k..<length ws]" using k by (rule upt_conv_Cons)
  ultimately show ?case
    using Suc.hyps(1) [of "Suc k"] Suc.hyps(2) k by (simp add: stopping_outcome [OF idle])
qed

lemma not_active_after:
  "\<not> active_state st \<Longrightarrow>
   job \<notin> fst ` set (list_active (update_job job (\<lambda>r. r\<lparr>j_state := st, j_error := e, j_updated_at := t\<rparr>) db))"
proof -
  assume st: "\<not> active_state st"
  let ?f = "\<lambda>r. r\<lparr>j_state := st, j_error := e, j_updated_at := t\<rparr>"
  have "\<not> active_state (j_state r)" if r: "r \<in> set (sql_update (\<lambda>r. j_id r = job) ?f rows)" and id: "j_id r = job" for r rows
  proof -
    from r obtain x where "r = (if j_id x = job then ?f x else x)" unfolding set_sql_update by blast
    with id st show ?thesis by (cases "j_id x = job") simp_all
  qed
  then show ?thesis by (fastforce simp: list_active_def update_job_def)
qed

text \<open>With nothing to claim, every worker's first claim is its last.\<close>

lemma engine_run_nothing_claimable:
  assumes "db_wf db" and "all_leased job now db"
  shows "\<exists>p. engine_run s rp dump be host pid hex
        (map Claim [0..<nat (worker_pool_size s)]) job db store now = (Some (Inr ()), p) \<and>
      po_db p = update_job job (\<lambda>r. r\<lparr>j_state := J_COMPLETED, j_error := None, j_updated_at := now\<rparr>) db \<and>
      po_store p = store"
proof -
  let ?ws = "spawn s host pid hex job"
  let ?q = "\<lparr>po_db = db, po_store = store, po_now = now, po_workers = stopping ?ws (length ?ws)\<rparr>"
  have len: "length ?ws = nat (worker_pool_size s)" by (simp add: spawn_def)
  have "stopping ?ws 0 = ?ws" by (rule nth_equalityI) (simp_all add: stopping_nth)
  moreover have "list_all (\<lambda>w. pw_phase w = Idle) ?ws" "\<forall>w \<in> set ?ws. pw_job w = job"
    by (auto simp: spawn_def list_all_iff)
  ultimately have "run_pool s rp dump be (map Claim [0..<nat (worker_pool_size s)])
      \<lparr>po_db = db, po_store = store, po_now = now, po_workers = ?ws\<rparr> = (Some (Inr ()), ?q)"
    using run_pool_stops [OF assms, of ?ws 0 s rp dump be store] by (simp add: len)
  then show ?thesis by (simp add: engine_run_def set_state_def opt_text_ok_def)
qed

text \<open>
  Completion over a live lease: if every open row of a job is held under a lease that has
  not ended (the rows of a worker that died within the last \<open>lease_ttl_seconds\<close>, after a
  restart), the workers' first claims come back empty and the engine writes \<open>COMPLETED\<close>,
  leaving those rows \<open>CLAIMED\<close>; the job is then no longer among the active ones, so a later
  restart does not resume it and the rows are never processed.
\<close>

lemma engine_completes_over_live_leases:
  assumes "db_wf db" and "job \<in> job_ids db"
    and "\<forall>r \<in> set (items db). i_job_id r = job \<longrightarrow> \<not> claimable now r"
  shows "\<exists>p. engine_run s rp dump be host pid hex
        (map Claim [0..<nat (worker_pool_size s)]) job db store now = (Some (Inr ()), p) \<and>
      map_option j_state (find_job (po_db p) job) = Some J_COMPLETED \<and>
      items (po_db p) = items db \<and> job \<notin> fst ` set (list_active (po_db p))"
proof -
  let ?db = "update_job job (\<lambda>r. r\<lparr>j_state := J_COMPLETED, j_error := None, j_updated_at := now\<rparr>) db"
  have "all_leased job now db" using assms(3) by (simp add: all_leased_def)
  from engine_run_nothing_claimable [OF assms(1) this] obtain p where
    "engine_run s rp dump be host pid hex (map Claim [0..<nat (worker_pool_size s)]) job db store now =
      (Some (Inr ()), p)" and p: "po_db p = ?db" by blast
  moreover have "job \<notin> fst ` set (list_active ?db)" by (rule not_active_after) (simp add: active_state_def)
  ultimately show ?thesis using find_job_completed [OF assms(2)] by auto
qed

lemma engine_completes_over_live_leases_example:
  "let db = fst (claim_chunk ''j'' ''dead'' 50 120 0 {} demo_db)
   in count_in ''j'' I_CLAIMED db = 2 \<and>
     (\<exists>p. engine_run default_settings shipped_policy json_dump (LocalBackend []) ''h'' 1 (\<lambda>i. replicate 32 (CHR ''a''))
            (map Claim [0..<4]) ''j'' db [] 1000000 = (Some (Inr ()), p) \<and>
          map_option j_state (find_job (po_db p) ''j'') = Some J_COMPLETED \<and>
          count_in ''j'' I_CLAIMED (po_db p) = 2)"
proof -
  let ?db = "fst (claim_chunk ''j'' ''dead'' 50 120 0 {} demo_db)"
  have two: "count_in ''j'' I_CLAIMED ?db = 2"
    by (simp add: run_eval count_in_def row_count_def)
  have wf: "db_wf ?db" by (rule claim_chunk_wf [OF demo_db_wf])
  have job: "''j'' \<in> job_ids ?db" by (simp add: job_ids_def frame_simps) (simp add: demo_db_def)
  have leased: "\<forall>r \<in> set (items ?db). i_job_id r = ''j'' \<longrightarrow> \<not> claimable 1000000 r"
    by (simp add: run_eval lease_end_def)
  obtain p where p: "engine_run default_settings shipped_policy json_dump (LocalBackend []) ''h'' 1
      (\<lambda>i. replicate 32 (CHR ''a'')) (map Claim [0..<nat (worker_pool_size default_settings)]) ''j'' ?db [] 1000000
        = (Some (Inr ()), p)"
    "map_option j_state (find_job (po_db p) ''j'') = Some J_COMPLETED" "items (po_db p) = items ?db"
    using engine_completes_over_live_leases [OF wf job leased, of default_settings shipped_policy
        json_dump "LocalBackend []" "''h''" 1 "\<lambda>i. replicate 32 (CHR ''a'')" "[]"]
    by (elim exE conjE) (rule that)
  moreover have "nat (worker_pool_size default_settings) = 4" by (simp add: default_settings_def)
  ultimately show ?thesis using two by (simp add: Let_def count_in_def)
qed

section \<open>The S3 backend\<close>

definition no_commit :: "pool \<Rightarrow> bool" where
  "no_commit p \<longleftrightarrow> (\<forall>i < length (po_workers p). \<forall>rs ref. pw_phase (po_workers p ! i) \<noteq> Committing rs ref)"

lemma no_commit_set_phase:
  "no_commit p \<Longrightarrow> po_workers q = po_workers p \<Longrightarrow> (\<And>rs ref. ph \<noteq> Committing rs ref) \<Longrightarrow>
   no_commit (set_phase i ph q)"
  by (auto simp: no_commit_def)

lemma s3_step:
  assumes nc: "no_commit p" and step: "pool_step s rp dump S3Backend a p = Some p'"
  shows "no_commit p' \<and> (\<forall>r \<in> set (items (po_db p')). is_terminal (i_status r) \<longrightarrow> r \<in> set (items (po_db p)))"
proof (cases a)
  case (Claim i)
  let ?w = "po_workers p ! i"
  obtain db' chunk where cl: "claim_chunk (pw_job ?w) (pw_id ?w) (chunk_size s) (lease_ttl_seconds s)
      (po_now p) {} (po_db p) = (db', chunk)" by fastforce
  with Claim step have p': "p' = set_phase i (if chunk = [] then Stopped else Busy chunk) (p\<lparr>po_db := db'\<rparr>)"
    by (auto simp: claim_step_def Let_def split: if_splits)
  have "db' = update_items (\<lambda>r. i_id r \<in> set (map i_id (claim_select (pw_job ?w) (chunk_size s) (po_now p) {} (po_db p))))
      (claim_row (pw_id ?w) (lease_ttl_seconds s) (po_now p)) (po_db p)"
    using cl by (simp add: claim_chunk_def Let_def)
  then have "r \<in> set (items (po_db p))" if "r \<in> set (items db')" "is_terminal (i_status r)" for r
    using that by (auto elim!: update_items_rowE split: if_splits simp del: update_items_frame)
  then show ?thesis using no_commit_set_phase [OF nc] by (simp add: p')
next
  case (Process i env)
  then obtain chunk where "p' = process_step s rp i chunk env p"
    using step by (auto split: option.splits phase.splits)
  then show ?thesis using no_commit_set_phase [OF nc] by (simp add: process_step_def split: sum.split)
next
  case (Flush i cid)
  then obtain rs where "p' = flush_step dump S3Backend i rs cid p"
    using step by (auto split: option.splits phase.splits if_splits)
  then show ?thesis using no_commit_set_phase [OF nc] by (simp add: flush_step_def)
next
  case (Commit i)
  with step nc show ?thesis by (auto simp: no_commit_def phase_of_Some split: option.splits phase.splits)
next
  case (Beat i)
  then have p': "p' = beat_step s i p" using step by (auto split: option.splits phase.splits)
  have "r \<in> set (items (po_db p))" if "r \<in> set (items (po_db p'))" "is_terminal (i_status r)" for r
    using that unfolding p' beat_step_def renew_lease_def pool.select_convs pool.update_convs
    by (auto elim!: update_items_rowE split: if_splits simp del: update_items_frame)
  moreover have "no_commit p'" using nc by (simp add: p' beat_step_def no_commit_def)
  ultimately show ?thesis by simp
next
  case (Tick d)
  with step nc show ?thesis by (auto simp: no_commit_def)
next
  case (Crash i)
  then have "p' = set_phase i Crashed p" using step by (auto split: option.splits if_splits)
  then show ?thesis using no_commit_set_phase [OF nc] by simp
qed

lemma s3_reach:
  "pool_reach s rp dump S3Backend p0 p \<Longrightarrow> no_commit p0 \<Longrightarrow>
   no_commit p \<and> (\<forall>r \<in> set (items (po_db p)). is_terminal (i_status r) \<longrightarrow> r \<in> set (items (po_db p0)))"
proof (induction rule: pool_reach.induct)
  case (reach_step p a p')
  then show ?case using s3_step [of p s rp dump a p'] by blast
qed simp

text \<open>
  With the storage setting \<open>s3\<close>, in any letter case, no row is ever processed: the
  backend's writes raise, so a row that is finished in a reachable state was finished at the
  start.
\<close>

lemma s3_setting_finishes_nothing:
  assumes "map to_lower_char (storage_backend s) = ''s3''" and "build_storage s = Inr be"
    and "pool_start dump p0" and "pool_reach s rp dump be p0 p"
    and "r \<in> set (items (po_db p))" and "is_terminal (i_status r)"
  shows "r \<in> set (items (po_db p0))"
proof -
  have be: "be = S3Backend" using assms(1,2) by (simp add: build_storage_def Let_def)
  have "no_commit p0" using assms(3) by (auto simp: no_commit_def pool_start_def list_all_length)
  with s3_reach assms(4-6) show ?thesis unfolding be by blast
qed

lemma s3_setting_finishes_nothing_example:
  "\<exists>p. pool_runs (default_settings\<lparr>storage_backend := ''S3''\<rparr>) shipped_policy json_dump S3Backend
       [Claim 0, Process 0 ok_env, Flush 0 ''c''] demo_pool = Some p \<and>
     pw_phase (po_workers p ! 0) = Raised NotImplementedError \<and>
     (\<forall>r \<in> set (items (po_db p)). \<not> is_terminal (i_status r))"
proof -
  let ?s = "default_settings\<lparr>storage_backend := ''S3''\<rparr>"
  have low: "map to_lower_char (storage_backend ?s) = ''s3''" by code_simp
  then have be: "build_storage ?s = Inr S3Backend" by (simp add: build_storage_def Let_def)
  obtain p where run: "pool_runs ?s shipped_policy json_dump S3Backend
       [Claim 0, Process 0 ok_env, Flush 0 ''c''] demo_pool = Some p"
    and ph: "pw_phase (po_workers p ! 0) = Raised NotImplementedError"
    by (simp add: run_eval)
  have "\<not> is_terminal (i_status r)" if "r \<in> set (items (po_db p))" for r
  proof
    assume "is_terminal (i_status r)"
    with s3_setting_finishes_nothing [OF low be demo_pool_start pool_runs_reach [OF run] that]
    show False by (auto simp: demo_pool_def demo_db_def demo_row_def)
  qed
  with run ph show ?thesis by blast
qed

end
