(* ===== verification/Validation.thy ===== *)
theory Validation
  imports Domain
begin

text \<open>
  The validation layer: the rules of \<open>app/services/validation/rules.py\<close>, the
  composite of \<open>pipeline.py\<close>, and the rule list \<open>build_validation_pipeline\<close>
  (\<open>app/composition.py\<close>) puts together.

  \<open>ValidationContext.seen_ids\<close> is the state: a rule takes the set and returns it with
  its error messages. The locale \<open>validation_rule\<close> is the port of
  \<open>app/interfaces/validation.py\<close>.
\<close>

type_synonym seen_ids = "string list"
type_synonym rule = "prompt_item \<Rightarrow> seen_ids \<Rightarrow> seen_ids \<times> string list"

section \<open>The rules\<close>

definition check_non_empty_external_id :: rule where
  "check_non_empty_external_id item ctx =
     (if pi_external_id item = [] \<or> py_strip (pi_external_id item) = []
      then (ctx, [''missing or empty external id'']) else (ctx, []))"

definition check_non_empty_prompt :: "int \<Rightarrow> rule" where
  "check_non_empty_prompt min_chars item ctx =
     (let txt = py_strip (pi_prompt item)
      in if int (length txt) < min_chars
         then (ctx, [''prompt shorter than min_chars='' @ int_str min_chars]) else (ctx, []))"

definition check_max_prompt_tokens :: "int \<Rightarrow> rule" where
  "check_max_prompt_tokens max_tokens item ctx =
     (let approx_tokens = length (pi_prompt item) div 4
      in if int approx_tokens > max_tokens
         then (ctx, [''prompt ~'' @ nat_str approx_tokens @ '' tokens exceeds max '' @ int_str max_tokens])
         else (ctx, []))"

definition check_unique_external_id :: rule where
  "check_unique_external_id item ctx =
     (if pi_external_id item \<in> set ctx
      then (ctx, [''duplicate external id: '' @ pi_external_id item])
      else (List.insert (pi_external_id item) ctx, []))"

section \<open>The pipeline\<close>

fun run_rules :: "rule list \<Rightarrow> prompt_item \<Rightarrow> seen_ids \<Rightarrow> string list \<Rightarrow> seen_ids \<times> string list" where
  "run_rules [] item ctx errors = (ctx, errors)"
| "run_rules (rule # rules) item ctx errors =
     (case rule item ctx of (ctx', es) \<Rightarrow> run_rules rules item ctx' (errors @ es))"

record outcome =
  oc_ok :: bool
  oc_errors :: "string list"

definition validate_item :: "rule list \<Rightarrow> prompt_item \<Rightarrow> seen_ids \<Rightarrow> seen_ids \<times> outcome" where
  "validate_item rules item ctx =
     (case run_rules rules item ctx [] of
        (ctx', errors) \<Rightarrow> (ctx', \<lparr>oc_ok = (errors = []), oc_errors = errors\<rparr>))"

definition build_validation_pipeline :: "settings \<Rightarrow> rule list" where
  "build_validation_pipeline s =
     [check_non_empty_external_id,
      check_non_empty_prompt (min_prompt_chars s),
      check_max_prompt_tokens (max_prompt_tokens s)]
     @ (if reject_duplicate_ids s then [check_unique_external_id] else [])"

section \<open>The port of a rule\<close>

text \<open>
  What the pipeline relies on: a rule never forgets an id it has seen, and it adds no id but
  the item's own.
\<close>

locale validation_rule =
  fixes check :: rule
  assumes keeps_seen: "set ctx \<subseteq> set (fst (check item ctx))"
    and adds_own: "set (fst (check item ctx)) \<subseteq> insert (pi_external_id item) (set ctx)"
begin

lemma seen_or_own: "x \<in> set (fst (check item ctx)) \<Longrightarrow> x = pi_external_id item \<or> x \<in> set ctx"
  using adds_own by blast

lemma other_ids_unchanged:
  "x \<noteq> pi_external_id item \<Longrightarrow> x \<in> set (fst (check item ctx)) \<longleftrightarrow> x \<in> set ctx"
  using seen_or_own keeps_seen by blast

end

interpretation external_id_rule: validation_rule check_non_empty_external_id
  by unfold_locales (auto simp: check_non_empty_external_id_def)

interpretation prompt_rule: validation_rule "check_non_empty_prompt n" for n
  by unfold_locales (auto simp: check_non_empty_prompt_def Let_def)

interpretation tokens_rule: validation_rule "check_max_prompt_tokens n" for n
  by unfold_locales (auto simp: check_max_prompt_tokens_def Let_def)

interpretation unique_rule: validation_rule check_unique_external_id
  by unfold_locales (auto simp: check_unique_external_id_def)

text \<open>The composite keeps the port's contract, so a pipeline can stand where a rule can.\<close>

lemma run_rules_seen:
  assumes "\<And>rule. rule \<in> set rules \<Longrightarrow> validation_rule rule"
  shows "set ctx \<subseteq> set (fst (run_rules rules item ctx es)) \<and>
         set (fst (run_rules rules item ctx es)) \<subseteq> insert (pi_external_id item) (set ctx)"
  using assms
proof (induction rules arbitrary: ctx es)
  case (Cons rule rules)
  obtain ctx' es' where r: "rule item ctx = (ctx', es')" by fastforce
  from Cons.prems have "validation_rule rule" by simp
  then have "set ctx \<subseteq> set ctx'" and "set ctx' \<subseteq> insert (pi_external_id item) (set ctx)"
    using validation_rule.keeps_seen [of rule ctx item] validation_rule.adds_own [of rule item ctx] r
    by auto
  moreover have "set ctx' \<subseteq> set (fst (run_rules rules item ctx' (es @ es'))) \<and>
    set (fst (run_rules rules item ctx' (es @ es'))) \<subseteq> insert (pi_external_id item) (set ctx')"
    using Cons by simp
  ultimately show ?case using r by auto
qed auto

lemma run_rules_append:
  "run_rules (rs @ rs') item ctx es =
     (case run_rules rs item ctx es of (ctx', es') \<Rightarrow> run_rules rs' item ctx' es')"
  by (induction rs arbitrary: ctx es) (auto split: prod.splits)

lemma pipeline_rules: "rule \<in> set (build_validation_pipeline s) \<Longrightarrow> validation_rule rule"
  by (auto simp: build_validation_pipeline_def split: if_splits
      intro: external_id_rule.validation_rule_axioms prompt_rule.validation_rule_axioms
        tokens_rule.validation_rule_axioms unique_rule.validation_rule_axioms)

text \<open>What an accepted item satisfies: the abstract specification of the pipeline.\<close>

definition item_ok :: "settings \<Rightarrow> prompt_item \<Rightarrow> seen_ids \<Rightarrow> bool" where
  "item_ok s item ctx \<longleftrightarrow>
     py_strip (pi_external_id item) \<noteq> [] \<and>
     min_prompt_chars s \<le> int (length (py_strip (pi_prompt item))) \<and>
     int (length (pi_prompt item) div 4) \<le> max_prompt_tokens s \<and>
     (reject_duplicate_ids s \<longrightarrow> pi_external_id item \<notin> set ctx)"

lemma py_strip_Nil [simp]: "py_strip [] = []"
  by (simp add: py_strip_def)

lemmas rule_defs = check_non_empty_external_id_def check_non_empty_prompt_def
  check_max_prompt_tokens_def check_unique_external_id_def

lemma validate_item_ok_iff:
  "oc_ok (snd (validate_item (build_validation_pipeline s) item ctx)) \<longleftrightarrow> item_ok s item ctx"
  by (auto simp: validate_item_def build_validation_pipeline_def item_ok_def rule_defs Let_def)

lemma validate_item_seen:
  "reject_duplicate_ids s \<Longrightarrow>
   set (fst (validate_item (build_validation_pipeline s) item ctx))
     = insert (pi_external_id item) (set ctx)"
  by (auto simp: validate_item_def build_validation_pipeline_def rule_defs Let_def)

lemma validate_item_seen_off:
  "\<not> reject_duplicate_ids s \<Longrightarrow>
   fst (validate_item (build_validation_pipeline s) item ctx) = ctx"
  by (auto simp: validate_item_def build_validation_pipeline_def rule_defs Let_def)

lemma validate_item_errors:
  "oc_ok (snd (validate_item rules item ctx)) \<longleftrightarrow> oc_errors (snd (validate_item rules item ctx)) = []"
  by (simp add: validate_item_def split: prod.splits)

section \<open>Estimates\<close>

text \<open>
  \<open>app/utils/tokens.py\<close> and \<open>app/utils/cost.py\<close>, which nothing calls. The token rule has
  its own estimate; for a limit of at least one token the two agree on what to reject.
\<close>

definition chars_per_token :: nat where
  "chars_per_token = 4"

definition estimate_tokens :: "string \<Rightarrow> nat" where
  "estimate_tokens body = (if body = [] then 0 else max 1 (length body div chars_per_token))"

definition estimate_cost_usd :: "int \<Rightarrow> int \<Rightarrow> rat \<Rightarrow> rat \<Rightarrow> rat" where
  "estimate_cost_usd prompt_tokens output_tokens input_price_per_1m output_price_per_1m =
     of_int prompt_tokens / 1000000 * input_price_per_1m + of_int output_tokens / 1000000 * output_price_per_1m"

lemma estimate_agrees_with_rule:
  "1 \<le> m \<Longrightarrow> snd (check_max_prompt_tokens m item ctx) = [] \<longleftrightarrow> int (estimate_tokens (pi_prompt item)) \<le> m"
  by (auto simp: check_max_prompt_tokens_def estimate_tokens_def chars_per_token_def Let_def)

lemma estimate_cost_additive:
  "estimate_cost_usd (p + p') (q + q') i j = estimate_cost_usd p q i j + estimate_cost_usd p' q' i j"
  by (simp add: estimate_cost_usd_def field_simps)

section \<open>Properties\<close>

text \<open>
  C38: The pipeline accepts an item exactly when its specification holds: the external id is
  not blank, the stripped prompt is long enough, the token estimate is within the limit, and,
  where duplicates are rejected, the id was not seen before.
\<close>

theorem validation_accepts_iff:
  "oc_ok (snd (validate_item (build_validation_pipeline s) item ctx)) \<longleftrightarrow>
     py_strip (pi_external_id item) \<noteq> [] \<and>
     min_prompt_chars s \<le> int (length (py_strip (pi_prompt item))) \<and>
     int (length (pi_prompt item) div 4) \<le> max_prompt_tokens s \<and>
     \<not> (reject_duplicate_ids s \<and> pi_external_id item \<in> set ctx)"
  by (auto simp: validate_item_ok_iff item_ok_def)

end
