(* ===== verification/QueueProps.thy ===== *)
theory QueueProps
  imports QueueLaws
begin

text \<open>
  The queue's guarantees: which rows a claim takes, that overlapping claims behave as if one
  came after the other, that a stale worker's completion changes nothing, that insertion is
  idempotent, and that an abandoned claim becomes claimable again.
\<close>

section \<open>Claims\<close>

lemma claimed_are_eligible:
  "db_wf db \<Longrightarrow> map ci_id (snd (claim_chunk job w limit l now locked db)) =
     take limit (map i_id (filter (eligible job now locked) (items db)))"
  by (simp add: claimed_ids claim_select_wf take_map)



section \<open>Overlapping claims\<close>

lemma filter_sql_update_disjoint:
  "(\<And>r. r \<in> set rows \<Longrightarrow> P r \<Longrightarrow> \<not> Q' (f r) \<and> \<not> Q r) \<Longrightarrow>
   (\<And>r. r \<in> set rows \<Longrightarrow> \<not> P r \<Longrightarrow> Q' r = Q r) \<Longrightarrow>
   filter Q' (sql_update P f rows) = filter Q rows"
  by (induction rows) auto

lemma skip_locked_select:
  assumes wf: "db_wf db" and live: "nowB \<le> lease_end nowA l"
    and L: "L = set (map i_id (claim_select job n nowA {} db))"
  shows "claim_select job' m nowB L db =
         claim_select job' m nowB {} (fst (claim_chunk job wA n l nowA {} db))"
proof -
  let ?db = "fst (claim_chunk job wA n l nowA {} db)"
  have "filter (eligible job' nowB {}) (items ?db) = filter (eligible job' nowB L) (items db)"
    unfolding claim_chunk_def Let_def fst_conv update_items_frame L
    by (rule filter_sql_update_disjoint) (use live in \<open>auto simp: eligible_def claimable_def\<close>)
  then show ?thesis
    by (simp add: claim_select_wf [OF wf] claim_select_wf [OF claim_chunk_wf [OF wf]])
qed

lemma skip_locked_claims:
  assumes wf: "db_wf db" and live: "nowB \<le> lease_end nowA l"
    and L: "L = set (map ci_id (snd (claim_chunk job wA n l nowA {} db)))"
  shows "snd (claim_chunk job' wB m k nowB L db) =
      snd (claim_chunk job' wB m k nowB {} (fst (claim_chunk job wA n l nowA {} db)))"
    and "set (map ci_id (snd (claim_chunk job' wB m k nowB L db))) \<inter> L = {}"
proof -
  have L': "L = set (map i_id (claim_select job n nowA {} db))"
    unfolding L claimed_ids ..
  show "snd (claim_chunk job' wB m k nowB L db) =
      snd (claim_chunk job' wB m k nowB {} (fst (claim_chunk job wA n l nowA {} db)))"
    using skip_locked_select [OF wf live L'] by (simp add: claim_chunk_def [of job'] Let_def)
  show "set (map ci_id (snd (claim_chunk job' wB m k nowB L db))) \<inter> L = {}"
    using claim_select_set(2) [OF wf] by (auto simp: claimed_ids eligible_def)
qed

text \<open>
  C6: Two overlapping claims never take the same row, and the second (which skips the rows the
  first has locked) returns exactly what it would have returned after the first committed. This
  is why the worker pool can be modelled with atomic claims.
\<close>

theorem concurrent_claims_serialize:
  assumes "db_wf db" and "nowB \<le> lease_end nowA l"
    and "L = set (map ci_id (snd (claim_chunk job wA n l nowA {} db)))"
  shows "snd (claim_chunk job wB m k nowB L db) =
      snd (claim_chunk job wB m k nowB {} (fst (claim_chunk job wA n l nowA {} db))) \<and>
    set (map ci_id (snd (claim_chunk job wB m k nowB L db))) \<inter> L = {}"
  using skip_locked_claims [OF assms] by blast

theorem concurrent_claims_serialize_witness:
  "set (map ci_id (snd (claim_chunk ''j'' ''b'' 5 120 7
       (set (map ci_id (snd (claim_chunk ''j'' ''a'' 1 120 0 {} demo_db)))) demo_db))) \<inter>
     set (map ci_id (snd (claim_chunk ''j'' ''a'' 1 120 0 {} demo_db))) = {}"
  by (rule conjunct2 [OF concurrent_claims_serialize [OF demo_db_wf _ refl]]) (simp add: lease_end_def)

section \<open>Completion\<close>

lemma complete_loop_untouched:
  assumes "\<And>r x. r \<in> set rs \<Longrightarrow> x \<in> set (items db) \<Longrightarrow> \<not> owns w (rr_external_id r) x"
  shows "complete_loop w rs ref now (db, n) = (db, n)"
  using assms
proof (induction rs arbitrary: n)
  case (Cons r rs)
  have none: "\<forall>x \<in> set (items db). \<not> owns w (rr_external_id r) x" using Cons.prems by simp
  then have "update_items (owns w (rr_external_id r)) (complete_row r ref now) db = db"
    and "row_count (owns w (rr_external_id r)) (items db) = 0"
    by (auto simp: update_items_none row_count_0_iff)
  with Cons show ?case by simp
qed simp

lemma complete_items_untouched:
  assumes "\<And>r x. r \<in> set rs \<Longrightarrow> x \<in> set (items db) \<Longrightarrow> \<not> owns w (rr_external_id r) x"
  shows "complete_items w rs ref now db = (db, 0)"
  using complete_loop_untouched [OF assms] by (simp add: complete_items_def)

text \<open>Rows another worker claims are no longer owned by the one that had them.\<close>

lemma reclaimed_not_owned:
  assumes wf: "db_wf db" and ne: "wA \<noteq> wB" and r: "x \<in> set (items (fst (claim_chunk job wB m k now locked db)))"
    and e: "i_external_id x \<in> set (map ci_external_id (snd (claim_chunk job wB m k now locked db)))"
    and only: "\<And>y. y \<in> set (items db) \<Longrightarrow> owns wA (i_external_id x) y \<Longrightarrow> i_job_id y = job"
  shows "\<not> owns wA (i_external_id x) x"
proof
  assume own: "owns wA (i_external_id x) x"
  from r obtain y where y: "y \<in> set (items db)"
    and x: "x = (if i_id y \<in> set (map i_id (claim_select job m now locked db))
                 then claim_row wB k now y else y)"
    by (auto simp: claim_chunk_def Let_def set_sql_update)
  show False
  proof (cases "i_id y \<in> set (map i_id (claim_select job m now locked db))")
    case True
    with x own ne show False by (simp add: owns_def)
  next
    case False
    with x have xy: "x = y" by simp
    with only [OF y] own have "i_job_id y = job" by simp
    with False xy e in_claim_by_key [OF wf y] in_claim_iff [OF wf y] show False
      unfolding claimed_external_ids by blast
  qed
qed

text \<open>
  C8: A worker whose rows were reclaimed by another worker can no longer commit: its
  completion of those rows changes nothing in the database and reports 0 rows.
\<close>

theorem stale_completion_is_ignored:
  assumes wf: "db_wf db" and "wA \<noteq> wB"
    and "claim_chunk job wB m k now {} db = (db', chunkB)"
    and "set (map rr_external_id rs) \<subseteq> set (map ci_external_id chunkB)"
    and "\<And>y. y \<in> set (items db) \<Longrightarrow> i_worker_id y = Some wA \<Longrightarrow> i_job_id y = job"
  shows "complete_items wA rs ref now' db' = (db', 0)"
proof (rule complete_items_untouched)
  fix r x assume "r \<in> set rs" and x: "x \<in> set (items db')"
  then have "rr_external_id r \<in> set (map ci_external_id chunkB)" using assms(4) by auto
  then show "\<not> owns wA (rr_external_id r) x"
    using reclaimed_not_owned [OF wf assms(2), of x job m k now "{}"] x assms(3,5)
    by (cases "rr_external_id r = i_external_id x") (auto simp: owns_def)
qed

theorem stale_completion_is_ignored_witness:
  "let held = fst (claim_chunk ''j'' ''a'' 1 120 0 {} demo_db);
       taken = fst (claim_chunk ''j'' ''b'' 1 120 120000001 {} held)
   in snd (complete_items ''a'' [\<lparr>rr_external_id = ''a'', rr_status = I_SUCCEEDED, rr_response = None,
        rr_error = None, rr_attempts = 1, rr_latency_ms = None\<rparr>] ''jobs/j/chunks/c.jsonl'' 5 taken) = 0"
proof -
  let ?held = "fst (claim_chunk ''j'' ''a'' 1 120 0 {} demo_db)"
  let ?claim = "claim_chunk ''j'' ''b'' 1 120 120000001 {} ?held"
  let ?rs = "[\<lparr>rr_external_id = ''a'', rr_status = I_SUCCEEDED, rr_response = None,
        rr_error = None, rr_attempts = 1, rr_latency_ms = None\<rparr>]"
  have "map ci_external_id (snd ?claim) = [''a'']"
    by (simp add: claim_chunk_def claim_select_def Let_def demo_db_def demo_row_def claimable_def
        claim_row_def lease_end_def)
  then have "set (map rr_external_id ?rs) \<subseteq> set (map ci_external_id (snd ?claim))" by simp
  moreover have "\<forall>y \<in> set (items ?held). i_job_id y = ''j''"
    by (simp add: claim_chunk_def claim_select_def Let_def demo_db_def demo_row_def claimable_def)
  moreover have "''a'' \<noteq> ''b''" by simp
  ultimately show ?thesis
    using stale_completion_is_ignored [OF claim_chunk_wf [OF demo_db_wf], of "''a''" "''b''" "''j''" 1 120
        120000001 "''j''" "''a''" 1 120 0 "{}" "fst ?claim" "snd ?claim" ?rs "''jobs/j/chunks/c.jsonl''" 5]
    by (simp add: Let_def)
qed

text \<open>
  C7: Completion implements the abstract queue: a row held by the worker with a result becomes
  finished with that result's status and the given reference; every other row of every job keeps
  its view.
\<close>

theorem complete_items_refines:
  assumes "db_wf db" and "results_terminal rs"
  shows "queue_view (fst (complete_items w rs ref now db)) job e =
    (case queue_view db job e of
       Some (Held w') \<Rightarrow>
         (case first_result rs e of
            Some r \<Rightarrow> if w' = w then Some (Finished (rr_status r) (Some ref)) else Some (Held w')
          | None \<Rightarrow> Some (Held w'))
     | v \<Rightarrow> v)"
  using complete_view [OF assms]
  by (auto simp: finish_view_def split: option.split item_view.split)

theorem complete_items_refines_witness:
  "queue_view (fst (complete_items ''a'' [\<lparr>rr_external_id = ''a'', rr_status = I_FAILED, rr_response = None,
       rr_error = Some ''e'', rr_attempts = 5, rr_latency_ms = None\<rparr>] ''ref'' 5
     (fst (claim_chunk ''j'' ''a'' 2 120 0 {} demo_db)))) ''j'' ''a'' = Some (Finished I_FAILED (Some ''ref''))"
proof -
  let ?rs = "[\<lparr>rr_external_id = ''a'', rr_status = I_FAILED, rr_response = None,
       rr_error = Some ''e'', rr_attempts = 5, rr_latency_ms = None\<rparr>]"
  have "results_terminal ?rs" by (simp add: results_terminal_def)
  moreover have "queue_view (fst (claim_chunk ''j'' ''a'' 2 120 0 {} demo_db)) ''j'' ''a'' = Some (Held ''a'')"
    by (simp add: claim_chunk_def claim_select_def Let_def demo_db_def demo_row_def claimable_def
        queue_view_def lookup_item_def view_row_def)
  ultimately show ?thesis
    using complete_items_refines [OF claim_chunk_wf [OF demo_db_wf], of ?rs] by (simp add: first_result_def)
qed

section \<open>Leases\<close>

text \<open>
  C17: After a claim the claimed rows cannot be claimed by anyone until the lease ends, and all
  of them are claimable as soon as it has ended without a renewal (crash recovery).
\<close>

theorem lease_protects_then_expires:
  assumes "db_wf db" and "r \<in> set (items (fst (claim_chunk job w limit l now locked db)))"
    and "i_id r \<in> set (map ci_id (snd (claim_chunk job w limit l now locked db)))"
  shows "i_lease_until r = Some (lease_end now l) \<and> (claimable t r \<longleftrightarrow> lease_end now l < t)"
proof -
  from assms(2,3) obtain y where "y \<in> set (items db)" "r = claim_row w l now y"
    unfolding claimed_ids by (auto simp: claim_chunk_def Let_def set_sql_update split: if_splits)
  then show ?thesis by (simp add: claimable_def)
qed

theorem lease_protects_then_expires_witness:
  "\<exists>r \<in> set (items (fst (claim_chunk ''j'' ''a'' 1 120 0 {} demo_db))).
     \<not> claimable 120000000 r \<and> claimable 120000001 r \<and> i_worker_id r = Some ''a''"
proof -
  let ?r = "claim_row ''a'' 120 0 (demo_row 1 ''a'')"
  have "?r \<in> set (items (fst (claim_chunk ''j'' ''a'' 1 120 0 {} demo_db)))"
    "i_id ?r \<in> set (map ci_id (snd (claim_chunk ''j'' ''a'' 1 120 0 {} demo_db)))"
    by (simp_all add: claim_chunk_def claim_select_def Let_def demo_db_def demo_row_def claimable_def)
  from lease_protects_then_expires [OF demo_db_wf this] this(1) show ?thesis
    by (intro bexI [of _ ?r]) (simp_all add: lease_end_def)
qed

section \<open>Insertion\<close>

lemma insert_row_existing:
  "has_row job (nr_external_id n) db \<Longrightarrow>
   items (fst (insert_row job now n db)) = items db \<and> snd (insert_row job now n db) = 0"
  by (simp add: insert_row_def)

lemma has_row_insert_row:
  "has_row job' e (fst (insert_row job now n db)) \<longleftrightarrow>
     has_row job' e db \<or> job' = job \<and> e = nr_external_id n"
  by (auto simp: insert_row_def has_row_def)

lemma has_row_insert_rows:
  "has_row job' e (fst (insert_rows job now ns db)) \<longleftrightarrow>
     has_row job' e db \<or> job' = job \<and> e \<in> set (map nr_external_id ns)"
  by (induction ns arbitrary: db)
     (auto simp: insert_rows_Cons has_row_insert_row simp del: insert_rows.simps(2))

lemma has_row_items: "items db = items db' \<Longrightarrow> has_row job e db = has_row job e db'"
  by (simp add: has_row_def)

lemma insert_rows_existing:
  "\<forall>n \<in> set ns. has_row job (nr_external_id n) db \<Longrightarrow>
   items (fst (insert_rows job now ns db)) = items db \<and> snd (insert_rows job now ns db) = 0"
proof (induction ns arbitrary: db)
  case (Cons n ns)
  let ?db = "fst (insert_row job now n db)"
  have same: "items ?db = items db" "snd (insert_row job now n db) = 0"
    using Cons.prems insert_row_existing by simp_all
  have "\<forall>n \<in> set ns. has_row job (nr_external_id n) ?db"
    using Cons.prems has_row_items [OF same(1)] by simp
  with Cons.IH same show ?case by (simp add: insert_rows_Cons del: insert_rows.simps(2))
qed simp

lemma insert_rows_prefix:
  "\<exists>new. items (fst (insert_rows job now ns db)) = items db @ new"
proof (induction ns arbitrary: db)
  case (Cons n ns)
  obtain new1 where "items (fst (insert_row job now n db)) = items db @ new1"
    by (cases "has_row job (nr_external_id n) db") (auto simp: insert_row_def)
  moreover obtain new2 where
    "items (fst (insert_rows job now ns (fst (insert_row job now n db)))) =
       items (fst (insert_row job now n db)) @ new2"
    using Cons.IH by blast
  ultimately show ?case by (simp add: insert_rows_Cons del: insert_rows.simps(2))
qed simp

lemma bulk_insert_again:
  assumes "bulk_insert job its failed now db = Inr (db1, n)"
    and "\<And>e. has_row job e db1 \<Longrightarrow> has_row job e db2" and "job \<in> job_ids db2"
  shows "\<exists>db3. bulk_insert job its failed now' db2 = Inr (db3, 0) \<and> items db3 = items db2"
proof -
  let ?rows = "map pending_row its @ map failed_row failed"
  show ?thesis
  proof (cases "?rows = []")
    case True
    then show ?thesis by (simp add: bulk_insert_def)
  next
    case False
    with assms(1) have ok: "list_all new_row_ok ?rows" and "(db1, n) = insert_rows job now ?rows db"
      unfolding bulk_insert_def Let_def by (auto split: if_splits)
    then have "db1 = fst (insert_rows job now ?rows db)" by (metis fst_conv)
    then have "\<forall>n \<in> set ?rows. has_row job (nr_external_id n) db2"
      using assms(2) has_row_insert_rows [of job _ job now ?rows db] by auto
    from insert_rows_existing [OF this, of now'] show ?thesis
      using False ok assms(3) unfolding bulk_insert_def Let_def
      by (auto simp: prod_eq_iff intro: exI [of _ "fst (insert_rows job now' ?rows db2)"])
  qed
qed

text \<open>
  Insertion is idempotent: inserting the same items and failures again leaves every row as
  it is, whatever happened to the rows in between, and reports 0 new rows.
\<close>

lemma bulk_insert_idempotent:
  assumes "bulk_insert job its failed now db = Inr (db1, n)"
    and "\<And>e. has_row job e db1 \<Longrightarrow> has_row job e db2" and "job \<in> job_ids db2"
  shows "\<exists>db3. bulk_insert job its failed now' db2 = Inr (db3, 0) \<and> items db3 = items db2"
  using bulk_insert_again [OF assms(1) _ assms(3)] assms(2) by blast

lemma bulk_insert_idempotent_example:
  "\<exists>db1 db3. bulk_insert ''j'' [\<lparr>pi_external_id = ''c'', pi_prompt = ''p''\<rparr>] [] 0 demo_db = Inr (db1, 1) \<and>
     bulk_insert ''j'' [\<lparr>pi_external_id = ''c'', pi_prompt = ''p''\<rparr>] [] 9 db1 = Inr (db3, 0) \<and>
     items db3 = items db1"
proof -
  obtain db1 where db1: "bulk_insert ''j'' [\<lparr>pi_external_id = ''c'', pi_prompt = ''p''\<rparr>] [] 0 demo_db = Inr (db1, 1)"
    and job: "''j'' \<in> job_ids db1"
    by (simp add: bulk_insert_def demo_db_def demo_row_def pending_row_def new_row_ok_def text_ok_def
        job_ids_def insert_row_def has_row_def)
  from bulk_insert_idempotent [OF db1 _ job] db1 show ?thesis by blast
qed

end
