(* ===== verification/Ingestor.thy ===== *)
theory Ingestor
  imports Validation JobRepo QueueProps "HOL-Library.Multiset"
begin

text \<open>
  \<open>BatchIngestor\<close> (\<open>app/services/ingestor.py\<close>). The \<open>ijson\<close> package is not
  the repository's: what it does with the file is the argument \<open>stream\<close>, the objects it
  yields and the exception it raises after them, if any, or the error of opening the file.

  A JSON value is what \<open>_to_item\<close> can tell apart; a number that is not an integer, an
  array or an object is \<open>JOpaque\<close> with its \<open>str\<close>. A dict is the association list
  of its keys.
\<close>

section \<open>\<open>_to_item\<close>\<close>

datatype json = JNull | JBool bool | JInt int | JText string | JOpaque string

datatype input_obj = Obj "(string \<times> json) list" | NonObj

fun py_str :: "json \<Rightarrow> string" where
  "py_str JNull = ''None''"
| "py_str (JBool b) = (if b then ''True'' else ''False'')"
| "py_str (JInt i) = int_str i"
| "py_str (JText s) = s"
| "py_str (JOpaque s) = s"

definition row_name :: "nat \<Rightarrow> string" where
  "row_name n = ''row-'' @ nat_str n"

fun to_item :: "input_obj \<Rightarrow> nat \<Rightarrow> prompt_item option \<times> string" where
  "to_item NonObj row_number = (None, row_name row_number)"
| "to_item (Obj kvs) row_number =
     (let raw_id = map_of kvs ''id'';
          external_id =
            (case raw_id of
               None \<Rightarrow> row_name row_number
             | Some v \<Rightarrow> if v = JNull \<or> v = JText [] then row_name row_number else py_str v)
      in case map_of kvs ''prompt'' of
           Some (JText prompt) \<Rightarrow>
             (Some \<lparr>pi_external_id = external_id, pi_prompt = prompt\<rparr>, external_id)
         | _ \<Rightarrow> (None, external_id))"

section \<open>\<open>ingest\<close>\<close>

definition insert_batch :: nat where
  "insert_batch = 500"

type_synonym stream = "exn + input_obj list \<times> exn option"

record ingest_state =
  ig_total :: nat
  ig_accepted :: nat
  ig_rejected :: nat
  ig_items :: "prompt_item list"
  ig_failed :: "result_record list"
  ig_seen :: seen_ids
  ig_db :: database

definition ingest_start :: "database \<Rightarrow> ingest_state" where
  "ingest_start db =
     \<lparr>ig_total = 0, ig_accepted = 0, ig_rejected = 0, ig_items = [], ig_failed = [],
      ig_seen = [], ig_db = db\<rparr>"

text \<open>A \<open>ResultRecord\<close> with the fields the ingestor gives, the others at their defaults.\<close>

definition rejection :: "string \<Rightarrow> string \<Rightarrow> result_record" where
  "rejection external_id err =
     \<lparr>rr_external_id = external_id, rr_status = I_FAILED, rr_response = None,
      rr_error = Some err, rr_attempts = 0, rr_latency_ms = None\<rparr>"

definition flush :: "uuid \<Rightarrow> time \<Rightarrow> ingest_state \<Rightarrow> exn option \<times> ingest_state" where
  "flush job now st =
     (if ig_items st \<noteq> [] \<or> ig_failed st \<noteq> []
      then (case bulk_insert job (ig_items st) (ig_failed st) now (ig_db st) of
              Inl e \<Rightarrow> (Some e, st)
            | Inr (db', n) \<Rightarrow> (None, st\<lparr>ig_db := db', ig_items := [], ig_failed := []\<rparr>))
      else (None, st))"

text \<open>The loop body up to the flush.\<close>

definition take_row :: "settings \<Rightarrow> input_obj \<Rightarrow> ingest_state \<Rightarrow> ingest_state" where
  "take_row s obj st =
     (let n = ig_total st + 1; st1 = st\<lparr>ig_total := n\<rparr>
      in case to_item obj n of
           (None, external_id) \<Rightarrow>
             st1\<lparr>ig_rejected := ig_rejected st1 + 1,
                 ig_failed := ig_failed st1 @
                   [rejection (if external_id = [] then row_name n else external_id)
                      ''validation: malformed item (missing/invalid prompt)'']\<rparr>
         | (Some item, external_id) \<Rightarrow>
             (case validate_item (build_validation_pipeline s) item (ig_seen st1) of
                (seen, outcome) \<Rightarrow>
                  if oc_ok outcome
                  then st1\<lparr>ig_seen := seen, ig_accepted := ig_accepted st1 + 1,
                           ig_items := ig_items st1 @ [item]\<rparr>
                  else st1\<lparr>ig_seen := seen, ig_rejected := ig_rejected st1 + 1,
                           ig_failed := ig_failed st1 @
                             [rejection (pi_external_id item)
                                (''validation: '' @ py_join ''; '' (oc_errors outcome))]\<rparr>))"

definition ingest_row ::
  "settings \<Rightarrow> uuid \<Rightarrow> (nat \<Rightarrow> time) \<Rightarrow> input_obj \<Rightarrow> ingest_state \<Rightarrow> exn option \<times> ingest_state" where
  "ingest_row s job clock obj st =
     (let st1 = take_row s obj st
      in if insert_batch \<le> length (ig_items st1) + length (ig_failed st1)
         then flush job (clock (ig_total st1)) st1 else (None, st1))"

fun ingest_rows ::
  "settings \<Rightarrow> uuid \<Rightarrow> (nat \<Rightarrow> time) \<Rightarrow> input_obj list \<Rightarrow> ingest_state \<Rightarrow> exn option \<times> ingest_state" where
  "ingest_rows s job clock [] st = (None, st)"
| "ingest_rows s job clock (obj # objs) st =
     (case ingest_row s job clock obj st of
        (Some e, st') \<Rightarrow> (Some e, st')
      | (None, st') \<Rightarrow> ingest_rows s job clock objs st')"

text \<open>
  \<open>clock\<close> gives the time of the transaction after so many objects were read. The database
  an exception leaves behind keeps the batches flushed before it.
\<close>

definition ingest ::
  "settings \<Rightarrow> uuid \<Rightarrow> (nat \<Rightarrow> time) \<Rightarrow> stream \<Rightarrow> database \<Rightarrow> (exn + ingest_summary) \<times> database" where
  "ingest s job clock stream db =
     (case stream of
        Inl e \<Rightarrow> (Inl e, db)
      | Inr (objs, err) \<Rightarrow>
          (case ingest_rows s job clock objs (ingest_start db) of
             (Some e, st) \<Rightarrow> (Inl e, ig_db st)
           | (None, st) \<Rightarrow>
               (case err of
                  Some e \<Rightarrow> (Inl e, ig_db st)
                | None \<Rightarrow>
                    (case flush job (clock (ig_total st)) st of
                       (Some e, st') \<Rightarrow> (Inl e, ig_db st')
                     | (None, st') \<Rightarrow>
                         (case set_total job (ig_total st') (clock (ig_total st')) (ig_db st') of
                            Inl e \<Rightarrow> (Inl e, ig_db st')
                          | Inr db' \<Rightarrow>
                              (Inr \<lparr>su_total = ig_total st', su_accepted = ig_accepted st',
                                    su_rejected = ig_rejected st'\<rparr>, db'))))))"

section \<open>What a row contributes\<close>

definition input_id :: "input_obj \<Rightarrow> nat \<Rightarrow> string" where
  "input_id obj n =
     (case to_item obj n of
        (Some item, e) \<Rightarrow> pi_external_id item
      | (None, e) \<Rightarrow> if e = [] then row_name n else e)"

definition input_ids :: "input_obj list \<Rightarrow> string list" where
  "input_ids objs = map (\<lambda>(n, obj). input_id obj n) (enumerate 1 objs)"

definition buffered :: "ingest_state \<Rightarrow> string list" where
  "buffered st = map pi_external_id (ig_items st) @ map rr_external_id (ig_failed st)"

lemma take_row_spec:
  "ig_total (take_row s obj st) = Suc (ig_total st)"
  "ig_db (take_row s obj st) = ig_db st"
  "mset (buffered (take_row s obj st)) = add_mset (input_id obj (Suc (ig_total st))) (mset (buffered st))"
  "ig_accepted (take_row s obj st) + length (ig_items st) = ig_accepted st + length (ig_items (take_row s obj st))"
  "ig_rejected (take_row s obj st) + length (ig_failed st) = ig_rejected st + length (ig_failed (take_row s obj st))"
  "ig_accepted (take_row s obj st) + ig_rejected (take_row s obj st) = Suc (ig_accepted st + ig_rejected st)"
  by (auto simp: take_row_def Let_def input_id_def buffered_def rejection_def
      split: prod.splits option.splits)

lemma flush_None:
  assumes "flush job now st = (None, st')"
  shows "st' = st\<lparr>ig_db := ig_db st', ig_items := [], ig_failed := []\<rparr>"
    and "\<exists>n. bulk_insert job (ig_items st) (ig_failed st) now (ig_db st) = Inr (ig_db st', n)"
proof -
  have "bulk_insert job [] [] now (ig_db st) = Inr (ig_db st, 0)" by (simp add: bulk_insert_def)
  with assms show "st' = st\<lparr>ig_db := ig_db st', ig_items := [], ig_failed := []\<rparr>"
    and "\<exists>n. bulk_insert job (ig_items st) (ig_failed st) now (ig_db st) = Inr (ig_db st', n)"
    by (auto simp: flush_def split: if_splits sum.splits)
qed

section \<open>Rows and keys\<close>

definition buffer_rows :: "ingest_state \<Rightarrow> new_row list" where
  "buffer_rows st = map pending_row (ig_items st) @ map failed_row (ig_failed st)"

lemma buffer_rows_ids: "map nr_external_id (buffer_rows st) = buffered st"
  by (simp add: buffer_rows_def buffered_def pending_row_def failed_row_def o_def)

lemma bulk_insert_Inr_rows:
  assumes "bulk_insert job its failed now db = Inr (db', n)"
  shows "db' = fst (insert_rows job now (map pending_row its @ map failed_row failed) db)"
proof (cases "map pending_row its @ map failed_row failed = []")
  case False
  then have "insert_rows job now (map pending_row its @ map failed_row failed) db = (db', n)"
    using assms unfolding bulk_insert_def Let_def by (auto split: if_splits)
  then show ?thesis by simp
qed (use assms in \<open>auto simp: bulk_insert_def\<close>)

lemma flush_db:
  "flush job now st = (None, st') \<Longrightarrow> ig_db st' = fst (insert_rows job now (buffer_rows st) (ig_db st))"
  using flush_None(2) bulk_insert_Inr_rows unfolding buffer_rows_def by blast

lemma flush_empty: "flush job now st = (None, st') \<Longrightarrow> buffered st' = []"
  by (subst flush_None(1)) (auto simp: buffered_def)

text \<open>The job's external ids, stored or waiting in the buffers.\<close>

definition known_ids :: "uuid \<Rightarrow> ingest_state \<Rightarrow> string set" where
  "known_ids job st = {e. has_row job e (ig_db st)} \<union> set (buffered st)"

lemma flush_known: "flush job now st = (None, st') \<Longrightarrow> known_ids job st' = known_ids job st"
  unfolding known_ids_def by (auto simp: flush_empty flush_db has_row_insert_rows buffer_rows_ids simp del: set_map)

lemma take_row_known:
  "known_ids job (take_row s obj st) = insert (input_id obj (Suc (ig_total st))) (known_ids job st)"
  using arg_cong [OF take_row_spec(3), where f = set_mset] by (simp add: known_ids_def take_row_spec(2))

lemma ingest_row_step:
  assumes "ingest_row s job clock obj st = (None, st')"
  shows "st' = take_row s obj st \<or> (\<exists>now. flush job now (take_row s obj st) = (None, st'))"
  using assms by (auto simp: ingest_row_def Let_def split: if_splits)

text \<open>An invariant of the loop holds if taking a row and flushing keep it.\<close>

lemma ingest_rows_induct:
  assumes "ingest_rows s job clock objs st = (None, st')" and "P st"
    and "\<And>st obj. obj \<in> set objs \<Longrightarrow> P st \<Longrightarrow> P (take_row s obj st)"
    and "\<And>st st' now. P st \<Longrightarrow> flush job now st = (None, st') \<Longrightarrow> P st'"
  shows "P st'"
  using assms(1-3)
proof (induction objs arbitrary: st)
  case (Cons obj objs)
  from Cons.prems(1) obtain st1 where st1: "ingest_row s job clock obj st = (None, st1)"
    and rest: "ingest_rows s job clock objs st1 = (None, st')" by (auto split: prod.splits option.splits)
  have "P (take_row s obj st)" using Cons.prems by simp
  with ingest_row_step [OF st1] assms(4) have "P st1" by blast
  with Cons.IH [OF rest] Cons.prems(3) show ?case by simp
qed simp

lemma flush_counts:
  assumes "flush job now st = (None, st')"
  shows "ig_total st' = ig_total st" "ig_accepted st' = ig_accepted st" "ig_rejected st' = ig_rejected st"
    "ig_seen st' = ig_seen st"
  by (subst flush_None(1) [OF assms], simp)+

lemma ingest_rows_total:
  "ingest_rows s job clock objs st = (None, st') \<Longrightarrow> ig_total st' = ig_total st + length objs"
proof (induction objs arbitrary: st)
  case (Cons obj objs)
  then obtain st1 where st1: "ingest_row s job clock obj st = (None, st1)"
    and rest: "ingest_rows s job clock objs st1 = (None, st')" by (auto split: prod.splits option.splits)
  have "ig_total st1 = Suc (ig_total st)"
    using ingest_row_step [OF st1] flush_counts(1) take_row_spec(1) [of s obj st] by metis
  with Cons.IH [OF rest] show ?case by simp
qed simp

lemma ingest_rows_known:
  "ingest_rows s job clock objs st = (None, st') \<Longrightarrow>
   known_ids job st' = known_ids job st \<union> set (map (\<lambda>(n, obj). input_id obj n) (enumerate (Suc (ig_total st)) objs))"
proof (induction objs arbitrary: st)
  case (Cons obj objs)
  then obtain st1 where st1: "ingest_row s job clock obj st = (None, st1)"
    and rest: "ingest_rows s job clock objs st1 = (None, st')" by (auto split: prod.splits option.splits)
  have "ig_total st1 = Suc (ig_total st)" and
    "known_ids job st1 = insert (input_id obj (Suc (ig_total st))) (known_ids job st)"
    using ingest_row_step [OF st1] flush_counts(1) flush_known take_row_spec(1) [of s obj st]
      take_row_known [of job s obj st] by metis+
  with Cons.IH [OF rest] show ?case by auto
qed simp

text \<open>How a successful ingestion ends.\<close>

lemma ingest_Inr:
  assumes "ingest s job clock stream db = (Inr su, db')"
  obtains objs st st' where "stream = Inr (objs, None)"
    and "ingest_rows s job clock objs (ingest_start db) = (None, st)"
    and "flush job (clock (ig_total st)) st = (None, st')"
    and "set_total job (ig_total st') (clock (ig_total st')) (ig_db st') = Inr db'"
    and "su = \<lparr>su_total = ig_total st', su_accepted = ig_accepted st', su_rejected = ig_rejected st'\<rparr>"
  using assms unfolding ingest_def by (auto split: sum.splits prod.splits option.splits)

lemma ingest_start_sel [simp]:
  "ig_total (ingest_start db) = 0" "ig_accepted (ingest_start db) = 0" "ig_rejected (ingest_start db) = 0"
  "ig_items (ingest_start db) = []" "ig_failed (ingest_start db) = []" "ig_db (ingest_start db) = db"
  "buffered (ingest_start db) = []" "known_ids job (ingest_start db) = {e. has_row job e db}"
  by (simp_all add: ingest_start_def buffered_def known_ids_def)

end
