(* ===== verification/IngestProps.thy ===== *)
theory IngestProps
  imports Ingestor
begin

text \<open>
  What ingestion guarantees: the counts add up, every object of the file has its row, running it
  again changes nothing, and a file with different ids becomes exactly one row per object, of
  the status the validation decided.
\<close>

section \<open>Rows of a job\<close>

lemma job_rows_card:
  assumes wf: "db_wf db"
  shows "row_count (\<lambda>r. i_job_id r = job) (items db) = card {e. has_row job e db}"
proof -
  let ?rows = "filter (\<lambda>r. i_job_id r = job) (items db)"
  have "inj_on i_external_id (set ?rows)"
    using row_by_key [OF wf] by (auto simp: inj_on_def item_key_def)
  moreover have "distinct ?rows"
    using db_wf_ids_distinct [OF wf] by (simp add: distinct_map)
  ultimately have "card (i_external_id ` set ?rows) = length ?rows"
    by (simp only: card_image distinct_card)
  moreover have "i_external_id ` set ?rows = {e. has_row job e db}" by (auto simp: has_row_def)
  ultimately show ?thesis by (simp add: row_count_def)
qed

lemma ingest_wf:
  assumes "db_wf db" and "ingest s job clock stream db = (Inr su, db')"
  shows "db_wf db'"
proof -
  from assms(2) obtain objs st st' where rows: "ingest_rows s job clock objs (ingest_start db) = (None, st)"
    and fl: "flush job (clock (ig_total st)) st = (None, st')"
    and tot: "set_total job (ig_total st') (clock (ig_total st')) (ig_db st') = Inr db'"
    by (rule ingest_Inr)
  have flush: "db_wf (ig_db a) \<Longrightarrow> flush job now a = (None, b) \<Longrightarrow> db_wf (ig_db b)" for a b now
    using flush_None(2) [of job now a b] bulk_insert_wf by blast
  have "db_wf (ig_db st)"
    by (rule ingest_rows_induct [OF rows]) (simp_all add: assms(1) take_row_spec(2) flush)
  from set_total_wf [OF flush [OF this fl] tot] show ?thesis by simp
qed

lemma ingest_known:
  assumes "ingest s job clock (Inr (objs, err)) db = (Inr su, db')"
  shows "{e. has_row job e db'} = {e. has_row job e db} \<union> set (input_ids objs)"
proof -
  from assms obtain st st' where rows: "ingest_rows s job clock objs (ingest_start db) = (None, st)"
    and fl: "flush job (clock (ig_total st)) st = (None, st')"
    and tot: "set_total job (ig_total st') (clock (ig_total st')) (ig_db st') = Inr db'"
    by (rule ingest_Inr) auto
  have "{e. has_row job e db'} = {e. has_row job e (ig_db st')}"
    using tot by (simp add: set_total_Inr has_row_def)
  also have "\<dots> = known_ids job st'" using flush_empty [OF fl] by (simp add: known_ids_def)
  also have "\<dots> = known_ids job st" by (rule flush_known [OF fl])
  finally show ?thesis using ingest_rows_known [OF rows] by (simp add: input_ids_def)
qed

section \<open>Counting by status\<close>

lemma count_in_insert_row:
  "\<not> has_row job (nr_external_id n) db \<Longrightarrow>
   count_in job st (fst (insert_row job now n db)) = count_in job st db + (if nr_status n = st then 1 else 0)"
  by (simp add: insert_row_def count_in_def row_count_def)

lemma count_in_insert_rows:
  "distinct (map nr_external_id ns) \<Longrightarrow> \<forall>n \<in> set ns. \<not> has_row job (nr_external_id n) db \<Longrightarrow>
   count_in job st (fst (insert_rows job now ns db)) =
     count_in job st db + length (filter (\<lambda>n. nr_status n = st) ns)"
proof (induction ns arbitrary: db)
  case (Cons n ns)
  have "\<forall>m \<in> set ns. \<not> has_row job (nr_external_id m) (fst (insert_row job now n db))"
    using Cons.prems by (auto simp: has_row_insert_row image_iff)
  then show ?case using Cons count_in_insert_row [of job n db st now]
    by (simp add: insert_rows_Cons del: insert_rows.simps(2))
qed simp

lemma filter_buffer_rows:
  "length (filter (\<lambda>n. nr_status n = I_PENDING) (buffer_rows st)) = length (ig_items st)"
  "length (filter (\<lambda>n. nr_status n = I_FAILED) (buffer_rows st)) = length (ig_failed st)"
  by (simp_all add: buffer_rows_def pending_row_def failed_row_def filter_map o_def)

text \<open>
  While the ids are new, the rows stored and the rows buffered are what was accepted and what
  was rejected.
\<close>

definition tally_ok :: "uuid \<Rightarrow> ingest_state \<Rightarrow> bool" where
  "tally_ok job st \<longleftrightarrow>
     ig_accepted st = count_in job I_PENDING (ig_db st) + length (ig_items st) \<and>
     ig_rejected st = count_in job I_FAILED (ig_db st) + length (ig_failed st) \<and>
     distinct (buffered st) \<and> (\<forall>e \<in> set (buffered st). \<not> has_row job e (ig_db st))"

lemma take_row_tally:
  assumes ok: "tally_ok job st" and new: "input_id obj (Suc (ig_total st)) \<notin> known_ids job st"
  shows "tally_ok job (take_row s obj st)"
proof -
  have m: "mset (buffered (take_row s obj st)) = mset (input_id obj (Suc (ig_total st)) # buffered st)"
    by (simp add: take_row_spec(3))
  have "distinct (buffered (take_row s obj st))"
    using mset_eq_imp_distinct_iff [OF m] ok new by (simp add: tally_ok_def known_ids_def)
  moreover have "set (buffered (take_row s obj st)) = insert (input_id obj (Suc (ig_total st))) (set (buffered st))"
    using mset_eq_setD [OF m] by simp
  ultimately show ?thesis
    using ok new take_row_spec(2,4,5) [of s obj st] by (auto simp: tally_ok_def known_ids_def)
qed

lemma flush_tally:
  assumes ok: "tally_ok job st" and fl: "flush job now st = (None, st')"
  shows "tally_ok job st'"
proof -
  have ids: "distinct (map nr_external_id (buffer_rows st))"
    "\<forall>n \<in> set (buffer_rows st). \<not> has_row job (nr_external_id n) (ig_db st)"
    using ok buffer_rows_ids [of st] unfolding tally_ok_def by (simp, metis image_eqI set_map)
  have "count_in job I_PENDING (ig_db st') = count_in job I_PENDING (ig_db st) + length (ig_items st)"
    "count_in job I_FAILED (ig_db st') = count_in job I_FAILED (ig_db st) + length (ig_failed st)"
    by (simp_all add: flush_db [OF fl] count_in_insert_rows [OF ids] filter_buffer_rows)
  moreover have "ig_items st' = []" "ig_failed st' = []"
    by (subst flush_None(1) [OF fl], simp)+
  ultimately show ?thesis using ok flush_counts [OF fl] flush_empty [OF fl] by (simp add: tally_ok_def)
qed

lemma ingest_rows_tally:
  assumes "ingest_rows s job clock objs st = (None, st')" and "tally_ok job st"
    and "distinct (map (\<lambda>(n, obj). input_id obj n) (enumerate (Suc (ig_total st)) objs))"
    and "\<forall>e \<in> set (map (\<lambda>(n, obj). input_id obj n) (enumerate (Suc (ig_total st)) objs)). e \<notin> known_ids job st"
  shows "tally_ok job st'"
  using assms
proof (induction objs arbitrary: st)
  case (Cons obj objs)
  then obtain st1 where st1: "ingest_row s job clock obj st = (None, st1)"
    and rest: "ingest_rows s job clock objs st1 = (None, st')" by (auto split: prod.splits option.splits)
  have t: "tally_ok job (take_row s obj st)" using take_row_tally Cons.prems by simp
  have "tally_ok job st1" using ingest_row_step [OF st1] flush_tally [OF t] t by metis
  moreover have tot: "ig_total st1 = Suc (ig_total st)" and
    "known_ids job st1 = insert (input_id obj (Suc (ig_total st))) (known_ids job st)"
    using ingest_row_step [OF st1] flush_counts(1) flush_known take_row_spec(1) [of s obj st]
      take_row_known [of job s obj st] by metis+
  ultimately show ?case using Cons.IH [OF rest] Cons.prems(3,4) by (fastforce simp: image_iff)
qed simp

section \<open>Again\<close>

text \<open>The loop on another database that already has all the rows.\<close>

definition same_loop :: "ingest_state \<Rightarrow> ingest_state \<Rightarrow> bool" where
  "same_loop st u \<longleftrightarrow> u = st\<lparr>ig_db := ig_db u\<rparr>"

lemma same_loop_sel:
  "same_loop st u \<Longrightarrow> ig_total u = ig_total st \<and> ig_accepted u = ig_accepted st \<and>
     ig_rejected u = ig_rejected st \<and> ig_items u = ig_items st \<and> ig_failed u = ig_failed st"
  by (cases st; cases u) (simp add: same_loop_def)

lemma take_row_same: "same_loop st u \<Longrightarrow> same_loop (take_row s obj st) (take_row s obj u)"
  by (cases st; cases u) (auto simp: same_loop_def take_row_def Let_def split: prod.split option.split)

lemma flush_again:
  assumes "flush job now st = (None, st1)" and same: "same_loop st u"
    and "\<And>e. has_row job e (ig_db st1) \<Longrightarrow> has_row job e (ig_db u)" and "job \<in> job_ids (ig_db u)"
  shows "\<exists>u1. flush job now' u = (None, u1) \<and> same_loop st1 u1 \<and> items (ig_db u1) = items (ig_db u) \<and>
    jobs (ig_db u1) = jobs (ig_db u)"
proof -
  note sel = same_loop_sel [OF same]
  obtain n where "bulk_insert job (ig_items st) (ig_failed st) now (ig_db st) = Inr (ig_db st1, n)"
    using flush_None(2) [OF assms(1)] by blast
  from bulk_insert_again [OF this assms(3,4), of now'] obtain db3 where
    again: "bulk_insert job (ig_items u) (ig_failed u) now' (ig_db u) = Inr (db3, 0)" and "items db3 = items (ig_db u)"
    using sel by auto
  moreover have "jobs db3 = jobs (ig_db u)"
    unfolding bulk_insert_Inr_rows [OF again] by (simp add: frame_simps)
  moreover have "st1 = st\<lparr>ig_db := ig_db st1, ig_items := [], ig_failed := []\<rparr>"
    by (rule flush_None(1) [OF assms(1)])
  ultimately show ?thesis using same sel
    by (cases st; cases u; cases st1) (auto simp: flush_def same_loop_def)
qed

lemma flush_mono: "flush job now st = (None, st') \<Longrightarrow> has_row job' e (ig_db st) \<Longrightarrow> has_row job' e (ig_db st')"
  by (simp add: flush_db has_row_insert_rows)

lemma ingest_rows_mono:
  "ingest_rows s job clock objs st = (None, st') \<Longrightarrow> has_row job e (ig_db st) \<Longrightarrow> has_row job e (ig_db st')"
  by (rule ingest_rows_induct [where P = "\<lambda>st. has_row job e (ig_db st)"])
     (auto simp: take_row_spec(2) flush_mono)

lemma ingest_rows_again:
  assumes "ingest_rows s job clock objs st = (None, st')" and "same_loop st u"
    and "\<And>e. has_row job e (ig_db st') \<Longrightarrow> has_row job e (ig_db u)" and "job \<in> job_ids (ig_db u)"
  shows "\<exists>u'. ingest_rows s job clock' objs u = (None, u') \<and> same_loop st' u' \<and>
    items (ig_db u') = items (ig_db u) \<and> jobs (ig_db u') = jobs (ig_db u)"
  using assms
proof (induction objs arbitrary: st u)
  case (Cons obj objs)
  then obtain st1 where st1: "ingest_row s job clock obj st = (None, st1)"
    and rest: "ingest_rows s job clock objs st1 = (None, st')" by (auto split: prod.splits option.splits)
  let ?t = "take_row s obj st" and ?v = "take_row s obj u"
  have same: "same_loop ?t ?v" by (rule take_row_same [OF Cons.prems(2)])
  note sel = same_loop_sel [OF same]
  have later: "has_row job e (ig_db u)" if "has_row job e (ig_db st1)" for e
    using Cons.prems(3) ingest_rows_mono [OF rest that] by blast
  obtain u1 where u1: "ingest_row s job clock' obj u = (None, u1)" "same_loop st1 u1"
    "items (ig_db u1) = items (ig_db u)" "jobs (ig_db u1) = jobs (ig_db u)"
  proof (cases "insert_batch \<le> length (ig_items ?t) + length (ig_failed ?t)")
    case True
    with st1 have "flush job (clock (ig_total ?t)) ?t = (None, st1)" by (simp add: ingest_row_def Let_def)
    from flush_again [OF this same, of "clock' (ig_total ?v)"] later Cons.prems(4) True sel that
    show ?thesis by (auto simp: ingest_row_def take_row_spec(2))
  next
    case False
    with st1 same sel that [of ?v] show ?thesis by (auto simp: ingest_row_def take_row_spec(2))
  qed
  have "\<exists>u'. ingest_rows s job clock' objs u1 = (None, u') \<and> same_loop st' u' \<and>
      items (ig_db u') = items (ig_db u1) \<and> jobs (ig_db u') = jobs (ig_db u1)"
    using Cons.prems(3,4) u1 by (intro Cons.IH [OF rest]) (auto simp: has_row_def job_ids_def)
  with u1 show ?case by auto
qed simp

section \<open>Properties\<close>

lemma ingest_summary_counts:
  assumes "ingest s job clock (Inr (objs, err)) db = (Inr su, db')"
  shows "err = None \<and> su_total su = length objs \<and> su_accepted su + su_rejected su = su_total su \<and>
    map_option j_total_items (find_job db' job) =
      (if job \<in> job_ids db' then Some (length objs) else None)"
proof -
  from assms obtain st st' where err: "err = None"
    and rows: "ingest_rows s job clock objs (ingest_start db) = (None, st)"
    and fl: "flush job (clock (ig_total st)) st = (None, st')"
    and tot: "set_total job (ig_total st') (clock (ig_total st')) (ig_db st') = Inr db'"
    and su: "su = \<lparr>su_total = ig_total st', su_accepted = ig_accepted st', su_rejected = ig_rejected st'\<rparr>"
    by (rule ingest_Inr) auto
  have n: "ig_total st' = length objs" using ingest_rows_total [OF rows] flush_counts(1) [OF fl] by simp
  have "ig_accepted st + ig_rejected st = ig_total st"
    by (rule ingest_rows_induct [OF rows]) (simp_all add: take_row_spec(1,6) flush_counts)
  then have "ig_accepted st' + ig_rejected st' = ig_total st'" by (simp add: flush_counts [OF fl])
  moreover have "map_option j_total_items (find_job db' job) =
      (if job \<in> job_ids db' then Some (length objs) else None)"
  proof (cases "find_job db' job")
    case None
    then show ?thesis by (simp add: find_job_None_iff)
  next
    case (Some row)
    then have "job \<in> job_ids db'" using find_job_None_iff [of db' job] by simp
    moreover have "j_total_items row = length objs"
      using tot Some n by (auto simp: set_total_Inr find_job_update)
    ultimately show ?thesis by (simp add: Some)
  qed
  ultimately show ?thesis using err n su by simp
qed

lemma ingest_total_recorded:
  "ingest s job clock (Inr (objs, err)) db = (Inr su, db') \<Longrightarrow>
   map_option j_total_items (find_job db' job) = (if job \<in> job_ids db' then Some (length objs) else None)"
  using ingest_summary_counts by blast

text \<open>
  C23: No object of the file is lost: after a successful ingestion the job has a row for every
  object, under the id it was given (its own, or its row number when it has none), and no row
  under any other new id; the number of rows is the number of different ids, so a file with
  repeated ids has fewer rows than its recorded total.
\<close>

theorem ingest_keeps_every_object:
  assumes "db_wf db" and "ingest s job clock (Inr (objs, err)) db = (Inr su, db')"
    and "\<And>r. r \<in> set (items db) \<Longrightarrow> i_job_id r \<noteq> job"
  shows "(\<forall>e. has_row job e db' \<longleftrightarrow> e \<in> set (input_ids objs)) \<and>
    row_count (\<lambda>r. i_job_id r = job) (items db') = card (set (input_ids objs)) \<and> db_wf db'"
proof -
  have none: "{e. has_row job e db} = {}" using assms(3) by (auto simp: has_row_def)
  note known = ingest_known [OF assms(2)]
  have "{e. has_row job e db'} = set (input_ids objs)" using known none by simp
  then show ?thesis using job_rows_card [OF ingest_wf [OF assms(1,2)], of job] ingest_wf [OF assms(1,2)] by auto
qed


text \<open>
  C25: Ingestion is idempotent, which is what resuming a job relies on: running it again over a
  database that still has the rows (claimed, finished or not in the meantime) gives the same
  summary and leaves every row as it is.
\<close>

theorem reingest_changes_no_row:
  assumes "ingest s job clock stream db = (Inr su, db1)"
    and "\<And>e. has_row job e db1 \<Longrightarrow> has_row job e db2" and "job \<in> job_ids db2"
  shows "\<exists>db3. ingest s job clock' stream db2 = (Inr su, db3) \<and> items db3 = items db2"
proof -
  from assms(1) obtain objs st st' where stream: "stream = Inr (objs, None)"
    and rows: "ingest_rows s job clock objs (ingest_start db) = (None, st)"
    and fl: "flush job (clock (ig_total st)) st = (None, st')"
    and tot: "set_total job (ig_total st') (clock (ig_total st')) (ig_db st') = Inr db1"
    and su: "su = \<lparr>su_total = ig_total st', su_accepted = ig_accepted st', su_rejected = ig_rejected st'\<rparr>"
    by (rule ingest_Inr)
  have later: "has_row job e db2" if "has_row job e (ig_db st')" for e
    using assms(2) tot that by (auto simp: set_total_Inr has_row_def)
  have "same_loop (ingest_start db) (ingest_start db2)" by (simp add: same_loop_def ingest_start_def)
  from ingest_rows_again [OF rows this, of clock'] obtain u where
    u: "ingest_rows s job clock' objs (ingest_start db2) = (None, u)" "same_loop st u"
    "items (ig_db u) = items db2" "jobs (ig_db u) = jobs db2"
    using later flush_mono [OF fl] assms(3) by auto
  from flush_again [OF fl u(2), of "clock' (ig_total u)"] obtain v where
    v: "flush job (clock' (ig_total u)) u = (None, v)" "same_loop st' v" "items (ig_db v) = items db2"
    using later assms(3) u by (auto simp: has_row_def job_ids_def)
  then show ?thesis
    using same_loop_sel [OF v(2)] tot su u(1) by (auto simp: ingest_def stream set_total_def split: if_splits)
qed

definition demo_job_db :: database where
  "demo_job_db = demo_db\<lparr>items := []\<rparr>"

lemma demo_job_db_wf: "db_wf demo_job_db"
  by (simp add: demo_job_db_def demo_db_def db_wf_def job_ids_def)

definition demo_input :: "input_obj list" where
  "demo_input = [Obj [(''id'', JInt 7), (''prompt'', JText ''hello'')], NonObj,
     Obj [(''id'', JText ''x''), (''prompt'', JText '' '')]]"

lemma demo_input_ids: "input_ids demo_input = [''7'', ''row-2'', ''x'']"
  by code_simp

definition demo_ingest :: "(exn + ingest_summary) \<times> database" where
  "demo_ingest = ingest default_settings ''j'' (\<lambda>n. 0) (Inr (demo_input, None)) demo_job_db"

text \<open>The three objects one by one.\<close>

lemma demo_to_item:
  "to_item (Obj [(''id'', JInt 7), (''prompt'', JText ''hello'')]) (Suc 0) =
     (Some \<lparr>pi_external_id = ''7'', pi_prompt = ''hello''\<rparr>, ''7'')"
  "to_item NonObj (Suc (Suc 0)) = (None, ''row-2'')"
  "to_item (Obj [(''id'', JText ''x''), (''prompt'', JText '' '')]) (Suc (Suc (Suc 0))) =
     (Some \<lparr>pi_external_id = ''x'', pi_prompt = '' ''\<rparr>, ''x'')"
  by code_simp+

lemma demo_validate:
  "validate_item (build_validation_pipeline default_settings) \<lparr>pi_external_id = ''7'', pi_prompt = ''hello''\<rparr> [] =
     ([''7''], \<lparr>oc_ok = True, oc_errors = []\<rparr>)"
  "validate_item (build_validation_pipeline default_settings) \<lparr>pi_external_id = ''x'', pi_prompt = '' ''\<rparr> [''7''] =
     ([''x'', ''7''], \<lparr>oc_ok = False, oc_errors = [''prompt shorter than min_chars=1'']\<rparr>)"
  by code_simp+

lemma demo_ingest_rows:
  "ingest_rows default_settings ''j'' (\<lambda>n. 0) demo_input (ingest_start demo_job_db) =
     (None, \<lparr>ig_total = 3, ig_accepted = 1, ig_rejected = 2,
        ig_items = [\<lparr>pi_external_id = ''7'', pi_prompt = ''hello''\<rparr>],
        ig_failed = [rejection ''row-2'' ''validation: malformed item (missing/invalid prompt)'',
          rejection ''x'' ''validation: prompt shorter than min_chars=1''],
        ig_seen = [''x'', ''7''], ig_db = demo_job_db\<rparr>)"
  by (simp add: demo_input_def ingest_row_def take_row_def demo_to_item demo_validate ingest_start_def
      Let_def insert_batch_def del: to_item.simps)

lemma demo_ingest_returns:
  "\<exists>db'. demo_ingest = (Inr \<lparr>su_total = 3, su_accepted = 1, su_rejected = 2\<rparr>, db') \<and> ''j'' \<in> job_ids db'"
proof -
  let ?rows = "[pending_row \<lparr>pi_external_id = ''7'', pi_prompt = ''hello''\<rparr>,
      failed_row (rejection ''row-2'' ''validation: malformed item (missing/invalid prompt)''),
      failed_row (rejection ''x'' ''validation: prompt shorter than min_chars=1'')]"
  have "list_all new_row_ok ?rows"
    by (simp add: new_row_ok_def text_ok_def pending_row_def failed_row_def rejection_def)
  moreover have job: "''j'' \<in> job_ids demo_job_db" by (simp add: demo_job_db_def demo_db_def job_ids_def)
  ultimately have "bulk_insert ''j'' [\<lparr>pi_external_id = ''7'', pi_prompt = ''hello''\<rparr>]
      [rejection ''row-2'' ''validation: malformed item (missing/invalid prompt)'',
       rejection ''x'' ''validation: prompt shorter than min_chars=1''] 0 demo_job_db =
      Inr (insert_rows ''j'' 0 ?rows demo_job_db)"
    by (simp add: bulk_insert_def Let_def)
  moreover obtain db1 n where "insert_rows ''j'' 0 ?rows demo_job_db = (db1, n)" by fastforce
  moreover have "job_ids (fst (insert_rows ''j'' 0 ?rows demo_job_db)) = job_ids demo_job_db"
    by (rule insert_rows_frame(2))
  moreover have "job_ids (update_job j f q) = job_ids q" if "\<And>r. j_id (f r) = j_id r" for j f q
    unfolding job_ids_def using update_job_ids [OF that, of j q] by (metis set_map)
  ultimately show ?thesis using job
    by (simp add: demo_ingest_def ingest_def demo_ingest_rows flush_def set_total_def int4_limit_def)
qed

lemma demo_ingests:
  "ingest default_settings ''j'' (\<lambda>n. 0) (Inr (demo_input, None)) demo_job_db =
     (Inr \<lparr>su_total = 3, su_accepted = 1, su_rejected = 2\<rparr>, snd demo_ingest)"
  using demo_ingest_returns by (auto simp: demo_ingest_def)

lemma demo_ingest_job: "''j'' \<in> job_ids (snd demo_ingest)"
  using demo_ingest_returns by (metis snd_conv)

lemma demo_ingest_total:
  "map_option j_total_items (find_job (snd demo_ingest) ''j'') = Some 3"
  using ingest_total_recorded [OF demo_ingests] demo_ingest_job by (simp add: demo_input_def eval_nat_numeral)

theorem ingest_keeps_every_object_witness:
  "has_row ''j'' ''row-2'' (snd demo_ingest) \<and> row_count (\<lambda>r. i_job_id r = ''j'') (items (snd demo_ingest)) = 3"
  using ingest_keeps_every_object [OF demo_job_db_wf demo_ingests]
  by (simp add: demo_input_ids) (simp add: demo_job_db_def)


theorem reingest_changes_no_row_witness:
  "\<exists>db3. ingest default_settings ''j'' (\<lambda>n. 9) (Inr (demo_input, None)) (snd demo_ingest) =
       (Inr \<lparr>su_total = 3, su_accepted = 1, su_rejected = 2\<rparr>, db3) \<and>
     items db3 = items (snd demo_ingest)"
  using reingest_changes_no_row [OF demo_ingests _ demo_ingest_job] by blast

end
