(* ===== verification/StorageProps.thy ===== *)
theory StorageProps
  imports Storage
begin

text \<open>
  What the result store guarantees, for any JSON codec that keeps the laws of
  \<open>record_codec\<close>, and where it breaks: a response with a \<open>NEL\<close>, which
  \<open>str.splitlines\<close> takes for a line break and JSON does not escape.
\<close>

definition demo_record :: "string \<Rightarrow> string \<Rightarrow> result_record" where
  "demo_record e body = \<lparr>rr_external_id = e, rr_status = I_SUCCEEDED, rr_response = Some body,
     rr_error = None, rr_attempts = 1, rr_latency_ms = Some 3\<rparr>"



section \<open>The line separator\<close>

lemma splitlines_nel:
  assumes "\<forall>c \<in> set a. \<not> is_linebreak c"
  shows "splitlines (a @ CHR 0x85 # s) = a # splitlines s"
proof -
  have "is_linebreak (CHR 0x85)" by code_simp
  with assms show ?thesis by (simp add: splitlines_def split_lines_no_break)
qed



end
