(* ===== verification/JobService.thy ===== *)
theory JobService
  imports EngineRun IngestProps StorageProps
begin

text \<open>
  \<open>JobService\<close> (\<open>app/services/job_service.py\<close>): submission, the background
  execution of a job, resumption after a restart, status and download. The file system is the
  argument \<open>fs\<close>, what a path names; a background task is the pair it is scheduled with.
\<close>

section \<open>Paths\<close>

datatype path_entry = NoEntry | NotAFile | Unreadable string | RegularFile string

type_synonym filesystem = "string \<Rightarrow> path_entry"

fun split_slash :: "string \<Rightarrow> string \<Rightarrow> string list" where
  "split_slash acc [] = [rev acc]"
| "split_slash acc (c # cs) =
     (if c = CHR ''/'' then rev acc # split_slash [] cs else split_slash (c # acc) cs)"

definition path_root :: "string \<Rightarrow> string" where
  "path_root s =
     (if take 2 s = ''//'' \<and> take 3 s \<noteq> ''///'' then ''//''
      else if take 1 s = ''/'' then ''/'' else [])"

text \<open>\<open>str(Path(s))\<close>: empty and dot components disappear.\<close>

definition path_str :: "string \<Rightarrow> string" where
  "path_str s =
     (let text_of = path_root s @
            py_join ''/'' (filter (\<lambda>part. part \<noteq> [] \<and> part \<noteq> ''.'') (split_slash [] s))
      in if text_of = [] then ''.'' else text_of)"

section \<open>Submission\<close>

definition chosen_model :: "settings \<Rightarrow> submit_request \<Rightarrow> string" where
  "chosen_model s req =
     (case sr_model req of None \<Rightarrow> llm_model s | Some m \<Rightarrow> if m = [] then llm_model s else m)"

definition validate_submit :: "settings \<Rightarrow> filesystem \<Rightarrow> submit_request \<Rightarrow> string list" where
  "validate_submit s fs req =
     (case fs (path_str (sr_input_path req)) of
        RegularFile content \<Rightarrow>
          if take 1 (bytes_lstrip (take 64 content)) = ''['' then []
          else [''input file must be a JSON array'']
      | Unreadable m \<Rightarrow> [''cannot read input file: '' @ m]
      | _ \<Rightarrow> [''input file not found: '' @ sr_input_path req])
     @ (if chosen_model s req = [] then [''no model configured''] else [])"

definition submitted_job :: "settings \<Rightarrow> uuid \<Rightarrow> submit_request \<Rightarrow> job_record" where
  "submitted_job s new_id req =
     \<lparr>jr_id = new_id, jr_state = J_PENDING, jr_input_path = path_str (sr_input_path req),
      jr_model = chosen_model s req, jr_total_items = 0, jr_config = sr_config req, jr_error = None,
      jr_created_at = None, jr_updated_at = None\<rparr>"

text \<open>The answer, the database and the tasks scheduled. \<open>new_id\<close> is \<open>uuid4()\<close>.\<close>

definition submit ::
  "settings \<Rightarrow> filesystem \<Rightarrow> uuid \<Rightarrow> time \<Rightarrow> submit_request \<Rightarrow> database \<Rightarrow>
   (exn + uuid) \<times> database \<times> (uuid \<times> string) list" where
  "submit s fs new_id now req db =
     (let errors = validate_submit s fs req
      in if errors \<noteq> [] then (Inl (ValidationError errors), db, [])
         else (case create_job (submitted_job s new_id req) now db of
                 Inl e \<Rightarrow> (Inl e, db, [])
               | Inr db' \<Rightarrow> (Inr new_id, db', [(new_id, path_str (sr_input_path req))])))"

definition resume_active :: "database \<Rightarrow> nat \<times> (uuid \<times> string) list" where
  "resume_active db = (let active = list_active db in (length active, active))"

section \<open>Execution\<close>

record exec_env =
  ee_input :: "string \<Rightarrow> stream"
  ee_start :: time
  ee_clock :: "nat \<Rightarrow> time"
  ee_running :: time
  ee_host :: string
  ee_pid :: nat
  ee_hex :: "nat \<Rightarrow> string"
  ee_sched :: "action list"
  ee_end :: time

text \<open>
  How the task stands at the end of the pool's schedule: still in the engine, returned (with the
  label under which \<open>JOBS_COMPLETED\<close> counted it), or left by an exception of the handler.
\<close>

datatype exec_end = StillRunning | Returned job_state | Escaping exn

definition record_failure ::
  "uuid \<Rightarrow> exn \<Rightarrow> time \<Rightarrow> database \<Rightarrow> chunk_store \<Rightarrow> exec_end \<times> database \<times> chunk_store" where
  "record_failure job e now db store =
     (case set_state job J_FAILED (Some (exn_str e)) now db of
        Inl e' \<Rightarrow> (Escaping e', db, store)
      | Inr db' \<Rightarrow> (Returned J_FAILED, db', store))"

definition execute ::
  "settings \<Rightarrow> retry_policy \<Rightarrow> dumper \<Rightarrow> backend \<Rightarrow> exec_env \<Rightarrow> uuid \<Rightarrow> string \<Rightarrow> database \<Rightarrow>
   chunk_store \<Rightarrow> exec_end \<times> database \<times> chunk_store" where
  "execute s rp dump be env job path db store =
     (case set_state job J_INGESTING None (ee_start env) db of
        Inl e \<Rightarrow> record_failure job e (ee_end env) db store
      | Inr db1 \<Rightarrow>
          (case ingest s job (ee_clock env) (ee_input env path) db1 of
             (Inl e, db2) \<Rightarrow> record_failure job e (ee_end env) db2 store
           | (Inr su, db2) \<Rightarrow>
               (case set_state job J_RUNNING None (ee_running env) db2 of
                  Inl e \<Rightarrow> record_failure job e (ee_end env) db2 store
                | Inr db3 \<Rightarrow>
                    (case engine_run s rp dump be (ee_host env) (ee_pid env) (ee_hex env)
                            (ee_sched env) job db3 store (ee_running env) of
                       (None, p) \<Rightarrow> (StillRunning, po_db p, po_store p)
                     | (Some (Inl e), p) \<Rightarrow> record_failure job e (ee_end env) (po_db p) (po_store p)
                     | (Some (Inr _), p) \<Rightarrow> (Returned J_COMPLETED, po_db p, po_store p)))))"

section \<open>Status and download\<close>

definition service_status :: "uuid \<Rightarrow> database \<Rightarrow> exn + job_status" where
  "service_status job db =
     (case get_status job db of
        Inl e \<Rightarrow> (case e of KeyError k \<Rightarrow> Inl (JobNotFoundError job) | _ \<Rightarrow> Inl e)
      | Inr st \<Rightarrow> Inr st)"

text \<open>The pieces the generator yields and the exception that ends it, if any.\<close>

fun record_pieces :: "dumper \<Rightarrow> bool \<Rightarrow> result_record list \<Rightarrow> string list" where
  "record_pieces dump is_first [] = []"
| "record_pieces dump is_first (r # rs) =
     ((if is_first then [] else '','') @ dump r) # record_pieces dump False rs"

definition stream_results ::
  "dumper \<Rightarrow> loader \<Rightarrow> backend \<Rightarrow> uuid \<Rightarrow> database \<Rightarrow> chunk_store \<Rightarrow> string list \<times> exn option" where
  "stream_results dump load be job db store =
     (case get_job job db of
        None \<Rightarrow> ([], Some (JobNotFoundError job))
      | Some j \<Rightarrow>
          (case backend_iter load be job store of
             (rs, err) \<Rightarrow>
               (''['' # record_pieces dump True rs @ (if err = None then ['']''] else []), err)))"

section \<open>Counters\<close>

text \<open>
  The job counters of \<open>app/core/metrics.py\<close>, as submission, ingestion and execution move them.
  A failure is counted before it is recorded, so also when recording it raises.
\<close>

record job_metrics =
  jm_submitted :: nat
  jm_completed :: "job_state \<Rightarrow> nat"
  jm_accepted :: nat
  jm_rejected :: nat

definition count_submit :: "exn + uuid \<Rightarrow> job_metrics \<Rightarrow> job_metrics" where
  "count_submit answer m =
     (case answer of Inl e \<Rightarrow> m | Inr job \<Rightarrow> m\<lparr>jm_submitted := jm_submitted m + 1\<rparr>)"

definition count_ingest :: "exn + ingest_summary \<Rightarrow> job_metrics \<Rightarrow> job_metrics" where
  "count_ingest r m =
     (case r of
        Inl e \<Rightarrow> m
      | Inr su \<Rightarrow> m\<lparr>jm_accepted := jm_accepted m + su_accepted su, jm_rejected := jm_rejected m + su_rejected su\<rparr>)"

definition count_execution :: "exec_end \<Rightarrow> job_metrics \<Rightarrow> job_metrics" where
  "count_execution out m =
     (case out of
        StillRunning \<Rightarrow> m
      | Returned st \<Rightarrow> m\<lparr>jm_completed := (jm_completed m)(st := jm_completed m st + 1)\<rparr>
      | Escaping e \<Rightarrow> m\<lparr>jm_completed := (jm_completed m)(J_FAILED := jm_completed m J_FAILED + 1)\<rparr>)"

text \<open>Every execution that ends is counted once.\<close>

lemma count_execution_once:
  "(\<Sum>st \<in> {J_COMPLETED, J_FAILED}. jm_completed (count_execution out m) st) =
     (\<Sum>st \<in> {J_COMPLETED, J_FAILED}. jm_completed m st) +
     (case out of StillRunning \<Rightarrow> 0 | Returned st \<Rightarrow> if st = J_COMPLETED \<or> st = J_FAILED then 1 else 0 | Escaping e \<Rightarrow> 1)"
  by (cases out) (auto simp: count_execution_def)

section \<open>Lemmas\<close>

lemma record_pieces_join:
  "concat (record_pieces dump True rs) = py_join '','' (map dump rs)"
proof -
  have "concat (record_pieces dump False rs) = concat (map (\<lambda>y. '','' @ y) (map dump rs))" for rs
    by (induction rs) simp_all
  then show ?thesis by (cases rs) (simp_all add: py_join_Cons)
qed

lemma get_job_state: "map_option jr_state (get_job job db) = map_option j_state (find_job db job)"
  by (simp add: get_job_def split: option.split)

lemma record_failure_cases:
  "record_failure job e now db store = (Escaping (DataError ''invalid byte sequence: 0x00''), db, store) \<or>
   record_failure job e now db store =
     (Returned J_FAILED, update_job job (\<lambda>r. r\<lparr>j_state := J_FAILED, j_error := Some (exn_str e), j_updated_at := now\<rparr>) db, store)"
  by (simp add: record_failure_def set_state_def split: sum.split)

text \<open>How an execution ends: the paths through \<open>_execute\<close>.\<close>

end
