(* ===== verification/ServiceProps.thy ===== *)
theory ServiceProps
  imports JobService
begin

text \<open>
  The properties of a job's execution: it touches no other job, leaves a definite state, and a
  completed job accounts for every object of its input, also after a restart.
\<close>

section \<open>Only the job itself changes\<close>

definition only_job :: "uuid \<Rightarrow> database \<Rightarrow> database \<Rightarrow> bool" where
  "only_job job db db' \<longleftrightarrow> map j_id (jobs db') = map j_id (jobs db) \<and>
     (\<forall>job'. job' \<noteq> job \<longrightarrow> find_job db' job' = find_job db job')"

lemma only_job_trans: "only_job job a b \<Longrightarrow> only_job job b c \<Longrightarrow> only_job job a c"
  by (simp add: only_job_def)

lemma only_job_same_jobs: "jobs db' = jobs db \<Longrightarrow> only_job job db db'"
  by (simp add: only_job_def find_job_def)

lemma only_job_update: "(\<And>r. j_id (f r) = j_id r) \<Longrightarrow> only_job job db (update_job job f db)"
  by (simp add: only_job_def update_job_ids find_job_update)

lemma only_job_ids: "only_job job db db' \<Longrightarrow> job_ids db' = job_ids db"
  unfolding only_job_def job_ids_def by (metis set_map)

lemma set_state_only: "set_state job st err now db = Inr db' \<Longrightarrow> only_job job db db'"
  by (auto simp: set_state_Inr intro: only_job_update)

lemma set_total_only: "set_total job n now db = Inr db' \<Longrightarrow> only_job job db db'"
  by (auto simp: set_total_Inr intro: only_job_update)

lemma flush_jobs: "flush job now st = (r, st') \<Longrightarrow> jobs (ig_db st') = jobs (ig_db st)"
proof -
  assume fl: "flush job now st = (r, st')"
  show ?thesis
  proof (cases "bulk_insert job (ig_items st) (ig_failed st) now (ig_db st)")
    case (Inr p)
    obtain db n where "p = (db, n)" by fastforce
    with Inr have "jobs db = jobs (ig_db st)"
      using bulk_insert_Inr_rows frame_simps by metis
    with fl Inr \<open>p = (db, n)\<close> show ?thesis by (auto simp: flush_def split: if_splits)
  qed (use fl in \<open>auto simp: flush_def split: if_splits\<close>)
qed

lemma ingest_rows_jobs: "ingest_rows s job clock objs st = (r, st') \<Longrightarrow> jobs (ig_db st') = jobs (ig_db st)"
proof (induction objs arbitrary: st)
  case (Cons obj objs)
  obtain r1 st1 where st1: "ingest_row s job clock obj st = (r1, st1)" by fastforce
  then have "jobs (ig_db st1) = jobs (ig_db st)"
    by (auto simp: ingest_row_def Let_def take_row_spec(2) dest: flush_jobs split: if_splits)
  with Cons st1 show ?case by (auto split: option.splits)
qed simp

lemma ingest_only: "ingest s job clock stream db = (r, db') \<Longrightarrow> only_job job db db'"
proof -
  assume ing: "ingest s job clock stream db = (r, db')"
  have base: "only_job job db (ig_db st)" if "ingest_rows s job clock objs (ingest_start db) = (x, st)" for objs x st
    using ingest_rows_jobs [OF that] by (intro only_job_same_jobs) simp
  have flushed: "only_job job db (ig_db st')"
    if "ingest_rows s job clock objs (ingest_start db) = (x, st)" "flush job now st = (y, st')" for objs x st now y st'
    using ingest_rows_jobs [OF that(1)] flush_jobs [OF that(2)] by (intro only_job_same_jobs) simp
  show ?thesis
    using ing unfolding ingest_def
    by (auto split: sum.splits prod.splits option.splits
        intro: base flushed only_job_trans [OF flushed set_total_only] only_job_same_jobs)
qed

lemma engine_run_only:
  "engine_run s rp dump be host pid hex sched job db store now = (r, p) \<Longrightarrow> only_job job db (po_db p)"
proof -
  assume run: "engine_run s rp dump be host pid hex sched job db store now = (r, p)"
  have base: "only_job job db (po_db q)"
    if "run_pool s rp dump be sched (start_pool s host pid hex job db store now) = (r', q)" for r' q
    using run_pool_jobs [OF that] by (intro only_job_same_jobs) (simp add: start_pool_def)
  from run show ?thesis
  proof (cases rule: engine_run_cases)
    case (finished q)
    then show ?thesis using only_job_trans [OF base [OF finished(2)] only_job_update] by simp
  qed (auto intro: base)
qed

lemma record_failure_only:
  "record_failure job e now db store = (out, db', store') \<Longrightarrow> only_job job db db' \<and> store' = store"
  by (auto simp: record_failure_def split: sum.splits intro: set_state_only only_job_same_jobs)

text \<open>The job after each way \<open>_execute\<close> can go.\<close>

definition job_state_is :: "uuid \<Rightarrow> job_state \<Rightarrow> database \<Rightarrow> bool" where
  "job_state_is job st db \<longleftrightarrow> map_option j_state (find_job db job) = Some st"

lemma state_after_set:
  "set_state job st err now db = Inr db' \<Longrightarrow> job \<in> job_ids db \<Longrightarrow> job_state_is job st db'"
  using find_job_completed [where job = job and db = db and q = db and st = st and e = err and t = now] by (simp add: job_state_is_def set_state_Inr)

lemma record_failure_state:
  "record_failure job e now db store = (Returned st, db', store') \<Longrightarrow> job \<in> job_ids db \<Longrightarrow>
     st = J_FAILED \<and> job_state_is job J_FAILED db'"
  by (auto simp: record_failure_def split: sum.splits intro: state_after_set)

lemma record_failure_not_running:
  "record_failure job e now db store \<noteq> (StillRunning, db', store')"
  by (simp add: record_failure_def split: sum.split)

lemma engine_run_state:
  assumes "engine_run s rp dump be host pid hex sched job db store now = (r, p)" and "job \<in> job_ids db"
    and "job_state_is job J_RUNNING db"
  shows "(r = Some (Inr ()) \<longrightarrow> job_state_is job J_COMPLETED (po_db p)) \<and>
    (r = None \<longrightarrow> job_state_is job J_RUNNING (po_db p))"
  using assms(1)
proof (cases rule: engine_run_cases)
  case running
  then show ?thesis using run_pool_jobs [OF running(2)] assms(3)
    by (simp add: job_state_is_def find_job_def start_pool_def)
next
  case (finished q)
  have "jobs (po_db q) = jobs db" using run_pool_jobs [OF finished(2)] by (simp add: start_pool_def)
  then show ?thesis using finished find_job_completed [OF assms(2)] by (simp add: job_state_is_def)
qed simp

text \<open>
  The ways \<open>_execute\<close> can end: in its exception handler, on tables in which only the job has
  changed; in the engine; or past it.
\<close>

lemma execute_ends:
  assumes "execute s rp dump be env job path db store = (out, db', store')" and job: "job \<in> job_ids db"
  obtains (handler) e q qs where "only_job job db q" "record_failure job e (ee_end env) q qs = (out, db', store')"
    | (engine) "out = StillRunning" "only_job job db db'" "job_state_is job J_RUNNING db'"
    | (finished) "out = Returned J_COMPLETED" "only_job job db db'" "job_state_is job J_COMPLETED db'"
proof -
  obtain db1 where db1: "set_state job J_INGESTING None (ee_start env) db = Inr db1"
    by (simp add: set_state_def opt_text_ok_def)
  obtain r2 db2 where ing: "ingest s job (ee_clock env) (ee_input env path) db1 = (r2, db2)" by fastforce
  have only2: "only_job job db db2"
    using only_job_trans [OF set_state_only [OF db1] ingest_only [OF ing]] .
  show thesis
  proof (cases r2)
    case (Inl e)
    then show thesis using assms(1) ing db1 by (intro handler [OF only2]) (simp add: execute_def)
  next
    case (Inr su)
    obtain db3 where db3: "set_state job J_RUNNING None (ee_running env) db2 = Inr db3"
      by (simp add: set_state_def opt_text_ok_def)
    note only3 = only_job_trans [OF only2 set_state_only [OF db3]]
    have job3: "job \<in> job_ids db3" using only_job_ids [OF only3] job by simp
    have run3: "job_state_is job J_RUNNING db3"
      using state_after_set [OF db3] only_job_ids [OF only2] job by simp
    obtain r p where eng: "engine_run s rp dump be (ee_host env) (ee_pid env) (ee_hex env) (ee_sched env) job
        db3 store (ee_running env) = (r, p)" by fastforce
    note only4 = only_job_trans [OF only3 engine_run_only [OF eng]]
    note state4 = engine_run_state [OF eng job3 run3]
    note out = assms(1) [unfolded execute_def] db1 ing Inr db3 eng
    consider (open_run) "r = None" | (err) e where "r = Some (Inl e)" | (fin) "r = Some (Inr ())"
      by (cases r) (metis (full_types) old.unit.exhaust sum.exhaust)+
    then show thesis
    proof cases
      case open_run
      with out only4 state4 show thesis by (intro engine) simp_all
    next
      case (err e)
      with out show thesis by (intro handler [OF only4]) simp
    next
      case fin
      with out only4 state4 show thesis by (intro finished) simp_all
    qed
  qed
qed

lemma execute_state:
  assumes "execute s rp dump be env job path db store = (out, db', store')" and job: "job \<in> job_ids db"
  shows "only_job job db db' \<and>
    (\<forall>st. out = Returned st \<longrightarrow> (st = J_COMPLETED \<or> st = J_FAILED) \<and> job_state_is job st db') \<and>
    (out = StillRunning \<longrightarrow> job_state_is job J_RUNNING db')"
  using assms
proof (cases rule: execute_ends)
  case (handler e q qs)
  then show ?thesis
    using record_failure_only [OF handler(2)] record_failure_state [of job e "ee_end env" q qs _ db' store']
      only_job_trans [OF handler(1)] only_job_ids [OF handler(1)] job
      record_failure_not_running [of job e "ee_end env" q qs db' store']
    by auto
qed auto

text \<open>
  C26: An execution leaves a definite state: when it returns, the job is \<open>COMPLETED\<close> or
  \<open>FAILED\<close>, as counted in the metrics, never \<open>INGESTING\<close> or \<open>RUNNING\<close>; while
  the pool is still at work it is \<open>RUNNING\<close>; and no other job's row is touched.
\<close>

theorem execute_leaves_definite_state:
  assumes "execute s rp dump be env job path db store = (out, db', store')" and "job \<in> job_ids db"
  shows "(case out of
      Returned st \<Rightarrow> (st = J_COMPLETED \<or> st = J_FAILED) \<and> map_option j_state (find_job db' job) = Some st
    | StillRunning \<Rightarrow> map_option j_state (find_job db' job) = Some J_RUNNING
    | Escaping e \<Rightarrow> True) \<and>
    (\<forall>job'. job' \<noteq> job \<longrightarrow> find_job db' job' = find_job db job')"
  using execute_state [OF assms]
  by (auto simp: only_job_def job_state_is_def split: exec_end.split)

text \<open>A file that breaks off: what was read before the error stays, and the job fails.\<close>

definition broken_env :: exec_env where
  "broken_env = \<lparr>ee_input = (\<lambda>path. Inr ([], Some (LibraryError ''parse error: premature EOF''))),
     ee_start = 1, ee_clock = (\<lambda>n. 2), ee_running = 3, ee_host = ''h'', ee_pid = 1,
     ee_hex = (\<lambda>i. replicate 32 (CHR ''a'')), ee_sched = [], ee_end = 4\<rparr>"

theorem execute_leaves_definite_state_witness:
  "\<exists>db'. execute default_settings shipped_policy json_dump (LocalBackend []) broken_env ''j'' ''in.json'' demo_db [] =
      (Returned J_FAILED, db', []) \<and> map_option j_state (find_job db' ''j'') = Some J_FAILED"
proof -
  have "''j'' \<in> job_ids demo_db" by (simp add: demo_db_def job_ids_def)
  moreover obtain db' where "execute default_settings shipped_policy json_dump (LocalBackend []) broken_env ''j''
      ''in.json'' demo_db [] = (Returned J_FAILED, db', [])"
    by (simp add: execute_def broken_env_def set_state_def opt_text_ok_def text_ok_def ingest_def
        record_failure_def)
  ultimately show ?thesis using execute_leaves_definite_state by fastforce
qed

section \<open>Accounting for every object\<close>

lemma insert_rows_origin:
  "r \<in> set (items (fst (insert_rows job now ns db))) \<Longrightarrow>
   r \<in> set (items db) \<or> i_worker_id r = None \<and> i_result_ref r = None \<and> i_status r \<in> nr_status ` set ns"
proof (induction ns arbitrary: db)
  case (Cons n ns)
  then have "r \<in> set (items (fst (insert_row job now n db))) \<or>
      i_worker_id r = None \<and> i_result_ref r = None \<and> i_status r \<in> nr_status ` set ns"
    unfolding insert_rows_Cons by blast
  then show ?case by (auto simp: insert_row_def split: if_splits)
qed simp

text \<open>A row that ingestion added: nobody's, without a result, waiting or failed.\<close>

definition untouched :: "item_row \<Rightarrow> bool" where
  "untouched r \<longleftrightarrow> i_worker_id r = None \<and> i_result_ref r = None \<and> i_status r \<noteq> I_CLAIMED"

lemma flush_origin:
  assumes "flush job now st = (None, st')" and "r \<in> set (items (ig_db st'))"
  shows "r \<in> set (items (ig_db st)) \<or> untouched r"
  using insert_rows_origin [of r job now "buffer_rows st" "ig_db st"] assms
  by (auto simp: flush_db untouched_def buffer_rows_def pending_row_def failed_row_def)

lemma ingest_origin:
  assumes "ingest s job clock stream db = (Inr su, db')" and "r \<in> set (items db')"
  shows "r \<in> set (items db) \<or> untouched r"
proof -
  from assms(1) obtain objs st st' where rows: "ingest_rows s job clock objs (ingest_start db) = (None, st)"
    and fl: "flush job (clock (ig_total st)) st = (None, st')"
    and tot: "set_total job (ig_total st') (clock (ig_total st')) (ig_db st') = Inr db'"
    by (rule ingest_Inr)
  have "\<forall>r \<in> set (items (ig_db st)). r \<in> set (items db) \<or> untouched r"
    by (rule ingest_rows_induct [OF rows]) (auto simp: take_row_spec(2) dest: flush_origin)
  moreover have "r \<in> set (items (ig_db st'))" using assms(2) tot by (simp add: set_total_Inr)
  ultimately show ?thesis using flush_origin [OF fl] by blast
qed

text \<open>The engine starts on the rows ingestion left as it would on the rows before.\<close>

lemma pool_start_after_ingest:
  assumes start: "pool_start dump (start_pool s host pid hex job db store now)"
    and wf: "db_wf db'" and origin: "\<And>r. r \<in> set (items db') \<Longrightarrow> r \<in> set (items db) \<or> untouched r"
  shows "pool_start dump (start_pool s host pid hex job db' store now)"
proof -
  have "durable dump (start_pool s host pid hex job db' store now)"
    unfolding durable_def
  proof (intro allI impI)
    fix j e st ref
    assume "queue_view (po_db (start_pool s host pid hex job db' store now)) j e = Some (Finished st (Some ref))"
    then obtain r where r: "lookup_item db' j e = Some r" and v: "view_row r = Finished st (Some ref)"
      by (auto simp: queue_view_def start_pool_def)
    from v have "i_result_ref r = Some ref" by (auto simp: view_row_def split: item_status.splits)
    then have "r \<in> set (items db)" using origin [of r] lookup_item_Some [OF r] by (auto simp: untouched_def)
    moreover have "db_wf db" using start by (simp add: pool_start_def start_pool_def)
    ultimately have "queue_view db j e = Some (Finished st (Some ref))"
      using lookup_item_wf [of db r] lookup_item_Some [OF r] v by (simp add: queue_view_def)
    then show "stored_result dump (po_store (start_pool s host pid hex job db' store now)) j e st ref"
      using start by (auto simp: pool_start_def durable_def start_pool_def)
  qed
  then show ?thesis
    using start wf origin by (fastforce simp: pool_start_def start_pool_def crew_distinct_def untouched_def)
qed

lemma update_items_keys:
  "keeps_identity f \<Longrightarrow> map item_key (items (update_items P f db)) = map item_key (items db)"
  by (simp add: map_sql_update keeps_identity_def item_key_def)

lemma claim_keys: "map item_key (items (fst (claim_chunk job w n l now locked db))) = map item_key (items db)"
  by (simp add: claim_chunk_def Let_def update_items_keys del: update_items_frame)

lemma renew_keys: "map item_key (items (renew_lease w l now db)) = map item_key (items db)"
  by (simp add: renew_lease_def update_items_keys del: update_items_frame)

lemma complete_loop_keys:
  "map item_key (items (fst (complete_loop w rs ref now (db, n)))) = map item_key (items db)"
  by (induction rs arbitrary: db n) (simp_all add: update_items_keys del: update_items_frame)

lemma pool_step_keys:
  "pool_step s rp dump be a p = Some p' \<Longrightarrow> map item_key (items (po_db p')) = map item_key (items (po_db p))"
proof (cases a)
  case (Claim i)
  assume "pool_step s rp dump be a p = Some p'"
  moreover obtain db' chunk where cl: "claim_chunk (pw_job (po_workers p ! i)) (pw_id (po_workers p ! i)) (chunk_size s)
      (lease_ttl_seconds s) (po_now p) {} (po_db p) = (db', chunk)" by fastforce
  moreover have "map item_key (items db') = map item_key (items (po_db p))"
    using claim_keys cl by (metis fst_conv)
  ultimately show ?thesis using Claim by (auto simp: claim_step_def Let_def split: if_splits)
next
  case (Flush i cid)
  assume "pool_step s rp dump be a p = Some p'"
  with Flush show ?thesis
    by (auto simp: flush_step_def split: option.splits phase.splits if_splits sum.splits)
next
  case (Commit i)
  assume "pool_step s rp dump be a p = Some p'"
  with Commit show ?thesis
    by (auto simp: commit_step_def complete_items_def complete_loop_keys split: option.splits phase.splits)
next
  case (Beat i)
  assume "pool_step s rp dump be a p = Some p'"
  with Beat show ?thesis by (auto simp: beat_step_def renew_keys split: option.splits phase.splits)
qed (auto simp: process_step_def split: option.splits phase.splits if_splits)

lemma pool_reach_keys:
  "pool_reach s rp dump be p0 p \<Longrightarrow> map item_key (items (po_db p)) = map item_key (items (po_db p0))"
  by (induction rule: pool_reach.induct) (simp_all add: pool_step_keys)

lemma has_row_key: "has_row job e db \<longleftrightarrow> (job, e) \<in> set (map item_key (items db))"
  by (auto simp: has_row_def item_key_def)

text \<open>
  An execution that returns with \<open>COMPLETED\<close> went through ingestion and a pool that
  stopped; the tables it leaves are the stopped pool's, with the job marked.
\<close>

definition mark_completed :: "uuid \<Rightarrow> time \<Rightarrow> database \<Rightarrow> database" where
  "mark_completed job t db =
     update_job job (\<lambda>r. r\<lparr>j_state := J_COMPLETED, j_error := None, j_updated_at := t\<rparr>) db"

lemma mark_completed_items [simp]: "items (mark_completed job t db) = items db"
  by (simp add: mark_completed_def)

lemma execute_completed_run:
  assumes "execute s rp dump be env job path db store = (Returned J_COMPLETED, db', store')"
  obtains db1 su db2 db3 p where
    "set_state job J_INGESTING None (ee_start env) db = Inr db1"
    "ingest s job (ee_clock env) (ee_input env path) db1 = (Inr su, db2)"
    "set_state job J_RUNNING None (ee_running env) db2 = Inr db3"
    "engine_run s rp dump be (ee_host env) (ee_pid env) (ee_hex env) (ee_sched env) job db3 store
       (ee_running env) = (Some (Inr ()), p)"
    "db' = po_db p" "store' = po_store p"
proof -
  have no_fail: "record_failure job e now q qs \<noteq> (Returned J_COMPLETED, db', store')" for e now q qs
    by (simp add: record_failure_def split: sum.split)
  then show thesis
    using assms that unfolding execute_def by (auto split: sum.splits prod.splits option.splits)
qed

lemma execute_completed:
  assumes wf: "db_wf db" and job: "job \<in> job_ids db" and leases: "leases_ended job (ee_running env) db"
    and sizes: "0 < chunk_size s" "0 < worker_pool_size s"
    and start: "pool_start dump (start_pool s (ee_host env) (ee_pid env) (ee_hex env) job db store (ee_running env))"
    and input: "ee_input env path = Inr (objs, None)"
    and run: "execute s rp dump be env job path db store = (Returned J_COMPLETED, db', store')"
  obtains q where "pool_inv s dump q" "db' = mark_completed job (po_now q) (po_db q)" "store' = po_store q"
    "{e. has_row job e (po_db q)} = {e. has_row job e db} \<union> set (input_ids objs)"
    "\<And>x. x \<in> set (items (po_db q)) \<Longrightarrow> i_job_id x = job \<Longrightarrow> is_terminal (i_status x)"
    "map_option j_total_items (find_job (po_db q) job) = Some (length objs)"
proof -
  from execute_completed_run [OF run] obtain db1 su db2 db3 p where
    db1: "set_state job J_INGESTING None (ee_start env) db = Inr db1"
    and "ingest s job (ee_clock env) (ee_input env path) db1 = (Inr su, db2)"
    and db3: "set_state job J_RUNNING None (ee_running env) db2 = Inr db3"
    and eng: "engine_run s rp dump be (ee_host env) (ee_pid env) (ee_hex env) (ee_sched env) job db3 store
       (ee_running env) = (Some (Inr ()), p)"
    and out: "db' = po_db p" "store' = po_store p" .
  then have ing: "ingest s job (ee_clock env) (Inr (objs, None)) db1 = (Inr su, db2)" using input by simp
  note wf1 = set_state_wf [OF wf db1]
  have wf2: "db_wf db2" using ingest_wf [OF _ ing] wf1 by simp
  note wf3 = set_state_wf [OF wf2 db3]
  have origin: "r \<in> set (items db) \<or> untouched r" if "r \<in> set (items db3)" for r
    using ingest_origin [OF ing, of r] that wf1 wf3 by simp
  have start3: "pool_start dump (start_pool s (ee_host env) (ee_pid env) (ee_hex env) job db3 store (ee_running env))"
    using pool_start_after_ingest [OF start _ origin] wf3 by blast
  note only1 = set_state_only [OF db1] and only2 = only_job_trans [OF set_state_only [OF db1] ingest_only [OF ing]]
  have job3: "job \<in> job_ids db3" using only_job_ids [OF only_job_trans [OF only2 set_state_only [OF db3]]] job by simp
  have leases3: "leases_ended job (ee_running env) db3"
    using origin leases by (auto simp: leases_ended_def untouched_def)
  from eng obtain q where pool: "run_pool s rp dump be (ee_sched env)
        (start_pool s (ee_host env) (ee_pid env) (ee_hex env) job db3 store (ee_running env)) = (Some (Inr ()), q)"
    and p: "p = q\<lparr>po_db := mark_completed job (po_now q) (po_db q)\<rparr>"
    by (cases rule: engine_run_cases) (simp_all add: mark_completed_def)
  note reach = run_pool_reach [OF pool]
  have "has_row job e (po_db q) \<longleftrightarrow> has_row job e db2" for e
    using pool_reach_keys [OF reach] wf3 by (simp add: has_row_key start_pool_def del: set_map)
  moreover have "has_row job e db1 \<longleftrightarrow> has_row job e db" for e using wf1 by (simp add: has_row_def)
  ultimately have "{e. has_row job e (po_db q)} = {e. has_row job e db} \<union> set (input_ids objs)"
    using ingest_known [OF ing] by auto
  moreover have "is_terminal (i_status x)" if "x \<in> set (items (po_db q))" "i_job_id x = job" for x
    using engine_run_ends [OF start3 job3 leases3 sizes eng] that p by simp
  moreover have "map_option j_total_items (find_job db2 job) = Some (length objs)"
    using ingest_total_recorded [OF ing] only_job_ids [OF only2] wf1 job by simp
  then have "map_option j_total_items (find_job db3 job) = Some (length objs)"
    using db3 by (auto simp: set_state_Inr find_job_update)
  then have "map_option j_total_items (find_job (po_db q) job) = Some (length objs)"
    using run_pool_jobs [OF pool] by (simp add: find_job_def start_pool_def)
  ultimately show thesis
    using that [of q] reach_from_start [OF start3 reach] out p by simp
qed

text \<open>What a status request then reads, and where the results are.\<close>

lemma completed_status:
  assumes wf: "db_wf db" and rows: "{e. has_row job e db} = ids"
    and fin: "\<And>x. x \<in> set (items db) \<Longrightarrow> i_job_id x = job \<Longrightarrow> is_terminal (i_status x)"
    and total: "map_option j_total_items (find_job db job) = Some n"
  shows "\<exists>st. get_status job (mark_completed job t db) = Inr st \<and> js_state st = J_COMPLETED \<and>
    js_total st = n \<and> js_pending st = 0 \<and> js_in_progress st = 0 \<and> js_succeeded st + js_failed st = card ids"
proof -
  have none: "count_in job st db = 0" if "\<not> is_terminal st" for st
    using fin that unfolding count_in_def row_count_0_iff by blast
  have zero: "count_in job I_PENDING db = 0" "count_in job I_CLAIMED db = 0" by (simp_all add: none)
  have count: "row_count (\<lambda>r. i_job_id r = job) (items db) = card ids"
    using job_rows_card [OF wf, of job] rows by simp
  obtain row where row: "find_job (mark_completed job t db) job = Some row"
    "j_state row = J_COMPLETED" "j_total_items row = n"
    using total by (auto simp: mark_completed_def find_job_update)
  show ?thesis
    using row zero count row_count_split [of job "items db"]
    by (simp add: get_status_def Let_def count_or_0_by_status count_in_def)
qed

lemma finished_row_stored:
  assumes inv: "pool_inv s dump q" and x: "x \<in> set (items (po_db q))" "is_terminal (i_status x)"
    and ref: "i_result_ref x = Some ref"
  shows "stored_result dump (po_store q) (i_job_id x) (i_external_id x) (i_status x) ref"
proof -
  have "db_wf (po_db q)" using inv by (simp add: pool_inv_def)
  from lookup_item_wf [OF this x(1)] x(2) ref
  have "queue_view (po_db q) (i_job_id x) (i_external_id x) = Some (Finished (i_status x) (Some ref))"
    by (simp add: queue_view_def view_row_terminal)
  with inv show ?thesis by (auto simp: pool_inv_def durable_def)
qed


text \<open>
  One object whose row a dead worker holds: the restart ingests the object again, waits for nobody,
  and the first of four workers finishes the row.
\<close>

definition full_input :: "input_obj list" where
  "full_input = [Obj [(''id'', JInt 7), (''prompt'', JText ''hello'')]]"

definition full_env :: exec_env where
  "full_env = \<lparr>ee_input = (\<lambda>path. Inr (full_input, None)),
     ee_start = 0, ee_clock = (\<lambda>n. 0), ee_running = 0, ee_host = ''h'', ee_pid = 1,
     ee_hex = (\<lambda>i. replicate 32 (CHR ''a'')),
     ee_sched = [Claim 0, Process 0 ok_env, Flush 0 ''c'', Commit 0, Claim 0, Claim 1, Claim 2, Claim 3],
     ee_end = 0\<rparr>"

definition full_job :: "job_state \<Rightarrow> job_row" where
  "full_job st = \<lparr>j_id = ''j'', j_state = st, j_input_path = ''in'', j_model = ''m'',
       j_total_items = 1, j_config = [], j_error = None, j_created_at = 0, j_updated_at = 0\<rparr>"

definition dead_row :: item_row where
  "dead_row = (demo_row 1 ''7'')\<lparr>i_status := I_CLAIMED, i_worker_id := Some ''dead'',
     i_lease_until := Some (- 1), i_attempts := 1\<rparr>"

definition one_row_db :: "item_row \<Rightarrow> job_state \<Rightarrow> nat \<Rightarrow> database" where
  "one_row_db row st n = \<lparr>jobs = [full_job st], items = [row], item_seq = n\<rparr>"

abbreviation full_db :: "job_state \<Rightarrow> nat \<Rightarrow> database" where
  "full_db \<equiv> one_row_db dead_row"

lemmas full_db_def = one_row_db_def

lemma full_set_state: "set_state ''j'' st' None 0 (one_row_db row st n) = Inr (one_row_db row st' n)"
  by (simp add: set_state_def opt_text_ok_def update_job_def full_db_def full_job_def)

lemma full_ingest:
  assumes "i_job_id row = ''j''" and "i_external_id row = ''7''"
  shows "ingest default_settings ''j'' (\<lambda>n. 0) (Inr (full_input, None)) (one_row_db row st n) =
     (Inr \<lparr>su_total = 1, su_accepted = 1, su_rejected = 0\<rparr>, one_row_db row st (Suc n))"
proof -
  have rows: "ingest_rows default_settings ''j'' (\<lambda>n. 0) full_input (ingest_start db) =
     (None, \<lparr>ig_total = 1, ig_accepted = 1, ig_rejected = 0,
        ig_items = [\<lparr>pi_external_id = ''7'', pi_prompt = ''hello''\<rparr>],
        ig_failed = [], ig_seen = [''7''], ig_db = db\<rparr>)" for db
    by (simp add: full_input_def ingest_row_def take_row_def demo_to_item demo_validate ingest_start_def
      Let_def insert_batch_def del: to_item.simps)
  show ?thesis
   using assms by (simp add: ingest_def rows flush_def bulk_insert_def new_row_ok_def text_ok_def pending_row_def
     job_ids_def insert_row_def has_row_def set_total_def int4_limit_def update_job_def full_db_def full_job_def)
qed

lemma dead_row_key: "i_job_id dead_row = ''j''" "i_external_id dead_row = ''7''"
  by (simp_all add: dead_row_def demo_row_def)

lemma full_execute:
  "fst (execute default_settings shipped_policy json_dump (LocalBackend []) full_env ''j'' ''in''
    (full_db J_RUNNING 2) []) = Returned J_COMPLETED"
  by (simp add: execute_def full_set_state full_ingest dead_row_key full_env_def)
    (simp add: engine_run_def spawn_def pool_outcome_def raised_def set_state_def opt_text_ok_def
      full_db_def dead_row_def run_eval del: shipped_policy_sel)

lemma full_wf: "db_wf (full_db st 2)"
  by (simp add: full_db_def full_job_def db_wf_def job_ids_def dead_row_def demo_row_def row_wf_def)

lemma full_start:
  "pool_start dump (start_pool default_settings ''h'' 1 (\<lambda>i. replicate 32 (CHR ''a'')) ''j'' (full_db st 2) [] 0)"
proof -
  have "distinct (map pw_id (spawn default_settings ''h'' 1 (\<lambda>i. replicate 32 (CHR ''a'')) ''j''))"
    by (simp add: spawn_def default_settings_def worker_name_def o_def distinct_map inj_on_def)
  then show ?thesis
    by (simp add: pool_start_def start_pool_def crew_distinct_def durable_def full_wf)
      (auto simp: queue_view_def lookup_item_def view_row_def full_db_def dead_row_def spawn_def
        worker_name_def list_all_iff)
qed


end
