(* ===== verification/RequestProps.thy ===== *)
theory RequestProps
  imports ServiceProps
begin

text \<open>
  What the service answers to requests: what submitting a job starts, what a restart resumes, and
  what a download is.
\<close>

section \<open>Submission, resumption and download\<close>

definition opens_array :: "string \<Rightarrow> bool" where
  "opens_array content \<longleftrightarrow> take 1 (bytes_lstrip (take 64 content)) = ''[''"

lemma validate_submit_ok:
  "validate_submit s fs req = [] \<longleftrightarrow>
     (\<exists>content. fs (path_str (sr_input_path req)) = RegularFile content \<and> opens_array content) \<and>
     chosen_model s req \<noteq> []"
  by (auto simp: validate_submit_def opens_array_def split: path_entry.splits)

text \<open>
  C33: A submission is accepted exactly when the path names a regular file that opens a JSON
  array within its first 64 bytes, a model is known, and the job can be stored; then the answer is
  the new id, the job is stored as \<open>PENDING\<close> and one task is scheduled for it; otherwise
  nothing is stored and nothing is scheduled.
\<close>

theorem submit_accepts_iff:
  "case submit s fs new_id now req db of (answer, db', tasks) \<Rightarrow>
     (answer = Inr new_id \<longleftrightarrow>
        (\<exists>content. fs (path_str (sr_input_path req)) = RegularFile content \<and> opens_array content) \<and>
        chosen_model s req \<noteq> [] \<and> new_id \<notin> job_ids db \<and> job_values_ok (submitted_job s new_id req)) \<and>
     (case answer of
        Inl e \<Rightarrow> db' = db \<and> tasks = []
      | Inr answered \<Rightarrow>
          answered = new_id \<and> items db' = items db \<and> job_ids db' = insert new_id (job_ids db) \<and>
          map_option jr_state (get_job new_id db') = Some J_PENDING \<and>
          tasks = [(new_id, path_str (sr_input_path req))])"
proof (cases "validate_submit s fs req = []")
  case False
  then show ?thesis using validate_submit_ok [of s fs req] by (auto simp: submit_def Let_def)
next
  case True
  note ok = True [unfolded validate_submit_ok]
  show ?thesis
  proof (cases "create_job (submitted_job s new_id req) now db")
    case (Inl e)
    then have "\<not> (new_id \<notin> job_ids db \<and> job_values_ok (submitted_job s new_id req))"
      by (auto simp: create_job_def submitted_job_def split: if_splits)
    with True Inl show ?thesis by (simp add: submit_def)
  next
    case (Inr db')
    have "job_ids db' = insert new_id (job_ids db)" "items db' = items db" "new_id \<notin> job_ids db"
      "job_values_ok (submitted_job s new_id req)"
      using Inr by (auto simp: create_job_def submitted_job_def job_ids_def split: if_splits)
    moreover have "map_option jr_state (get_job new_id db') = Some J_PENDING"
      using create_job_reads_back [OF Inr] by (simp add: submitted_job_def)
    ultimately show ?thesis using True Inr ok by (simp add: submit_def)
  qed
qed

definition demo_fs :: filesystem where
  "demo_fs path = (if path = ''data/in.json'' then RegularFile '' [1]'' else NoEntry)"

definition demo_request :: submit_request where
  "demo_request = \<lparr>sr_input_path = ''./data//in.json'', sr_model = None, sr_config = []\<rparr>"

lemma submit_demo:
  "''k'' \<notin> job_ids db \<Longrightarrow> fst (submit default_settings demo_fs ''k'' 0 demo_request db) = Inr ''k''"
proof -
  have "path_str ''./data//in.json'' = ''data/in.json''" by code_simp
  moreover have "take 1 (bytes_lstrip (take 64 '' [1]'')) = ''[''" by code_simp
  moreover assume "''k'' \<notin> job_ids db"
  ultimately show ?thesis
    by (simp add: submit_def validate_submit_def chosen_model_def default_settings_def create_job_def
        submitted_job_def job_values_ok_def text_ok_def opt_text_ok_def model_column_width_def
        int4_limit_def Let_def demo_fs_def demo_request_def)
qed

text \<open>
  After a restart exactly the jobs left \<open>INGESTING\<close> or \<open>RUNNING\<close> are scheduled
  again, each once and with its input path; a job still \<open>PENDING\<close> (the process died between
  creating it and its task's first statement) is not.
\<close>

lemma resume_schedules_exactly_active:
  assumes "db_wf db"
  shows "fst (resume_active db) = length (snd (resume_active db)) \<and>
    distinct (map fst (snd (resume_active db))) \<and>
    (\<forall>job path. (job, path) \<in> set (snd (resume_active db)) \<longleftrightarrow>
       (\<exists>j. get_job job db = Some j \<and> jr_input_path j = path \<and> (jr_state j = J_INGESTING \<or> jr_state j = J_RUNNING)))"
proof -
  have dist: "distinct (map j_id (jobs db))" using assms by (simp add: db_wf_def)
  have "distinct (map j_id (filter (\<lambda>r. active_state (j_state r)) (jobs db)))"
    using dist by (rule distinct_map_filter)
  then have d: "distinct (map fst (list_active db))" by (simp add: list_active_def o_def)
  have found: "find_job db (j_id r) = Some r" if "r \<in> set (jobs db)" for r
  proof -
    have "find_job db (j_id r) \<noteq> None" using that by (auto simp: find_job_None_iff job_ids_def)
    then obtain x where "find_job db (j_id r) = Some x" by auto
    moreover from this have "x \<in> set (jobs db)" "j_id x = j_id r"
      using find_cong_key unfolding find_job_def by fast+
    ultimately show ?thesis using distinct_map_unique [OF dist _ that] by simp
  qed
  have mem: "(job, path) \<in> set (list_active db) \<longleftrightarrow>
      (\<exists>j. get_job job db = Some j \<and> jr_input_path j = path \<and> (jr_state j = J_INGESTING \<or> jr_state j = J_RUNNING))"
    for job path
  proof
    assume "(job, path) \<in> set (list_active db)"
    then obtain r where "r \<in> set (jobs db)" "active_state (j_state r)" "j_id r = job" "j_input_path r = path"
      by (auto simp: list_active_def)
    then show "\<exists>j. get_job job db = Some j \<and> jr_input_path j = path \<and>
        (jr_state j = J_INGESTING \<or> jr_state j = J_RUNNING)"
      using found by (auto simp: get_job_def active_state_def)
  next
    assume "\<exists>j. get_job job db = Some j \<and> jr_input_path j = path \<and>
        (jr_state j = J_INGESTING \<or> jr_state j = J_RUNNING)"
    then obtain r where r: "find_job db job = Some r" "j_input_path r = path" "active_state (j_state r)"
      by (auto simp: get_job_def active_state_def split: option.splits)
    then have "r \<in> set (jobs db)" "j_id r = job"
      using find_cong_key unfolding find_job_def by fast+
    with r show "(job, path) \<in> set (list_active db)" by (auto simp: list_active_def)
  qed
  show ?thesis using d mem by (simp add: resume_active_def Let_def)
qed

lemma resume_schedules_exactly_active_example:
  "snd (resume_active demo_db) = [(''j'', ''in'')]"
proof -
  have "(''j'', ''in'') \<in> set (snd (resume_active demo_db))"
    using resume_schedules_exactly_active [OF demo_db_wf] by (auto simp: get_job_def find_job_def demo_db_def)
  then show ?thesis by (simp add: resume_active_def Let_def list_active_def demo_db_def active_state_def)
qed

text \<open>
  C36: A download is one JSON array: for a job that exists and a store of clean chunks the
  pieces concatenate to the bracketed, comma-separated JSON texts of exactly the stored records,
  and nothing is raised; for an unknown job nothing is yielded and \<open>JobNotFoundError\<close> is raised.
\<close>

theorem download_is_json_array:
  assumes "record_codec dump load" and "store_ok dump store"
  shows "stream_results dump load (LocalBackend dir) job db store =
    (if job \<in> job_ids db
     then (''['' # record_pieces dump True (fst (iter_results load job store)) @ ['']''], None)
     else ([], Some (JobNotFoundError job))) \<and>
    concat (''['' # record_pieces dump True (fst (iter_results load job store)) @ ['']'']) =
      ''['' @ py_join '','' (map dump (fst (iter_results load job store))) @ '']''"
proof -
  have "snd (iter_results load job store) = None"
    using record_codec.iter_results_ok [OF assms] by simp
  then show ?thesis
    by (auto simp: stream_results_def get_job_def record_pieces_join split: prod.split option.split
        simp flip: find_job_None_iff)
qed

theorem download_is_json_array_witness:
  "concat (fst (stream_results json_dump json_load (LocalBackend []) ''j'' demo_db
      (fst (write_chunk json_dump ''j'' ''c'' [demo_record ''a'' ''one''] [])))) =
   ''['' @ json_dump (demo_record ''a'' ''one'') @ '']''"
proof -
  let ?st = "fst (write_chunk json_dump ''j'' ''c'' [demo_record ''a'' ''one''] [])"
  have clean: "list_all record_clean [demo_record ''a'' ''one'']"
    by (simp add: record_clean_def record_text_def demo_record_def)
  have ok: "store_ok json_dump ?st" by (rule json.store_ok_write [OF store_ok_Nil _ clean]) simp
  have "chunk_files ''j'' ?st = [(chunk_file ''c'', chunk_payload json_dump [demo_record ''a'' ''one''])]"
    by (simp add: write_chunk_def put_file_def chunk_files_def)
  then have "iter_results json_load ''j'' ?st = ([demo_record ''a'' ''one''], None)"
    using json.payload_read [OF _ clean] by (simp add: iter_results_def)
  moreover have "''j'' \<in> job_ids demo_db" by (simp add: demo_db_def job_ids_def)
  ultimately show ?thesis
    using download_is_json_array [OF json.record_codec_axioms ok, of "[]" "''j''" demo_db] by simp
qed

end
