(* ===== verification/ServiceInv.thy ===== *)
theory ServiceInv
  imports ServiceProps
begin

text \<open>
  The invariant of the tables along a whole execution, however it ends: no step of ingestion, of the
  pool under any schedule, or of the error handling breaks the schema's constraints or loses a row.
\<close>

section \<open>What every statement keeps, an execution keeps\<close>

text \<open>
  A relation between the tables before and after that the repositories' statements and a run of the
  engine respect.
\<close>

locale kept_by_statements =
  fixes R :: "database \<Rightarrow> database \<Rightarrow> bool" and s :: settings and env :: exec_env
  assumes kept_refl: "R db db"
    and kept_trans: "R a b \<Longrightarrow> R b c \<Longrightarrow> R a c"
    and set_state_law: "set_state job st err now db = Inr db' \<Longrightarrow> R db db'"
    and set_total_law: "set_total job n now db = Inr db' \<Longrightarrow> R db db'"
    and insert_law: "bulk_insert job its failed now db = Inr (db', k) \<Longrightarrow> R db db'"
    and engine_law: "engine_run s rp dump be (ee_host env) (ee_pid env) (ee_hex env) (ee_sched env) job db store
        (ee_running env) = (r, p) \<Longrightarrow> R db (po_db p)"
begin

lemma kept_flush: "flush job now st = (r, st') \<Longrightarrow> R (ig_db st) (ig_db st')"
  by (auto simp: flush_def kept_refl split: if_splits sum.splits prod.splits intro: insert_law)

lemma kept_ingest_rows:
  "ingest_rows s' job clock objs st = (r, st') \<Longrightarrow> R (ig_db st) (ig_db st')"
proof (induction objs arbitrary: st)
  case (Cons obj objs)
  obtain r1 st1 where st1: "ingest_row s' job clock obj st = (r1, st1)" by fastforce
  then have "R (ig_db st) (ig_db st1)"
    using kept_flush by (fastforce simp: ingest_row_def Let_def take_row_spec(2) kept_refl split: if_splits)
  with Cons st1 show ?case by (auto split: option.splits intro: kept_trans)
qed (simp add: kept_refl)

lemma kept_ingest: "ingest s' job clock stream db = (r, db') \<Longrightarrow> R db db'"
  unfolding ingest_def
  by (auto simp: kept_refl split: sum.splits prod.splits option.splits
      dest!: kept_ingest_rows kept_flush set_total_law intro: kept_trans)

lemma kept_record_failure: "record_failure job e now db store = (out, db', store') \<Longrightarrow> R db db'"
  by (auto simp: record_failure_def kept_refl split: sum.splits intro: set_state_law)

lemma kept_execute: "execute s rp dump be env job path db store = (out, db', store') \<Longrightarrow> R db db'"
  unfolding execute_def
  by (auto split: sum.splits prod.splits option.splits
      dest!: set_state_law kept_ingest engine_law kept_record_failure intro: kept_trans)
    (blast intro: kept_trans)

end

section \<open>Tables that keep their rows\<close>

definition grows :: "database \<Rightarrow> database \<Rightarrow> bool" where
  "grows db db' \<longleftrightarrow> (db_wf db \<longrightarrow> db_wf db') \<and>
     set (map item_key (items db)) \<subseteq> set (map item_key (items db'))"

lemma grows_set_state: "set_state job st err now db = Inr db' \<Longrightarrow> grows db db'"
  using set_state_wf [of db job st err now db'] by (auto simp: grows_def set_state_Inr)

lemma grows_set_total: "set_total job n now db = Inr db' \<Longrightarrow> grows db db'"
  using set_total_wf [of db job n now db'] by (auto simp: grows_def set_total_Inr)

lemma grows_insert: "bulk_insert job its failed now db = Inr (db', k) \<Longrightarrow> grows db db'"
proof -
  assume ins: "bulk_insert job its failed now db = Inr (db', k)"
  then have "has_row job' e db \<Longrightarrow> has_row job' e db'" for job' e
    using bulk_insert_Inr_rows [OF ins] by (simp add: has_row_insert_rows)
  with bulk_insert_wf [OF _ ins] show ?thesis by (auto simp: grows_def has_row_key simp del: set_map)
qed

section \<open>The pool\<close>

definition pool_wf :: "pool \<Rightarrow> bool" where
  "pool_wf p \<longleftrightarrow> db_wf (po_db p) \<and>
     (\<forall>w \<in> set (po_workers p). \<forall>rs. pw_phase w = Flushing rs \<or> (\<exists>ref. pw_phase w = Committing rs ref) \<longrightarrow>
        results_terminal rs)"

lemma set_phase_members: "w \<in> set (po_workers (set_phase i ph p)) \<Longrightarrow> w \<in> set (po_workers p) \<or> pw_phase w = ph"
  unfolding set_phase_def by (auto dest: set_update_subset_insert [THEN subsetD])

lemma pool_wf_set_phase:
  assumes "pool_wf p" and "db_wf (po_db q)" and "po_workers q = po_workers p"
    and "\<And>rs ref. ph = Flushing rs \<or> ph = Committing rs ref \<Longrightarrow> results_terminal rs"
  shows "pool_wf (set_phase i ph q)"
  using assms(1-3) assms(4) set_phase_members [of _ i ph q] unfolding pool_wf_def by fastforce

lemma pool_wf_phase: "pool_wf p \<Longrightarrow> phase_of p i = Some (Flushing rs) \<or> phase_of p i = Some (Committing rs ref) \<Longrightarrow>
    results_terminal rs"
  unfolding pool_wf_def phase_of_Some using nth_mem by blast

lemma pool_step_wf:
  assumes wf: "pool_wf p" and step: "pool_step s rp dump be a p = Some p'"
  shows "pool_wf p'"
proof (cases a)
  case (Claim i)
  obtain db' chunk where cl: "claim_chunk (pw_job (po_workers p ! i)) (pw_id (po_workers p ! i)) (chunk_size s)
      (lease_ttl_seconds s) (po_now p) {} (po_db p) = (db', chunk)" by fastforce
  have "db_wf (po_db p)" using wf by (simp add: pool_wf_def)
  then have "db_wf db'" using claim_chunk_wf cl by (metis fst_conv)
  with Claim step wf show ?thesis
    by (auto simp: claim_step_def Let_def cl split: if_splits intro!: pool_wf_set_phase)
next
  case (Process i env)
  then obtain chunk where "p' = process_step s rp i chunk env p"
    using step by (auto split: option.splits phase.splits)
  moreover have "db_wf (po_db p)" using wf by (simp add: pool_wf_def)
  ultimately show ?thesis using process_chunk_Inr(2) [of s rp env chunk no_metrics]
    by (auto simp: process_step_def intro!: pool_wf_set_phase [OF wf] split: sum.split)
next
  case (Flush i cid)
  then obtain rs where ph: "phase_of p i = Some (Flushing rs)" and p': "p' = flush_step dump be i rs cid p"
    using step by (auto split: option.splits phase.splits if_splits)
  have "results_terminal rs" using pool_wf_phase [OF wf] ph by blast
  moreover have "db_wf (po_db p)" using wf by (simp add: pool_wf_def)
  ultimately show ?thesis
    by (auto simp: p' flush_step_def intro!: pool_wf_set_phase [OF wf] split: sum.split)
next
  case (Commit i)
  then obtain rs ref where ph: "phase_of p i = Some (Committing rs ref)" and p': "p' = commit_step i rs ref p"
    using step by (auto split: option.splits phase.splits)
  have "results_terminal rs" using pool_wf_phase [OF wf] ph by blast
  moreover have "db_wf (po_db p)" using wf by (simp add: pool_wf_def)
  ultimately show ?thesis
    by (auto simp: p' commit_step_def complete_items_wf intro!: pool_wf_set_phase [OF wf])
next
  case (Beat i)
  with step wf show ?thesis
    by (auto simp: beat_step_def pool_wf_def renew_lease_wf split: option.splits phase.splits)
next
  case (Tick d)
  with step wf show ?thesis by (auto simp: pool_wf_def)
next
  case (Crash i)
  have "db_wf (po_db p)" using wf by (simp add: pool_wf_def)
  with Crash step show ?thesis
    by (auto intro!: pool_wf_set_phase [OF wf] split: option.splits if_splits)
qed

lemma pool_reach_wf:
  "pool_reach s rp dump be p0 p \<Longrightarrow> pool_wf p0 \<Longrightarrow> pool_wf p"
  by (induction rule: pool_reach.induct) (auto intro: pool_step_wf)

lemma grows_engine_run:
  assumes "engine_run s rp dump be host pid hex sched job db store now = (r, p)"
  shows "grows db (po_db p)"
proof -
  let ?p0 = "start_pool s host pid hex job db store now"
  have pool: "grows db (po_db q)" if run: "run_pool s rp dump be sched ?p0 = (x, q)" for x q
  proof -
    note reach = run_pool_reach [OF run]
    have "db_wf db \<Longrightarrow> pool_wf ?p0" by (auto simp: pool_wf_def start_pool_def spawn_def)
    then have "db_wf db \<Longrightarrow> db_wf (po_db q)" using pool_reach_wf [OF reach] by (simp add: pool_wf_def)
    then show ?thesis using pool_reach_keys [OF reach] by (simp add: grows_def start_pool_def del: set_map)
  qed
  from assms show ?thesis
  proof (cases rule: engine_run_cases)
    case (finished q)
    from pool [OF finished(2)] show ?thesis
      by (auto simp: finished(3) grows_def update_job_wf)
  qed (auto intro: pool)
qed

interpretation growing: kept_by_statements grows s env for s env
proof unfold_locales
  show "grows a c" if "grows a b" "grows b c" for a b c using that unfolding grows_def by blast
qed (simp_all add: grows_set_state grows_set_total grows_insert grows_engine_run, simp add: grows_def)

section \<open>Property\<close>

text \<open>
  C13: The tables stay well formed: whatever the input, the schedule of the workers and the way the
  execution ends (completed, failed, still running, with crashed workers or left by an
  exception), the primary keys, the foreign key, the uniqueness of \<open>(job_id, external_id)\<close>,
  the order of the ids and the lease of every claimed row hold afterwards, and no row is lost.
\<close>

theorem execution_keeps_tables_well_formed:
  assumes "db_wf db" and "execute s rp dump be env job path db store = (out, db', store')"
  shows "db_wf db' \<and> (\<forall>r \<in> set (items db). \<exists>r' \<in> set (items db'). item_key r' = item_key r)"
  using growing.kept_execute [OF assms(2)] assms(1) by (auto simp: grows_def image_iff dest!: subsetD)

theorem execution_keeps_tables_well_formed_witness:
  "\<exists>db' store'. execute default_settings shipped_policy json_dump (LocalBackend []) full_env ''j'' ''in''
       (full_db J_RUNNING 2) [] = (Returned J_COMPLETED, db', store') \<and> db_wf db' \<and>
     (\<exists>r \<in> set (items db'). item_key r = item_key dead_row)"
proof -
  obtain db' store' where ex: "execute default_settings shipped_policy json_dump (LocalBackend []) full_env
      ''j'' ''in'' (full_db J_RUNNING 2) [] = (Returned J_COMPLETED, db', store')"
    using full_execute by (metis prod.collapse)
  from execution_keeps_tables_well_formed [OF full_wf ex] ex show ?thesis by (auto simp: full_db_def)
qed

end
