(* ===== verification/Restart.thy ===== *)
theory Restart
  imports RequestProps ServiceInv
begin

text \<open>
  A restart within the lease of a dead worker: its rows are skipped by the new workers, who stop when
  nothing else is left, and the job is marked completed over them.
\<close>

section \<open>Held rows stay\<close>

text \<open>A row held by none of the named workers under a lease that has not ended at the given time.\<close>

definition held_outside :: "string set \<Rightarrow> time \<Rightarrow> item_row \<Rightarrow> bool" where
  "held_outside ids t r \<longleftrightarrow> i_status r = I_CLAIMED \<and> (\<forall>w. i_worker_id r = Some w \<longrightarrow> w \<notin> ids) \<and>
     (\<exists>u. i_lease_until r = Some u \<and> t \<le> u)"

text \<open>The time a schedule takes.\<close>

fun ticks :: "action \<Rightarrow> nat" where
  "ticks (Tick d) = d"
| "ticks _ = 0"

definition duration :: "action list \<Rightarrow> int" where
  "duration as = int (sum_list (map ticks as))"

lemma duration_simps [simp]: "duration [] = 0" "duration (a # as) = int (ticks a) + duration as"
  by (simp_all add: duration_def)

lemma duration_ge_0 [simp]: "0 \<le> duration as"
  by (simp add: duration_def)

lemma pool_step_clock: "pool_step s rp dump be a p = Some p' \<Longrightarrow> po_now p' = po_now p + int (ticks a)"
  by (cases a) (auto simp: claim_step_def process_step_def flush_step_def commit_step_def beat_step_def Let_def
      split: option.splits phase.splits if_splits prod.splits sum.splits)

lemma pool_step_keeps_held:
  assumes "pool_step s rp dump be a p = Some p'" and "pool_wf p"
    and "r \<in> set (items (po_db p))" and held: "held_outside (fst ` set (crew p)) t r" and "po_now p \<le> t"
  shows "r \<in> set (items (po_db p'))"
proof (rule pool_step_keeps [OF assms(1) _ assms(3)])
  show "db_wf (po_db p)" using assms(2) by (simp add: pool_wf_def)
  show "\<not> claimable (po_now p) r" using held assms(5) by (auto simp: held_outside_def claimable_def)
  show "i_worker_id r \<noteq> Some (pw_id (po_workers p ! i))" if "phase_of p i = Some ph" for i ph
    using held that crew_member [of i p] by (auto simp: held_outside_def phase_of_Some)
qed

lemma run_pool_keeps_held:
  "run_pool s rp dump be as p = (x, p') \<Longrightarrow> pool_wf p \<Longrightarrow> r \<in> set (items (po_db p)) \<Longrightarrow>
   held_outside (fst ` set (crew p)) t r \<Longrightarrow> po_now p + duration as \<le> t \<Longrightarrow> r \<in> set (items (po_db p'))"
proof (induction as arbitrary: p)
  case (Cons a as)
  show ?case
  proof (cases "pool_outcome (po_workers p)")
    case None
    note run = Cons.prems(1)
    show ?thesis
    proof (cases "pool_step s rp dump be a p")
      case stuck: None
      with run None have "run_pool s rp dump be as p = (x, p')" by simp
      then show ?thesis using Cons.prems(5) by (intro Cons.IH [OF _ Cons.prems(2-4)]) simp_all
    next
      case (Some q)
      with run None have go: "run_pool s rp dump be as q = (x, p')" by simp
      have "po_now p \<le> t" using Cons.prems(5) duration_ge_0 [of as] by (simp del: duration_ge_0)
      note keep = pool_step_keeps_held [OF Some Cons.prems(2-4) this]
      show ?thesis
        using Cons.IH [OF go pool_step_wf [OF Cons.prems(2) Some] keep] Cons.prems(4,5)
        by (simp add: pool_step_crew [OF Some] pool_step_clock [OF Some])
    qed
  qed (use Cons.prems in simp)
qed simp

section \<open>Through ingestion and the engine\<close>

lemma insert_rows_keep: "set (items db) \<subseteq> set (items (fst (insert_rows job now ns db)))"
proof (induction ns arbitrary: db)
  case (Cons n ns)
  have "set (items db) \<subseteq> set (items (fst (insert_row job now n db)))" by (auto simp: insert_row_def)
  with Cons show ?case unfolding insert_rows_Cons by blast
qed simp

lemma ingest_keeps_rows:
  assumes "ingest s job clock stream db = (Inr su, db')"
  shows "set (items db) \<subseteq> set (items db')"
proof -
  from assms obtain objs st st' where rows: "ingest_rows s job clock objs (ingest_start db) = (None, st)"
    and fl: "flush job (clock (ig_total st)) st = (None, st')"
    and tot: "set_total job (ig_total st') (clock (ig_total st')) (ig_db st') = Inr db'"
    by (rule ingest_Inr)
  have flushed: "set (items (ig_db u)) \<subseteq> set (items (ig_db u'))" if "flush job now u = (None, u')" for now u u'
    using that insert_rows_keep by (simp add: flush_db)
  have "set (items db) \<subseteq> set (items (ig_db st))"
    by (rule ingest_rows_induct [OF rows]) (auto simp: take_row_spec(2) dest: flushed)
  with flushed [OF fl] show ?thesis using tot by (auto simp: set_total_Inr)
qed

lemma spawn_crew: "fst ` set (crew (start_pool s host pid hex job db store now)) =
    {worker_name host pid (hex i) i | i. i < nat (worker_pool_size s)}"
  by (auto simp: crew_def start_pool_def spawn_def image_image)

lemma engine_run_keeps_held:
  assumes "engine_run s rp dump be host pid hex sched job db store now = (Some (Inr ()), p)" and "db_wf db"
    and "r \<in> set (items db)" and "held_outside {worker_name host pid (hex i) i | i. i < nat (worker_pool_size s)} t r"
    and "now + duration sched \<le> t"
  shows "r \<in> set (items (po_db p))"
  using assms(1)
proof (cases rule: engine_run_cases)
  case (finished q)
  have "pool_wf (start_pool s host pid hex job db store now)"
    using assms(2) by (auto simp: pool_wf_def start_pool_def spawn_def)
  from run_pool_keeps_held [OF finished(2) this, of r t] assms(3-5) show ?thesis
    by (simp add: spawn_crew finished(3)) (simp add: start_pool_def)
qed simp_all

section \<open>The property\<close>

text \<open>After \<open>BatchEngine.run\<close> has returned, its job is \<open>COMPLETED\<close> and not active.\<close>

lemma engine_run_completes:
  fixes p :: pool
  assumes eng: "engine_run s rp dump be host pid hex sched job db store now = (Some (Inr ()), p)"
    and job: "job \<in> job_ids (po_db p)"
  shows "map_option j_state (find_job (po_db p) job) = Some J_COMPLETED"
    and "job \<notin> fst ` set (list_active (po_db p))"
proof -
  have "\<exists>q::pool. po_db p = mark_completed job (po_now q) (po_db q)"
    using eng
  proof (cases rule: engine_run_cases)
    case (finished q)
    then have "po_db p = mark_completed job (po_now q) (po_db q)" by (simp add: mark_completed_def)
    then show ?thesis ..
  qed simp_all
  then obtain q :: pool where q: "po_db p = mark_completed job (po_now q) (po_db q)" ..
  show "job \<notin> fst ` set (list_active (po_db p))"
    unfolding q mark_completed_def by (rule not_active_after) (simp add: active_state_def)
  have "job \<in> job_ids (po_db q)"
    using job only_job_ids [OF only_job_update, of _ job "po_db q"] by (simp add: q mark_completed_def)
  then show "map_option j_state (find_job (po_db p) job) = Some J_COMPLETED"
    unfolding q mark_completed_def by (rule find_job_completed [OF _ refl])
qed

text \<open>
  C27: A restart within the lease of a dead worker loses its rows: if the execution of a job ends
  with \<open>COMPLETED\<close> before the lease of a row held by a worker of another process has ended,
  then whatever the schedule the row is still \<open>CLAIMED\<close> as it was, the status shows a
  completed job with work in progress, and the job is not among those the next restart resumes.
\<close>

theorem restart_within_lease_loses_rows:
  assumes "db_wf db" and "r \<in> set (items db)" and "i_job_id r = job" and "i_status r = I_CLAIMED"
    and "i_worker_id r = Some w"
    and "\<And>i. i < nat (worker_pool_size s) \<Longrightarrow> w \<noteq> worker_name (ee_host env) (ee_pid env) (ee_hex env i) i"
    and "i_lease_until r = Some t" and "ee_running env + duration (ee_sched env) \<le> t"
    and "execute s rp dump be env job path db store = (Returned J_COMPLETED, db', store')"
  shows "r \<in> set (items db') \<and>
    (\<exists>st. get_status job db' = Inr st \<and> js_state st = J_COMPLETED \<and> 0 < js_in_progress st) \<and>
    job \<notin> fst ` set (snd (resume_active db'))"
proof -
  from execute_completed_run [OF assms(9)] obtain db1 su db2 db3 p where
    db1: "set_state job J_INGESTING None (ee_start env) db = Inr db1"
    and ing: "ingest s job (ee_clock env) (ee_input env path) db1 = (Inr su, db2)"
    and db3: "set_state job J_RUNNING None (ee_running env) db2 = Inr db3"
    and eng: "engine_run s rp dump be (ee_host env) (ee_pid env) (ee_hex env) (ee_sched env) job db3 store
       (ee_running env) = (Some (Inr ()), p)" and out: "db' = po_db p" .
  have wf3: "db_wf db3" using set_state_wf [OF _ db3] ingest_wf [OF _ ing] set_state_wf [OF assms(1) db1] by simp
  have r3: "r \<in> set (items db3)" using ingest_keeps_rows [OF ing] assms(2) db1 db3 by (auto simp: set_state_Inr)
  have "held_outside {worker_name (ee_host env) (ee_pid env) (ee_hex env i) i | i. i < nat (worker_pool_size s)} t r"
    using assms(4-7) by (auto simp: held_outside_def)
  from engine_run_keeps_held [OF eng wf3 r3 this assms(8)] have r': "r \<in> set (items db')" by (simp add: out)
  have "db_wf db'" using grows_engine_run [OF eng] wf3 by (simp add: grows_def out)
  then have "job \<in> job_ids (po_db p)" using r' assms(3) by (auto simp: db_wf_def out)
  note state = engine_run_completes [OF eng this, folded out]
  have "0 < count_in job I_CLAIMED db'"
    using r' assms(3,4) row_count_0_iff [of "\<lambda>r. i_job_id r = job \<and> i_status r = I_CLAIMED" "items db'"]
    by (auto simp: count_in_def)
  with state r' show ?thesis
    by (auto simp: get_status_def Let_def count_or_0_by_status resume_active_def)
qed

text \<open>One object, whose row a dead worker holds for another second.\<close>

definition held_row :: item_row where
  "held_row = dead_row\<lparr>i_lease_until := Some 1000000\<rparr>"

definition quick_env :: exec_env where
  "quick_env = full_env\<lparr>ee_sched := [Claim 0, Tick 1, Claim 1, Claim 2, Claim 3]\<rparr>"

lemma held_row_cols [simp]:
  "i_job_id held_row = ''j''" "i_external_id held_row = ''7''" "i_status held_row = I_CLAIMED"
  "i_worker_id held_row = Some ''dead''" "i_lease_until held_row = Some 1000000" "i_id held_row = 1"
  by (simp_all add: held_row_def dead_row_def demo_row_def)

lemma quick_execute:
  "fst (execute default_settings shipped_policy json_dump (LocalBackend []) quick_env ''j'' ''in''
    (one_row_db held_row J_RUNNING 2) []) = Returned J_COMPLETED"
  by (simp add: execute_def full_set_state full_ingest quick_env_def full_env_def)
    (simp add: engine_run_def spawn_def pool_outcome_def raised_def set_state_def opt_text_ok_def
      full_db_def run_eval del: shipped_policy_sel)

theorem restart_within_lease_loses_rows_witness:
  "\<exists>db' store' st. execute default_settings shipped_policy json_dump (LocalBackend []) quick_env ''j'' ''in''
       (one_row_db held_row J_RUNNING 2) [] = (Returned J_COMPLETED, db', store') \<and>
     held_row \<in> set (items db') \<and> get_status ''j'' db' = Inr st \<and> js_state st = J_COMPLETED \<and> 0 < js_in_progress st \<and>
     ''j'' \<notin> fst ` set (snd (resume_active db'))"
proof -
  obtain db' store' where ex: "execute default_settings shipped_policy json_dump (LocalBackend []) quick_env
      ''j'' ''in'' (one_row_db held_row J_RUNNING 2) [] = (Returned J_COMPLETED, db', store')"
    using quick_execute by (metis prod.collapse)
  have wf: "db_wf (one_row_db held_row J_RUNNING 2)"
    by (simp add: full_db_def full_job_def db_wf_def job_ids_def row_wf_def)
  have "ee_running quick_env + duration (ee_sched quick_env) \<le> 1000000"
    by (simp add: quick_env_def full_env_def)
  moreover have "''dead'' \<noteq> worker_name (ee_host quick_env) (ee_pid quick_env) (ee_hex quick_env i) i" for i
    by (simp add: quick_env_def full_env_def worker_name_def)
  ultimately show ?thesis
    using restart_within_lease_loses_rows [OF wf _ _ _ _ _ _ _ ex, of held_row "''dead''" 1000000] ex
    by (auto simp: full_db_def)
qed

end
