(* ===== verification/Ports.thy ===== *)
theory Ports
  imports EngineRun JobService Limiter
begin

text \<open>
  The ports (\<open>app/interfaces\<close>) and the objects the constructors build over them. A port is a
  record of the operations its abstract class declares, over the state of whatever is behind it; the
  adapters are records of the operations modelled before. The services hold the ports they are
  given, so that what they do is a function of these records.

  Where PostgreSQL reads a clock, the operation takes the reading as an argument.
\<close>

section \<open>The ports\<close>

record 'q job_repository =
  jp_create :: "job_record \<Rightarrow> time \<Rightarrow> 'q \<Rightarrow> exn + 'q"
  jp_get :: "uuid \<Rightarrow> 'q \<Rightarrow> job_record option"
  jp_set_state :: "uuid \<Rightarrow> job_state \<Rightarrow> string option \<Rightarrow> time \<Rightarrow> 'q \<Rightarrow> exn + 'q"
  jp_set_total :: "uuid \<Rightarrow> nat \<Rightarrow> time \<Rightarrow> 'q \<Rightarrow> exn + 'q"
  jp_get_status :: "uuid \<Rightarrow> 'q \<Rightarrow> exn + job_status"
  jp_list_active :: "'q \<Rightarrow> (uuid \<times> string) list"

record 'q work_queue_repository =
  qp_bulk_insert :: "uuid \<Rightarrow> prompt_item list \<Rightarrow> result_record list \<Rightarrow> time \<Rightarrow> 'q \<Rightarrow> exn + 'q \<times> nat"
  qp_claim_chunk :: "uuid \<Rightarrow> string \<Rightarrow> nat \<Rightarrow> int \<Rightarrow> time \<Rightarrow> 'q \<Rightarrow> 'q \<times> claimed_item list"
  qp_complete_items :: "string \<Rightarrow> result_record list \<Rightarrow> string \<Rightarrow> time \<Rightarrow> 'q \<Rightarrow> 'q \<times> nat"
  qp_renew_lease :: "string \<Rightarrow> int \<Rightarrow> time \<Rightarrow> 'q \<Rightarrow> 'q"
  qp_count_by_status :: "uuid \<Rightarrow> 'q \<Rightarrow> item_status \<Rightarrow> nat option"
  qp_has_open_work :: "uuid \<Rightarrow> time \<Rightarrow> 'q \<Rightarrow> bool"

record 's storage_port =
  sp_write_chunk :: "string \<Rightarrow> string \<Rightarrow> result_record list \<Rightarrow> 's \<Rightarrow> exn + 's \<times> string"
  sp_iter_results :: "string \<Rightarrow> 's \<Rightarrow> result_record list \<times> exn option"

record 'c client_port =
  cp_complete :: "inference_request \<Rightarrow> 'c \<Rightarrow> 'c \<times> (exn + inference_response)"
  cp_aclose :: "'c \<Rightarrow> 'c"

section \<open>The adapters\<close>

text \<open>\<open>PgJobRepository\<close> and \<open>PgWorkQueueRepository\<close>; no other claim is open.\<close>

definition pg_jobs :: "database job_repository" where
  "pg_jobs =
     \<lparr>jp_create = create_job, jp_get = get_job, jp_set_state = set_state, jp_set_total = set_total,
      jp_get_status = get_status, jp_list_active = list_active\<rparr>"

definition pg_queue :: "database work_queue_repository" where
  "pg_queue =
     \<lparr>qp_bulk_insert = bulk_insert,
      qp_claim_chunk = (\<lambda>job w n l now. claim_chunk job w n l now {}),
      qp_complete_items = complete_items, qp_renew_lease = renew_lease,
      qp_count_by_status = count_by_status, qp_has_open_work = has_open_work\<rparr>"

definition storage_of :: "dumper \<Rightarrow> loader \<Rightarrow> backend \<Rightarrow> chunk_store storage_port" where
  "storage_of dump load be =
     \<lparr>sp_write_chunk = backend_write dump be, sp_iter_results = backend_iter load be\<rparr>"

text \<open>\<open>MockInferenceClient\<close>; its \<open>aclose\<close> does nothing.\<close>

definition mock_port :: "mock_client client_port" where
  "mock_port = \<lparr>cp_complete = (\<lambda>rq c. mock_complete c rq), cp_aclose = (\<lambda>c. c)\<rparr>"

lemma pg_queue_sel [simp]:
  "qp_bulk_insert pg_queue = bulk_insert"
  "qp_claim_chunk pg_queue = (\<lambda>job w n l now. claim_chunk job w n l now {})"
  "qp_complete_items pg_queue = complete_items" "qp_renew_lease pg_queue = renew_lease"
  "qp_count_by_status pg_queue = count_by_status" "qp_has_open_work pg_queue = has_open_work"
  by (simp_all add: pg_queue_def)

section \<open>The services\<close>

record ('q, 's, 'c) worker_object =
  wk_id :: string
  wk_queue :: "'q work_queue_repository"
  wk_client :: 'c
  wk_storage :: "'s storage_port"
  wk_retry :: retry_policy
  wk_limiter :: semaphore
  wk_settings :: settings

definition run_worker ::
  "('q, 's, 'c) worker_object \<Rightarrow> run_env \<Rightarrow> uuid \<Rightarrow> nat \<Rightarrow> ('q, 's) worker_state \<Rightarrow>
   ((exn + unit) \<times> ('q, 's) worker_state) option" where
  "run_worker w env job fuel st =
     worker_run (qp_claim_chunk (wk_queue w)) (qp_complete_items (wk_queue w)) (qp_renew_lease (wk_queue w))
       (sp_write_chunk (wk_storage w)) (wk_settings w) (wk_retry w) env job (wk_id w) fuel 0 st"

record ('q, 'c) batch_engine =
  be_queue :: "'q work_queue_repository"
  be_job_repo :: "'q job_repository"
  be_client :: 'c
  be_storage :: backend
  be_retry :: retry_policy
  be_limiter :: semaphore
  be_settings :: settings

text \<open>
  The workers \<open>BatchEngine.run\<close> makes: they share the engine's limiter. \<open>dump\<close> and
  \<open>load\<close> are the JSON codec the storage adapter uses.
\<close>

definition engine_workers ::
  "dumper \<Rightarrow> loader \<Rightarrow> ('q, 'c) batch_engine \<Rightarrow> string \<Rightarrow> nat \<Rightarrow> (nat \<Rightarrow> string) \<Rightarrow>
   ('q, chunk_store, 'c) worker_object list" where
  "engine_workers dump load e host pid hex =
     map (\<lambda>i. \<lparr>wk_id = worker_name host pid (hex i) i, wk_queue = be_queue e, wk_client = be_client e,
               wk_storage = storage_of dump load (be_storage e), wk_retry = be_retry e, wk_limiter = be_limiter e,
               wk_settings = be_settings e\<rparr>)
       [0..<nat (worker_pool_size (be_settings e))]"

record 'q batch_ingestor =
  in_queue :: "'q work_queue_repository"
  in_job_repo :: "'q job_repository"
  in_validator :: "rule list"
  in_settings :: settings

record ('q, 'c) job_service =
  jv_job_repo :: "'q job_repository"
  jv_queue :: "'q work_queue_repository"
  jv_ingestor :: "'q batch_ingestor"
  jv_engine :: "('q, 'c) batch_engine"
  jv_storage :: backend
  jv_settings :: settings

lemma engine_workers_spawn:
  "map wk_id (engine_workers dump load e host pid hex) = map pw_id (spawn (be_settings e) host pid hex job)"
  by (simp add: engine_workers_def spawn_def)

text \<open>
  A worker over the repositories is the worker loop of the other theories: \<open>run_worker\<close> with the
  PostgreSQL adapter and a storage backend.
\<close>

lemma run_worker_pg:
  "wk_queue w = pg_queue \<Longrightarrow> wk_storage w = storage_of dump load be \<Longrightarrow>
   run_worker w env job fuel st =
     worker_run (\<lambda>job w n l now. claim_chunk job w n l now {}) complete_items renew_lease
       (backend_write dump be) (wk_settings w) (wk_retry w) env job (wk_id w) fuel 0 st"
  by (simp add: run_worker_def storage_of_def)

section \<open>Clients\<close>

text \<open>What a client with a state answers to call number \<open>k\<close> with one request.\<close>

fun client_after :: "'c client_port \<Rightarrow> inference_request \<Rightarrow> 'c \<Rightarrow> nat \<Rightarrow> 'c" where
  "client_after p rq c 0 = c"
| "client_after p rq c (Suc k) = fst (cp_complete p rq (client_after p rq c k))"

definition client_answer :: "'c client_port \<Rightarrow> inference_request \<Rightarrow> 'c \<Rightarrow> nat \<Rightarrow> exn + inference_response" where
  "client_answer p rq c k = snd (cp_complete p rq (client_after p rq c k))"

lemma client_after_mock: "client_after mock_port rq c k = mock_after c rq k"
  by (induction k) (simp_all add: mock_port_def)

lemma client_answer_mock: "client_answer mock_port rq c k = mock_answer c rq k"
  by (simp add: client_answer_def mock_answer_def client_after_mock) (simp add: mock_port_def)

end
