(* ===== verification/Isolation.thy ===== *)
theory Isolation
  imports Ports
begin

text \<open>
  Workers see their queue only through the port. The locale \<open>queue_simulation\<close> relates two
  queues by a relation that the three operations the worker calls keep, with equal answers; a worker
  over related queues then behaves the same. Its interpretations on PostgreSQL show that a worker
  depends on no row of another job and touches none.
\<close>

section \<open>Simulation between queues\<close>

locale queue_simulation =
  fixes rel :: "'q \<Rightarrow> 'p \<Rightarrow> bool"
    and Q :: "'q work_queue_repository" and P :: "'p work_queue_repository"
    and job :: uuid and w :: string
  assumes claim_sim: "rel q p \<Longrightarrow>
      rel (fst (qp_claim_chunk Q job w n l now q)) (fst (qp_claim_chunk P job w n l now p)) \<and>
      snd (qp_claim_chunk Q job w n l now q) = snd (qp_claim_chunk P job w n l now p)"
    and complete_sim: "rel q p \<Longrightarrow>
      rel (fst (qp_complete_items Q w rs ref now q)) (fst (qp_complete_items P w rs ref now p))"
    and renew_sim: "rel q p \<Longrightarrow> rel (qp_renew_lease Q w l now q) (qp_renew_lease P w l now p)"
begin

lemma heartbeats_sim:
  "rel q p \<Longrightarrow> rel (heartbeats (qp_renew_lease Q) w l ts q) (heartbeats (qp_renew_lease P) w l ts p)"
  by (induction ts arbitrary: q p) (simp_all add: heartbeats_def renew_sim)

text \<open>The same end and the same files and counters, over related queues.\<close>

definition agree ::
  "((exn + unit) \<times> ('q, 's) worker_state) option \<Rightarrow> ((exn + unit) \<times> ('p, 's) worker_state) option \<Rightarrow> bool" where
  "agree = rel_option (rel_prod (=) (\<lambda>st st'. rel (ws_queue st) (ws_queue st') \<and>
     ws_store st = ws_store st' \<and> ws_metrics st = ws_metrics st'))"

lemma worker_run_sim:
  assumes "rel (ws_queue st) (ws_queue st')" "ws_store st = ws_store st'" "ws_metrics st = ws_metrics st'"
  shows "agree
    (worker_run (qp_claim_chunk Q) (qp_complete_items Q) (qp_renew_lease Q) store s rp env job w fuel k st)
    (worker_run (qp_claim_chunk P) (qp_complete_items P) (qp_renew_lease P) store s rp env job w fuel k st')"
  using assms
proof (induction fuel arbitrary: k st st')
  case (Suc fuel)
  let ?l = "lease_ttl_seconds s"
  obtain q chunk where q: "qp_claim_chunk Q job w (chunk_size s) ?l (en_claim_time env k) (ws_queue st) = (q, chunk)"
    by fastforce
  then obtain p where p: "qp_claim_chunk P job w (chunk_size s) ?l (en_claim_time env k) (ws_queue st') = (p, chunk)"
    and qp: "rel q p"
    using claim_sim [OF Suc.prems(1), of "chunk_size s" ?l "en_claim_time env k"] by (metis prod.collapse fst_conv snd_conv)
  note hb = heartbeats_sim [OF qp, of ?l "en_beats env k"]
  let ?m = "(ws_metrics st)\<lparr>m_chunks := m_chunks (ws_metrics st) + 1\<rparr>"
  obtain results m where pc: "process_chunk s rp (en_rows env k) chunk ?m = (results, m)" by fastforce
  show ?case
  proof (cases "chunk \<noteq> [] \<and> (\<exists>rs. results = Inr rs)")
    case False
    then show ?thesis using Suc.prems q p qp hb pc
      by (auto simp: agree_def Let_def split: sum.split)
  next
    case True
    then obtain rs where rs: "results = Inr rs" by blast
    show ?thesis
    proof (cases "store job (en_chunk_id env k) rs (ws_store st)")
      case (Inl e)
      then show ?thesis using True rs Suc.prems q p hb pc by (simp add: agree_def Let_def)
    next
      case (Inr y)
      then show ?thesis using True rs Suc.prems q p pc complete_sim [OF hb]
        by (cases y) (simp add: Let_def Suc.IH)
    qed
  qed
qed (simp add: agree_def)

lemma run_worker_sim:
  assumes "rel q p"
    and "wk_queue v = Q" "wk_queue v' = P" "wk_id v = w" "wk_id v' = w" "wk_storage v = wk_storage v'"
      "wk_settings v = wk_settings v'" "wk_retry v = wk_retry v'"
  shows "agree (run_worker v env job fuel \<lparr>ws_queue = q, ws_store = files, ws_metrics = m\<rparr>)
     (run_worker v' env job fuel \<lparr>ws_queue = p, ws_store = files, ws_metrics = m\<rparr>)"
  using assms by (simp add: run_worker_def worker_run_sim)

end

section \<open>The rows of one job\<close>

definition rows_of :: "uuid \<Rightarrow> database \<Rightarrow> item_row list" where
  "rows_of job db = filter (\<lambda>r. i_job_id r = job) (items db)"

definition rows_outside :: "uuid \<Rightarrow> database \<Rightarrow> item_row list" where
  "rows_outside job db = filter (\<lambda>r. i_job_id r \<noteq> job) (items db)"

lemma filter_sql_update_keeps:
  "(\<And>r. Q (f r) = Q r) \<Longrightarrow> filter Q (sql_update P f rows) = sql_update P f (filter Q rows)"
  by (induction rows) simp_all

lemma rows_of_update: "keeps_identity f \<Longrightarrow> rows_of job (update_items P f db) = sql_update P f (rows_of job db)"
  by (simp add: rows_of_def filter_sql_update_keeps keeps_identity_def)

lemma rows_outside_update:
  "keeps_identity f \<Longrightarrow> rows_outside job (update_items P f db) = sql_update P f (rows_outside job db)"
  by (simp add: rows_outside_def filter_sql_update_keeps keeps_identity_def)

lemma claim_select_rows_of:
  "claim_select job n now locked db =
     take n (filter (\<lambda>r. i_id r \<notin> locked) (sort_key i_id (filter (claimable now) (rows_of job db))))"
  by (simp add: claim_select_def rows_of_def conj_commute)

lemma complete_loop_rows_of:
  "rows_of job db = rows_of job db' \<Longrightarrow>
   rows_of job (fst (complete_loop w rs ref now (db, c))) = rows_of job (fst (complete_loop w rs ref now (db', c')))"
  by (induction rs arbitrary: db db' c c') (simp_all add: rows_of_update)

interpretation same_job: queue_simulation "\<lambda>db db'. rows_of job db = rows_of job db'" pg_queue pg_queue job w
  for job w
  by unfold_locales
     (simp_all add: claim_chunk_def Let_def claim_select_rows_of rows_of_update complete_items_def
       complete_loop_rows_of renew_lease_def)

section \<open>The rows of other jobs\<close>

text \<open>The jobs are \<open>js\<close>, the rows of all other jobs \<open>others\<close>, and the worker holds none of these.\<close>

definition elsewhere :: "uuid \<Rightarrow> string \<Rightarrow> job_row list \<Rightarrow> item_row list \<Rightarrow> database \<Rightarrow> bool" where
  "elsewhere job w js others db \<longleftrightarrow> distinct (map i_id (items db)) \<and> jobs db = js \<and>
     rows_outside job db = others \<and>
     list_all (\<lambda>r. i_worker_id r = Some w \<longrightarrow> i_status r \<noteq> I_CLAIMED) others"

lemma elsewhere_update:
  assumes "elsewhere job w js others db" and "keeps_identity f"
    and "\<And>r. r \<in> set (rows_outside job db) \<Longrightarrow> \<not> P r"
  shows "elsewhere job w js others (update_items P f db)"
proof -
  have "map i_id (sql_update P f (items db)) = map i_id (items db)"
    using assms(2) by (simp add: map_sql_update keeps_identity_def)
  moreover have "sql_update P f (rows_outside job db) = rows_outside job db"
    using assms(3) by (intro sql_update_none) blast
  ultimately show ?thesis using assms(1,2) by (simp add: elsewhere_def rows_outside_update)
qed

lemma elsewhere_claim:
  assumes "elsewhere job w js others db"
  shows "elsewhere job w js others (fst (claim_chunk job w n l now locked db))"
proof -
  have "i_id r \<notin> i_id ` set (claim_select job n now locked db)" if r: "r \<in> set (rows_outside job db)" for r
  proof
    assume "i_id r \<in> i_id ` set (claim_select job n now locked db)"
    then obtain r' where r': "r' \<in> set (claim_select job n now locked db)" "i_id r = i_id r'" by auto
    then have "r' \<in> set (items db)" "i_job_id r' = job"
      by (auto simp: claim_select_def dest: in_set_takeD)
    moreover have "r \<in> set (items db)" "i_job_id r \<noteq> job" using r by (auto simp: rows_outside_def)
    ultimately show False
      using assms r'(2) distinct_map_unique [of i_id "items db" r r'] by (auto simp: elsewhere_def)
  qed
  then show ?thesis
    using assms by (simp add: claim_chunk_def Let_def elsewhere_update)
qed

lemma elsewhere_held:
  assumes "elsewhere job w js others db" and "keeps_identity f"
    and "\<And>r. P r \<Longrightarrow> i_worker_id r = Some w \<and> i_status r = I_CLAIMED"
  shows "elsewhere job w js others (update_items P f db)"
  using assms by (intro elsewhere_update) (auto simp: elsewhere_def list_all_iff)

lemma elsewhere_complete:
  "elsewhere job w js others db \<Longrightarrow> elsewhere job w js others (fst (complete_loop w rs ref now (db, c)))"
proof (induction rs arbitrary: db c)
  case (Cons r rs)
  have "elsewhere job w js others (update_items (owns w (rr_external_id r)) (complete_row r ref now) db)"
    by (rule elsewhere_held [OF Cons.prems]) (simp_all add: owns_def)
  then show ?case by (simp add: Cons.IH)
qed simp

interpretation other_jobs: queue_simulation "\<lambda>db db'. db = db' \<and> elsewhere job w js others db" pg_queue pg_queue job w
  for job w js others
  by unfold_locales
     (simp_all add: elsewhere_claim complete_items_def elsewhere_complete renew_lease_def elsewhere_held)

section \<open>Isolation of jobs\<close>

text \<open>
  C19: Jobs are isolated from each other. What a worker does on a job, how its loop ends, the files it
  writes, its counters and the rows it leaves, is the same in any two databases with the same rows of
  that job, whatever other jobs are in them; and, if it holds no row of another job, every row of the
  other jobs and the table of jobs are afterwards what they were.
\<close>

theorem worker_sees_and_touches_only_its_job:
  assumes "rows_of job db = rows_of job db'"
    and "distinct (map i_id (items db))"
    and "list_all (\<lambda>r. i_worker_id r = Some (wk_id v) \<longrightarrow> i_status r \<noteq> I_CLAIMED) (rows_outside job db)"
    and "wk_queue v = pg_queue"
    and "run_worker v env job fuel \<lparr>ws_queue = db, ws_store = files, ws_metrics = m\<rparr> = Some (r, st)"
  shows "\<exists>q. run_worker v env job fuel \<lparr>ws_queue = db', ws_store = files, ws_metrics = m\<rparr> =
       Some (r, st\<lparr>ws_queue := q\<rparr>) \<and>
     rows_of job q = rows_of job (ws_queue st) \<and>
     rows_outside job (ws_queue st) = rows_outside job db \<and> jobs (ws_queue st) = jobs db"
proof -
  have "elsewhere job (wk_id v) (jobs db) (rows_outside job db) db"
    using assms(2,3) by (simp add: elsewhere_def)
  then have "elsewhere job (wk_id v) (jobs db) (rows_outside job db) (ws_queue st)"
    using other_jobs.run_worker_sim [where js = "jobs db" and others = "rows_outside job db" and job = job and
        w = "wk_id v" and q = db and p = db and v = v and v' = v and env = env and fuel = fuel and files = files and m = m] assms(4,5)
    by (simp add: other_jobs.agree_def)
  moreover obtain st' where
    "run_worker v env job fuel \<lparr>ws_queue = db', ws_store = files, ws_metrics = m\<rparr> = Some (r, st')"
    "rows_of job (ws_queue st) = rows_of job (ws_queue st')" "ws_store st = ws_store st'" "ws_metrics st = ws_metrics st'"
    using same_job.run_worker_sim [where job = job and q = db and p = db' and w = "wk_id v" and v = v and v' = v and
        env = env and fuel = fuel and files = files and m = m] assms(1,4,5)
    by (auto simp: same_job.agree_def option_rel_Some1 rel_prod_sel)
  ultimately show ?thesis
    by (intro exI [of _ "ws_queue st'"]) (simp add: elsewhere_def)
qed

text \<open>The database \<open>demo_db\<close> with a second job beside its own, and a worker.\<close>

definition two_jobs :: database where
  "two_jobs = \<lparr>jobs = [\<lparr>j_id = ''j'', j_state = J_RUNNING, j_input_path = ''in'', j_model = ''m'',
       j_total_items = 2, j_config = [], j_error = None, j_created_at = 0, j_updated_at = 0\<rparr>,
      \<lparr>j_id = ''k'', j_state = J_RUNNING, j_input_path = ''in'', j_model = ''m'',
       j_total_items = 1, j_config = [], j_error = None, j_created_at = 0, j_updated_at = 0\<rparr>],
     items = [demo_row 1 ''a'', demo_row 2 ''b'', (demo_row 3 ''a'')\<lparr>i_job_id := ''k''\<rparr>], item_seq = 4\<rparr>"

lemma two_jobs_wf: "db_wf two_jobs"
  by (simp add: two_jobs_def demo_row_def db_wf_def job_ids_def item_key_def row_wf_def)

definition demo_worker :: "(database, chunk_store, mock_client) worker_object" where
  "demo_worker = \<lparr>wk_id = ''w'', wk_queue = pg_queue, wk_client = make_mock None 1 0,
     wk_storage = storage_of json_dump json_load (LocalBackend []), wk_retry = shipped_policy,
     wk_limiter = \<lparr>sem_value = 10, sem_waiters = [], sem_active = []\<rparr>, wk_settings = default_settings\<rparr>"

definition demo_rounds :: run_env where
  "demo_rounds = \<lparr>en_claim_time = int, en_beats = (\<lambda>k. [int k]), en_commit_time = int, en_chunk_id = nat_str,
     en_rows = (\<lambda>k c. demo_env (\<lambda>rq. client_answer mock_port rq (make_mock None 1 0)))\<rparr>"

lemma demo_worker_runs:
  "\<exists>st. run_worker demo_worker demo_rounds ''j'' 4 \<lparr>ws_queue = two_jobs, ws_store = [], ws_metrics = no_metrics\<rparr> =
     Some (Inr (), st)"
proof -
  have "a < nat (retry_max_attempts default_settings) \<Longrightarrow>
      \<exists>d. delay_for shipped_policy a (re_draw (en_rows demo_rounds k c) a) = Inr d" for k c a
    by (rule delay_for_returns) (simp_all add: default_settings_def demo_rounds_def demo_env_def)
  moreover have "0 < chunk_size default_settings" by (simp add: default_settings_def)
  moreover have "r \<in> set (items two_jobs) \<Longrightarrow> i_status r \<noteq> I_CLAIMED" for r
    by (auto simp: two_jobs_def demo_row_def)
  moreover have "length (items two_jobs) < 4" by (simp add: two_jobs_def)
  moreover have "backend_write json_dump (LocalBackend []) = local_store json_dump"
    by (simp add: local_store_def)
  ultimately show ?thesis
    using lone_worker_returns [of "\<lparr>ws_queue = two_jobs, ws_store = [], ws_metrics = no_metrics\<rparr>" "''j''"
        default_settings 4 shipped_policy demo_rounds json_dump "''w''"] two_jobs_wf
    by (auto simp: run_worker_def demo_worker_def storage_of_def)
qed

theorem worker_sees_and_touches_only_its_job_witness:
  "\<exists>st q. run_worker demo_worker demo_rounds ''j'' 4 \<lparr>ws_queue = demo_db, ws_store = [], ws_metrics = no_metrics\<rparr> =
       Some (Inr (), st\<lparr>ws_queue := q\<rparr>) \<and>
     rows_outside ''j'' (ws_queue st) = [(demo_row 3 ''a'')\<lparr>i_job_id := ''k''\<rparr>]"
proof -
  obtain st where st: "run_worker demo_worker demo_rounds ''j'' 4
      \<lparr>ws_queue = two_jobs, ws_store = [], ws_metrics = no_metrics\<rparr> = Some (Inr (), st)"
    using demo_worker_runs by blast
  have same: "rows_of ''j'' two_jobs = rows_of ''j'' demo_db"
    by (simp add: rows_of_def two_jobs_def demo_db_def demo_row_def)
  have others: "rows_outside ''j'' two_jobs = [(demo_row 3 ''a'')\<lparr>i_job_id := ''k''\<rparr>]"
    by (simp add: rows_outside_def two_jobs_def demo_row_def)
  have "list_all (\<lambda>r. i_worker_id r = Some (wk_id demo_worker) \<longrightarrow> i_status r \<noteq> I_CLAIMED) (rows_outside ''j'' two_jobs)"
    by (simp add: others demo_row_def)
  from worker_sees_and_touches_only_its_job [OF same db_wf_ids_distinct [OF two_jobs_wf] this _ st] others
  show ?thesis by (auto simp: demo_worker_def)
qed

end
