(* ===== verification/HttpApi.thy ===== *)
theory HttpApi
  imports JobService Logging
begin

text \<open>
  The HTTP layer: the routes of \<open>app/api/routers/jobs.py\<close> and \<open>app/main.py\<close> with the
  two exception handlers, the start-up hook, and \<open>ObservabilityMiddleware\<close>
  (\<open>app/api/middleware.py\<close>) around them.

  Parsing the path, the headers and the body is FastAPI's: a request comes with the endpoint it was
  routed to and that endpoint's parsed arguments. What FastAPI answers to a path that matches no
  route is \<open>ap_unrouted\<close>, what \<open>prometheus_client\<close> renders is \<open>ap_exposition\<close>. A
  streamed body is the pieces the generator yields with the exception that ends it, if any: by then
  the status line has been sent.
\<close>

section \<open>Requests and responses\<close>

datatype endpoint =
    SubmitJob submit_request
  | StatusOf uuid
  | DownloadOf uuid
  | MetricsPage
  | HealthPage
  | Unrouted

datatype body =
    Accepted uuid
  | StatusBody job_status
  | Streamed "string list" "exn option"
  | Detail string
  | DetailList "string list"
  | PlainText string
  | HealthOk

record response =
  hr_status :: nat
  hr_headers :: "(string \<times> string) list"
  hr_body :: body

definition respond :: "nat \<Rightarrow> body \<Rightarrow> response" where
  "respond status b = \<lparr>hr_status = status, hr_headers = [], hr_body = b\<rparr>"

record http_request =
  hq_method :: string
  hq_path :: string
  hq_request_id :: "string option"
  hq_endpoint :: endpoint

section \<open>The application\<close>

record app =
  ap_settings :: settings
  ap_fs :: filesystem
  ap_dump :: dumper
  ap_load :: loader
  ap_backend :: backend
  ap_new_id :: uuid
  ap_now :: time
  ap_exposition :: string
  ap_unrouted :: response

record world =
  wo_db :: database
  wo_store :: chunk_store
  wo_tasks :: "(uuid \<times> string) list"

fun call_endpoint :: "app \<Rightarrow> endpoint \<Rightarrow> world \<Rightarrow> (exn + response) \<times> world" where
  "call_endpoint ap (SubmitJob req) w =
     (case submit (ap_settings ap) (ap_fs ap) (ap_new_id ap) (ap_now ap) req (wo_db w) of
        (answer, db', tasks) \<Rightarrow>
          (case answer of Inl e \<Rightarrow> Inl e | Inr job \<Rightarrow> Inr (respond 202 (Accepted job)),
           w\<lparr>wo_db := db', wo_tasks := wo_tasks w @ tasks\<rparr>))"
| "call_endpoint ap (StatusOf job) w =
     (case service_status job (wo_db w) of Inl e \<Rightarrow> Inl e | Inr st \<Rightarrow> Inr (respond 200 (StatusBody st)), w)"
| "call_endpoint ap (DownloadOf job) w =
     (case stream_results (ap_dump ap) (ap_load ap) (ap_backend ap) job (wo_db w) (wo_store w) of
        (pieces, err) \<Rightarrow> (Inr (respond 200 (Streamed pieces err)), w))"
| "call_endpoint ap MetricsPage w =
     (Inr (if metrics_enabled (ap_settings ap) then respond 200 (PlainText (ap_exposition ap)) else ap_unrouted ap), w)"
| "call_endpoint ap HealthPage w = (Inr (respond 200 HealthOk), w)"
| "call_endpoint ap Unrouted w = (Inr (ap_unrouted ap), w)"

text \<open>The handlers \<open>_job_not_found\<close> and \<open>_validation_error\<close>; other exceptions pass.\<close>

definition exception_response :: "exn \<Rightarrow> response option" where
  "exception_response e =
     (case e of
        JobNotFoundError job \<Rightarrow> Some (respond 404 (Detail (''job not found: '' @ job)))
      | ValidationError errors \<Rightarrow> Some (respond 400 (DetailList errors))
      | _ \<Rightarrow> None)"

definition call_app :: "app \<Rightarrow> endpoint \<Rightarrow> world \<Rightarrow> (exn + response) \<times> world" where
  "call_app ap ep w =
     (case call_endpoint ap ep w of
        (Inl e, w') \<Rightarrow> (case exception_response e of Some r \<Rightarrow> Inr r | None \<Rightarrow> Inl e, w')
      | (Inr r, w') \<Rightarrow> (Inr r, w'))"

text \<open>The start-up half of \<open>lifespan\<close>: a failing resumption is logged and startup goes on.\<close>

datatype startup_log = ResumedJobs nat | ResumeFailed

definition startup :: "exn + nat \<times> (uuid \<times> string) list \<Rightarrow> world \<Rightarrow> startup_log \<times> world" where
  "startup resumed w =
     (case resumed of
        Inr (n, tasks) \<Rightarrow> (ResumedJobs n, w\<lparr>wo_tasks := wo_tasks w @ tasks\<rparr>)
      | Inl e \<Rightarrow> (ResumeFailed, w))"

text \<open>
  \<open>lifespan\<close>: \<open>built\<close> is the exception of \<open>get_services\<close>, if any, and \<open>closing\<close> that
  of closing the client, after which the database engine is not disposed of.
\<close>

datatype lifespan_event = Logged startup_log | Serving | ClientClosed | EngineDisposed

definition lifespan ::
  "exn option \<Rightarrow> exn + nat \<times> (uuid \<times> string) list \<Rightarrow> exn option \<Rightarrow> world \<Rightarrow>
   lifespan_event list \<times> exn option \<times> world" where
  "lifespan built resumed closing w =
     (case built of
        Some e \<Rightarrow> ([], Some e, w)
      | None \<Rightarrow>
          (case startup resumed w of
             (entry, w') \<Rightarrow>
               (case closing of
                  Some e \<Rightarrow> ([Logged entry, Serving], Some e, w')
                | None \<Rightarrow> ([Logged entry, Serving, ClientClosed, EngineDisposed], None, w'))))"

text \<open>A failing resumption never keeps the service from serving; failing services do.\<close>

lemma lifespan_serves:
  "Serving \<in> set (fst (lifespan built resumed closing w)) \<longleftrightarrow> built = None"
  by (auto simp: lifespan_def split: option.split prod.split)

section \<open>The middleware\<close>

datatype access_line = RequestFailed string string | RequestDone string string nat rat

record http_state =
  hs_requests :: "string \<times> string \<times> string \<Rightarrow> nat"
  hs_latency :: "string \<times> string \<Rightarrow> rat list"
  hs_context :: log_context
  hs_log :: "access_line list"

text \<open>The path of the route that matched, else the path of the URL.\<close>

definition route_template :: "http_request \<Rightarrow> bool \<Rightarrow> string" where
  "route_template q metrics_on =
     (case hq_endpoint q of
        SubmitJob _ \<Rightarrow> ''/jobs''
      | StatusOf _ \<Rightarrow> ''/job/{job_id}/status''
      | DownloadOf _ \<Rightarrow> ''/job/{job_id}/download''
      | MetricsPage \<Rightarrow> if metrics_on then ''/metrics'' else hq_path q
      | HealthPage \<Rightarrow> ''/health''
      | Unrouted \<Rightarrow> hq_path q)"

text \<open>\<open>fresh\<close> is \<open>uuid4().hex\<close>; an empty header counts as none.\<close>

definition request_id_of :: "http_request \<Rightarrow> string \<Rightarrow> string" where
  "request_id_of q fresh = (case hq_request_id q of None \<Rightarrow> fresh | Some h \<Rightarrow> if h = [] then fresh else h)"

definition count_request :: "string \<Rightarrow> string \<Rightarrow> string \<Rightarrow> rat \<Rightarrow> http_state \<Rightarrow> http_state" where
  "count_request method template status duration h =
     h\<lparr>hs_requests := (hs_requests h)((method, template, status) := hs_requests h (method, template, status) + 1),
       hs_latency := (hs_latency h)((method, template) := hs_latency h (method, template) @ [duration])\<rparr>"

definition dispatch ::
  "app \<Rightarrow> http_request \<Rightarrow> string \<Rightarrow> rat \<Rightarrow> http_state \<Rightarrow> world \<Rightarrow> (exn + response) \<times> http_state \<times> world" where
  "dispatch ap q fresh duration h w =
     (let rid = request_id_of q fresh;
          h1 = h\<lparr>hs_context := set_request_id (Some rid) (hs_context h)\<rparr>;
          template = route_template q (metrics_enabled (ap_settings ap))
      in case call_app ap (hq_endpoint q) w of
           (Inl e, w') \<Rightarrow>
             (Inl e,
              (count_request (hq_method q) template ''500'' duration h1)
                \<lparr>hs_log := hs_log h1 @ [RequestFailed (hq_method q) (hq_path q)]\<rparr>, w')
         | (Inr r, w') \<Rightarrow>
             (Inr (r\<lparr>hr_headers := AList.update ''x-request-id'' rid (hr_headers r)\<rparr>),
              (count_request (hq_method q) template (nat_str (hr_status r)) duration h1)
                \<lparr>hs_log := hs_log h1 @ [RequestDone (hq_method q) (hq_path q) (hr_status r) (duration * 1000)]\<rparr>, w'))"

end
