(* ===== verification/HttpProps.thy ===== *)
theory HttpProps
  imports HttpApi RequestProps
begin

text \<open>
  What a client of the HTTP interface sees, and what the middleware counts.
\<close>

text \<open>
  The middleware counts every request exactly once, under its method, its route and the status
  sent or \<open>500\<close> when the application raised, records one latency, tags the log context with
  the caller's request id or a fresh one, returns that id in the response, and swallows no
  exception.
\<close>

lemma middleware_counts_every_request:
  "case dispatch ap q fresh duration h w of (out, h', w') \<Rightarrow>
     (let template = route_template q (metrics_enabled (ap_settings ap));
          status = (case out of Inl e \<Rightarrow> ''500'' | Inr r \<Rightarrow> nat_str (hr_status r));
          rid = request_id_of q fresh
      in hs_requests h' = (hs_requests h)
           ((hq_method q, template, status) := hs_requests h (hq_method q, template, status) + 1) \<and>
         hs_latency h' = (hs_latency h)((hq_method q, template) := hs_latency h (hq_method q, template) @ [duration]) \<and>
         cx_request_id (hs_context h') = Some rid \<and> length (hs_log h') = length (hs_log h) + 1 \<and>
         (case out of
            Inl e \<Rightarrow> fst (call_app ap (hq_endpoint q) w) = Inl e
          | Inr r \<Rightarrow> map_of (hr_headers r) ''x-request-id'' = Some rid))"
  by (auto simp: dispatch_def Let_def count_request_def update_conv' split: prod.split sum.split)

section \<open>Answers\<close>

lemma call_app_Inl: "call_endpoint ap ep w = (Inl e, w') \<Longrightarrow>
    call_app ap ep w = (case exception_response e of Some r \<Rightarrow> Inr r | None \<Rightarrow> Inl e, w')"
  by (simp add: call_app_def)

lemma call_app_Inr: "call_endpoint ap ep w = (Inr r, w') \<Longrightarrow> call_app ap ep w = (Inr r, w')"
  by (simp add: call_app_def)

lemma create_job_Inl: "create_job j now db = Inl e \<Longrightarrow> exception_response e = None"
  by (auto simp: create_job_def exception_response_def split: if_splits)


text \<open>
  C35: Requests that read change nothing, and only the status route knows an unknown job: it answers
  200 with the job's status or 404, while the download route has sent 200 before it looks, so for
  an unknown job the client gets a 200 with an empty body that breaks off, counted as a success.
\<close>

theorem http_read_answers:
  "call_app ap (StatusOf job) w =
     (case get_status job (wo_db w) of
        Inr st \<Rightarrow> Inr (respond 200 (StatusBody st))
      | Inl e \<Rightarrow> Inr (respond 404 (Detail (''job not found: '' @ job))), w) \<and>
   (job \<in> job_ids (wo_db w) \<longleftrightarrow> (case get_status job (wo_db w) of Inr st \<Rightarrow> True | Inl e \<Rightarrow> False)) \<and>
   (\<exists>pieces err. call_app ap (DownloadOf job) w = (Inr (respond 200 (Streamed pieces err)), w) \<and>
      (if job \<in> job_ids (wo_db w) then pieces \<noteq> [] else pieces = [] \<and> err = Some (JobNotFoundError job)))"
proof (intro conjI)
  show "call_app ap (StatusOf job) w =
     (case get_status job (wo_db w) of
        Inr st \<Rightarrow> Inr (respond 200 (StatusBody st))
      | Inl e \<Rightarrow> Inr (respond 404 (Detail (''job not found: '' @ job))), w)"
    by (simp add: call_app_def service_status_def get_status_def exception_response_def Let_def split: option.split)
  show "job \<in> job_ids (wo_db w) \<longleftrightarrow> (case get_status job (wo_db w) of Inr st \<Rightarrow> True | Inl e \<Rightarrow> False)"
    using find_job_None_iff [of "wo_db w" job] by (auto simp: get_status_def Let_def split: option.split)
  show "\<exists>pieces err. call_app ap (DownloadOf job) w = (Inr (respond 200 (Streamed pieces err)), w) \<and>
      (if job \<in> job_ids (wo_db w) then pieces \<noteq> [] else pieces = [] \<and> err = Some (JobNotFoundError job))"
    using find_job_None_iff [of "wo_db w" job]
    by (auto simp: call_app_def stream_results_def get_job_def split: option.split prod.split)
qed

end
