(* ===== verification/Composition.thy ===== *)
theory Composition
  imports Ports
begin

text \<open>
  The composition root (\<open>app/composition.py\<close>), the cached singletons behind it
  (\<open>get_settings\<close>, \<open>get_engine\<close>, \<open>get_services\<close>), the client factory and the
  stand-alone worker process (\<open>workers/run_worker.py\<close>).

  The database engine's and the \<open>openai\<close> client's constructors are not the repository's: they
  are the arguments \<open>connect\<close> and \<open>make_client\<close>, which may raise.
\<close>

section \<open>Singletons\<close>

text \<open>
  \<open>global x; if x is None: x = build()\<close>, and \<open>lru_cache(maxsize=1)\<close> on a function
  without arguments: an exception leaves the cache empty.
\<close>

definition cached :: "exn + 'a \<Rightarrow> 'a option \<Rightarrow> (exn + 'a) \<times> 'a option" where
  "cached build c =
     (case c of
        Some x \<Rightarrow> (Inr x, c)
      | None \<Rightarrow> (case build of Inl e \<Rightarrow> (Inl e, None) | Inr x \<Rightarrow> (Inr x, Some x)))"

definition get_settings :: "exn + settings \<Rightarrow> settings option \<Rightarrow> (exn + settings) \<times> settings option" where
  "get_settings read_environment c = cached read_environment c"

definition get_engine :: "(string \<Rightarrow> exn + 'e) \<Rightarrow> settings \<Rightarrow> 'e option \<Rightarrow> (exn + 'e) \<times> 'e option" where
  "get_engine connect s c = cached (connect (database_url s)) c"

section \<open>\<open>build_services\<close>\<close>

record ('q, 'c) services =
  sv_settings :: settings
  sv_job_repo :: "'q job_repository"
  sv_queue :: "'q work_queue_repository"
  sv_storage :: backend
  sv_client :: 'c
  sv_engine :: "('q, 'c) batch_engine"
  sv_ingestor :: "'q batch_ingestor"
  sv_job_service :: "('q, 'c) job_service"

definition build_inference_client :: "(string \<Rightarrow> string \<Rightarrow> rat \<Rightarrow> exn + 'c) \<Rightarrow> settings \<Rightarrow> exn + 'c" where
  "build_inference_client make_client s = make_client (llm_base_url s) (llm_api_key s) (llm_timeout_seconds s)"

text \<open>The object graph, once the parts that can raise exist.\<close>

definition wire_services ::
  "settings \<Rightarrow> 'q job_repository \<Rightarrow> 'q work_queue_repository \<Rightarrow> backend \<Rightarrow> 'c \<Rightarrow> semaphore \<Rightarrow>
   ('q, 'c) services" where
  "wire_services s job_repo queue storage client limiter =
     (let retry = make_retry_policy (retry_base s) (retry_factor s) (retry_cap s) (retry_max_attempts s) None;
          validator = build_validation_pipeline s;
          ingestor = \<lparr>in_queue = queue, in_job_repo = job_repo, in_validator = validator, in_settings = s\<rparr>;
          engine = \<lparr>be_queue = queue, be_job_repo = job_repo, be_client = client, be_storage = storage,
                    be_retry = retry, be_limiter = limiter, be_settings = s\<rparr>;
          job_service = \<lparr>jv_job_repo = job_repo, jv_queue = queue, jv_ingestor = ingestor,
                         jv_engine = engine, jv_storage = storage, jv_settings = s\<rparr>
      in \<lparr>sv_settings = s, sv_job_repo = job_repo, sv_queue = queue, sv_storage = storage,
          sv_client = client, sv_engine = engine, sv_ingestor = ingestor, sv_job_service = job_service\<rparr>)"

text \<open>
  The services over PostgreSQL, with the database engine behind the repositories.
\<close>

definition build_services ::
  "(string \<Rightarrow> exn + 'e) \<Rightarrow> (string \<Rightarrow> string \<Rightarrow> rat \<Rightarrow> exn + 'c) \<Rightarrow> settings \<Rightarrow>
   'c option \<Rightarrow> 'e option \<Rightarrow> (exn + (database, 'c) services) \<times> 'e option" where
  "build_services connect make_client s client engine =
     (case get_engine connect s engine of
        (Inl e, engine') \<Rightarrow> (Inl e, engine')
      | (Inr eng, engine') \<Rightarrow>
          (case build_storage s of
             Inl e \<Rightarrow> Inl e
           | Inr be \<Rightarrow>
               (case (case client of Some c \<Rightarrow> Inr c | None \<Rightarrow> build_inference_client make_client s) of
                  Inl e \<Rightarrow> Inl e
                | Inr c \<Rightarrow>
                    (case make_limiter (max_concurrency s) of
                       Inl e \<Rightarrow> Inl e
                     | Inr limiter \<Rightarrow>
                         Inr (wire_services s pg_jobs pg_queue be c limiter))), engine'))"

definition get_services ::
  "(string \<Rightarrow> exn + 'e) \<Rightarrow> (string \<Rightarrow> string \<Rightarrow> rat \<Rightarrow> exn + 'c) \<Rightarrow> settings \<Rightarrow>
   'e option \<Rightarrow> (database, 'c) services option \<Rightarrow>
   (exn + (database, 'c) services) \<times> (database, 'c) services option" where
  "get_services connect make_client s engine c =
     cached (fst (build_services connect make_client s None engine)) c"

lemma cached_once: "cached build c = (Inr x, c') \<Longrightarrow> cached build' c' = (Inr x, c')"
  by (auto simp: cached_def split: option.splits sum.splits)

text \<open>
  Every component holds the same queue, repository, storage and settings, and the workers the engine
  makes share its one limiter.
\<close>

lemma wire_services_shares:
  assumes "sv = wire_services s jr q st c limiter"
  shows "jv_engine (sv_job_service sv) = sv_engine sv" "jv_ingestor (sv_job_service sv) = sv_ingestor sv"
    and "in_queue (sv_ingestor sv) = q" "be_queue (sv_engine sv) = q" "jv_queue (sv_job_service sv) = q"
    and "list_all (\<lambda>w. wk_queue w = q \<and> wk_storage w = storage_of dump load st \<and> wk_limiter w = limiter \<and> wk_settings w = s)
      (engine_workers dump load (sv_engine sv) host pid hex)"
  by (simp_all add: assms wire_services_def Let_def engine_workers_def list_all_iff)

text \<open>
  The service starts exactly under settings that can work: given a database engine and a
  client, the services exist if and only if the storage backend is \<open>local\<close> or \<open>s3\<close> in
  any case and \<open>max_concurrency\<close> is at least 1; the limiter then has that many free permits,
  and the policy and the rules are the settings'.
\<close>

lemma services_exist_iff:
  "case build_services connect make_client s (Some c) (Some eng) of
     (Inr sv, engine') \<Rightarrow>
       map to_lower_char (storage_backend s) \<in> {''local'', ''s3''} \<and> 1 \<le> max_concurrency s \<and>
       engine' = Some eng \<and> build_storage s = Inr (sv_storage sv) \<and>
       int (sem_value (be_limiter (sv_engine sv))) = max_concurrency s \<and>
       \<not> sem_locked (be_limiter (sv_engine sv)) \<and>
       rp_max_attempts (be_retry (sv_engine sv)) = retry_max_attempts s \<and>
       rp_retryable_status (be_retry (sv_engine sv)) = default_retryable_status \<and>
       in_validator (sv_ingestor sv) = build_validation_pipeline s
   | (Inl e, engine') \<Rightarrow>
       (case e of ValueError msg \<Rightarrow> True | _ \<Rightarrow> False) \<and> engine' = Some eng \<and>
       \<not> (map to_lower_char (storage_backend s) \<in> {''local'', ''s3''} \<and> 1 \<le> max_concurrency s)"
  by (simp add: build_services_def get_engine_def cached_def build_storage_def make_limiter_def
      make_retry_policy_def sem_locked_def wire_services_def Let_def)

section \<open>The worker process\<close>

text \<open>
  \<open>main(job_id)\<close>: what it ends with (\<open>None\<close> while the pool runs), whether the client was
  closed, and the tables and files it leaves.
\<close>

definition worker_main ::
  "(string \<Rightarrow> exn + 'e) \<Rightarrow> (string \<Rightarrow> string \<Rightarrow> rat \<Rightarrow> exn + 'c) \<Rightarrow> settings \<Rightarrow> dumper \<Rightarrow> string \<Rightarrow> nat \<Rightarrow>
   (nat \<Rightarrow> string) \<Rightarrow> action list \<Rightarrow> uuid \<Rightarrow> database \<Rightarrow> chunk_store \<Rightarrow> time \<Rightarrow>
   (exn + unit) option \<times> bool \<times> database \<times> chunk_store" where
  "worker_main connect make_client s dump host pid hex sched job db store now =
     (case build_services connect make_client s None None of
        (Inl e, _) \<Rightarrow> (Some (Inl e), False, db, store)
      | (Inr sv, _) \<Rightarrow>
          (case engine_run s (be_retry (sv_engine sv)) dump (be_storage (sv_engine sv)) host pid hex sched job db store now of
             (r, p) \<Rightarrow> (r, r \<noteq> None, po_db p, po_store p)))"

text \<open>
  A job id that names no job is no error: the workers find nothing, the state change meets no row,
  and the process ends normally, having changed nothing.
\<close>

lemma worker_main_unknown_job:
  assumes "db_wf db" and job: "job \<notin> job_ids db"
    and "connect (database_url s) = Inr eng" and "build_inference_client make_client s = Inr c"
    and "build_storage s = Inr be" and "1 \<le> max_concurrency s"
  shows "worker_main connect make_client s dump host pid hex
    (map Claim [0..<nat (worker_pool_size s)]) job db store now = (Some (Inr ()), True, db, store)"
proof -
  obtain sv where sv: "build_services connect make_client s None None = (Inr sv, Some eng)"
      "be_storage (sv_engine sv) = be"
    using assms(3-6)
    by (simp add: build_services_def get_engine_def cached_def make_limiter_def wire_services_def Let_def)
  have "i_job_id r \<noteq> job" if "r \<in> set (items db)" for r
    using assms(1) job that by (auto simp: db_wf_def)
  then have "all_leased job now db" by (auto simp: all_leased_def)
  from engine_run_nothing_claimable [OF assms(1) this] obtain p where
    run: "engine_run s (be_retry (sv_engine sv)) dump be host pid hex (map Claim [0..<nat (worker_pool_size s)]) job db store now
      = (Some (Inr ()), p)"
    and p: "po_db p = update_job job (\<lambda>r. r\<lparr>j_state := J_COMPLETED, j_error := None, j_updated_at := now\<rparr>) db"
      "po_store p = store" by blast
  have "sql_update (\<lambda>r. j_id r = job) f (jobs db) = jobs db" for f
    using job by (intro sql_update_none) (auto simp: job_ids_def)
  then have "po_db p = db" by (simp add: p update_job_def)
  with sv run p(2) show ?thesis by (simp add: worker_main_def)
qed

text \<open>
  The command line: the exit code 2 without exactly one argument, the exception of \<open>UUID\<close> or of
  \<open>main\<close>, or 0. \<open>None\<close>: \<open>main\<close> has not returned.
\<close>

definition worker_process ::
  "(string \<Rightarrow> exn + uuid) \<Rightarrow> (uuid \<Rightarrow> (exn + unit) option) \<Rightarrow> string list \<Rightarrow> (exn + nat) option" where
  "worker_process parse_uuid run_main argv =
     (if length argv \<noteq> 2 then Some (Inr 2)
      else (case parse_uuid (argv ! 1) of
              Inl e \<Rightarrow> Some (Inl e)
            | Inr job \<Rightarrow> map_option (map_sum (\<lambda>e. e) (\<lambda>_. 0)) (run_main job)))"

text \<open>So the process of an unknown job exits with 0, as that of a finished one does.\<close>

lemma worker_process_unknown_job:
  assumes "db_wf db" and "job \<notin> job_ids db"
    and "connect (database_url s) = Inr eng" and "build_inference_client make_client s = Inr c"
    and "build_storage s = Inr be" and "1 \<le> max_concurrency s" and "parse_uuid arg = Inr job"
  shows "worker_process parse_uuid (\<lambda>j. fst (worker_main connect make_client s dump host pid hex
      (map Claim [0..<nat (worker_pool_size s)]) j db store now)) [prog, arg] = Some (Inr 0)"
  using assms(7) worker_main_unknown_job [where connect = connect and make_client = make_client, OF assms(1-6)]
  by (simp add: worker_process_def)

end
