(* ===== verification/IngestClean.thy ===== *)
theory IngestClean
  imports IngestProps
begin

text \<open>
  Ingestion of a clean file returns: objects with a text id and a text prompt that PostgreSQL can
  store, that pass the rules, under different ids.
\<close>

definition item_obj :: "prompt_item \<Rightarrow> input_obj" where
  "item_obj it = Obj [(''id'', JText (pi_external_id it)), (''prompt'', JText (pi_prompt it))]"

definition item_clean :: "settings \<Rightarrow> prompt_item \<Rightarrow> bool" where
  "item_clean s it \<longleftrightarrow> item_ok s it [] \<and> text_ok (pi_external_id it) \<and> text_ok (pi_prompt it)"

lemma item_clean_id: "item_clean s it \<Longrightarrow> pi_external_id it \<noteq> []"
  by (auto simp: item_clean_def item_ok_def)

lemma item_clean_row: "item_clean s it \<Longrightarrow> new_row_ok (pending_row it)"
  by (simp add: item_clean_def new_row_ok_def pending_row_def)

lemma item_clean_ok: "item_clean s it \<Longrightarrow> pi_external_id it \<notin> set ctx \<Longrightarrow> item_ok s it ctx"
  by (simp add: item_clean_def item_ok_def)

lemma to_item_obj: "pi_external_id it \<noteq> [] \<Longrightarrow> to_item (item_obj it) n = (Some it, pi_external_id it)"
  by (simp add: item_obj_def Let_def)

text \<open>The loop over a clean file: nothing rejected, only new ids seen, every buffered row storable.\<close>

definition clean_state :: "settings \<Rightarrow> uuid \<Rightarrow> string set \<Rightarrow> ingest_state \<Rightarrow> bool" where
  "clean_state s job ids st \<longleftrightarrow> ig_failed st = [] \<and> ig_rejected st = 0 \<and> ig_accepted st = ig_total st \<and>
     set (ig_seen st) \<subseteq> ids \<and> list_all (item_clean s) (ig_items st) \<and> job \<in> job_ids (ig_db st)"

lemma validate_item_seen_subset:
  "set (fst (validate_item (build_validation_pipeline s) it ctx)) \<subseteq> insert (pi_external_id it) (set ctx)"
  by (cases "reject_duplicate_ids s") (auto simp: validate_item_seen validate_item_seen_off)

lemma take_row_clean:
  assumes st: "clean_state s job ids st" and it: "item_clean s it" and new: "pi_external_id it \<notin> ids"
  shows "clean_state s job (insert (pi_external_id it) ids) (take_row s (item_obj it) st)"
proof -
  obtain seen oc where v: "validate_item (build_validation_pipeline s) it (ig_seen st) = (seen, oc)" by fastforce
  have "pi_external_id it \<notin> set (ig_seen st)" using st new by (auto simp: clean_state_def)
  then have "oc_ok oc"
    using validate_item_ok_iff [of s it "ig_seen st"] item_clean_ok [OF it] by (simp add: v)
  moreover have "set seen \<subseteq> insert (pi_external_id it) ids"
    using validate_item_seen_subset [of s it "ig_seen st"] st by (auto simp: v clean_state_def)
  ultimately show ?thesis
    using st it by (simp add: take_row_def Let_def to_item_obj item_clean_id v clean_state_def)
qed

lemma flush_clean:
  assumes st: "clean_state s job ids st"
  shows "\<exists>st'. flush job now st = (None, st') \<and> clean_state s job ids st'"
proof -
  have rows: "list_all new_row_ok (map pending_row (ig_items st))"
    using st item_clean_row by (auto simp: clean_state_def list_all_iff)
  from st have none: "ig_failed st = []" and job: "job \<in> job_ids (ig_db st)" by (simp_all add: clean_state_def)
  obtain db' n where ins: "bulk_insert job (ig_items st) [] now (ig_db st) = Inr (db', n)"
  proof (cases "ig_items st")
    case Nil
    with that show thesis by (simp add: bulk_insert_def)
  next
    case (Cons it its)
    with rows job that [of "fst (insert_rows job now (map pending_row (ig_items st)) (ig_db st))"
        "snd (insert_rows job now (map pending_row (ig_items st)) (ig_db st))"]
    show thesis by (simp add: bulk_insert_def Let_def del: insert_rows.simps)
  qed
  then have "job_ids db' = job_ids (ig_db st)"
    using bulk_insert_Inr_rows by (metis frame_simps(2) insert_rows_frame(2))
  with ins st show ?thesis by (auto simp: flush_def none clean_state_def)
qed

lemma ingest_rows_clean:
  assumes "clean_state s job ids st" and "list_all (item_clean s) its"
    and "distinct (map pi_external_id its)" and "ids \<inter> set (map pi_external_id its) = {}"
  shows "\<exists>st' ids'. ingest_rows s job clock (map item_obj its) st = (None, st') \<and> clean_state s job ids' st'"
  using assms
proof (induction its arbitrary: st ids)
  case Nil
  then show ?case by auto
next
  case (Cons it its)
  let ?ids = "insert (pi_external_id it) ids"
  have taken: "clean_state s job ?ids (take_row s (item_obj it) st)"
    using Cons.prems by (intro take_row_clean) auto
  obtain st2 where "flush job (clock (ig_total (take_row s (item_obj it) st))) (take_row s (item_obj it) st) = (None, st2)"
    "clean_state s job ?ids st2" using flush_clean [OF taken] by blast
  with taken have "\<exists>st1. ingest_row s job clock (item_obj it) st = (None, st1) \<and> clean_state s job ?ids st1"
    by (simp add: ingest_row_def Let_def)
  then obtain st1 where "ingest_row s job clock (item_obj it) st = (None, st1)" and "clean_state s job ?ids st1"
    by blast
  moreover have "?ids \<inter> set (map pi_external_id its) = {}" using Cons.prems by auto
  ultimately show ?case using Cons.IH [of ?ids st1] Cons.prems(2,3) by simp
qed

lemma clean_file_ingests:
  assumes "list_all (item_clean s) its" and "distinct (map pi_external_id its)"
    and "job \<in> job_ids db" and "length its < int4_limit"
  shows "\<exists>db'. ingest s job clock (Inr (map item_obj its, None)) db =
    (Inr \<lparr>su_total = length its, su_accepted = length its, su_rejected = 0\<rparr>, db')"
proof -
  have "clean_state s job {} (ingest_start db)" using assms(3) by (simp add: clean_state_def) (simp add: ingest_start_def)
  from ingest_rows_clean [OF this assms(1,2), of clock] obtain st ids where
    rows: "ingest_rows s job clock (map item_obj its) (ingest_start db) = (None, st)" and st: "clean_state s job ids st"
    by auto
  from flush_clean [OF st] obtain st' where fl: "flush job (clock (ig_total st)) st = (None, st')"
    and st': "clean_state s job ids st'" by blast
  have "ig_total st' = length its" using ingest_rows_total [OF rows] flush_counts(1) [OF fl] by simp
  with rows fl st' assms(4) show ?thesis by (simp add: ingest_def set_total_def clean_state_def)
qed

text \<open>
  C24: A clean file is ingested whole: if every object has a text id and a text prompt that pass the
  rules and hold no NUL, the ids differ and there are fewer objects than a PostgreSQL
  \<open>integer\<close> counts, then ingestion returns, accepts every object and rejects none, however
  many batches it takes.
\<close>

theorem clean_file_is_ingested:
  assumes "\<And>it. it \<in> set its \<Longrightarrow> text_ok (pi_external_id it) \<and> text_ok (pi_prompt it) \<and>
      py_strip (pi_external_id it) \<noteq> [] \<and> min_prompt_chars s \<le> int (length (py_strip (pi_prompt it))) \<and>
      int (length (pi_prompt it) div 4) \<le> max_prompt_tokens s"
    and "distinct (map pi_external_id its)" and "job \<in> job_ids db" and "length its < 2 ^ 31"
  shows "\<exists>db'. ingest s job clock (Inr (map item_obj its, None)) db =
    (Inr \<lparr>su_total = length its, su_accepted = length its, su_rejected = 0\<rparr>, db')"
proof -
  have "list_all (item_clean s) its" using assms(1) by (auto simp: list_all_iff item_clean_def item_ok_def)
  then show ?thesis using assms(2-4) by (intro clean_file_ingests) (simp_all add: int4_limit_def)
qed

definition demo_items :: "prompt_item list" where
  "demo_items = [\<lparr>pi_external_id = ''a'', pi_prompt = ''one''\<rparr>, \<lparr>pi_external_id = ''b'', pi_prompt = ''two''\<rparr>]"

theorem clean_file_is_ingested_witness:
  "\<exists>db'. ingest default_settings ''j'' (\<lambda>n. 0) (Inr (map item_obj demo_items, None)) demo_job_db =
     (Inr \<lparr>su_total = 2, su_accepted = 2, su_rejected = 0\<rparr>, db')"
proof -
  have "list_all (item_clean default_settings) demo_items" by code_simp
  then have "it \<in> set demo_items \<Longrightarrow> text_ok (pi_external_id it) \<and> text_ok (pi_prompt it) \<and>
      py_strip (pi_external_id it) \<noteq> [] \<and>
      min_prompt_chars default_settings \<le> int (length (py_strip (pi_prompt it))) \<and>
      int (length (pi_prompt it) div 4) \<le> max_prompt_tokens default_settings" for it
    by (simp add: list_all_iff item_clean_def item_ok_def)
  moreover have "''j'' \<in> job_ids demo_job_db" by (simp add: demo_job_db_def demo_db_def job_ids_def)
  moreover have "distinct (map pi_external_id demo_items)" "length demo_items = 2"
    by (simp_all add: demo_items_def)
  ultimately show ?thesis using clean_file_is_ingested [of demo_items default_settings "''j''" demo_job_db] by simp
qed

end
