(* ===== verification/SampleBatch.thy ===== *)
theory SampleBatch
  imports IngestClean JobService
begin

text \<open>
  The sample generator \<open>scripts/generate_sample_batch.py\<close>, and that the ingestor accepts
  all of what it generates. \<open>json.dumps\<close> and \<open>ijson\<close> are not modelled: the objects
  written are the objects read.
\<close>

definition templates :: "string list" where
  "templates = [
    ''Explain {topic} in one sentence.'',
    ''Summarize the key idea behind {topic}.'',
    ''Give three bullet points about {topic}.'',
    ''What is a common misconception about {topic}?'',
    ''Write a short tip for someone learning {topic}.'',
    ''Translate the word '' @ [CHR 0x27] @ ''{topic}'' @ [CHR 0x27] @ '' into French.'',
    ''Provide a simple analogy for {topic}.'',
    ''List two pros and two cons of {topic}.'']"

definition topics :: "string list" where
  "topics = [
    ''photosynthesis'', ''recursion'', ''the water cycle'', ''compound interest'',
    ''machine learning'', ''the French Revolution'', ''black holes'', ''REST APIs'',
    ''supply and demand'', ''DNA replication'', ''the internet'', ''vaccines'',
    ''quantum computing'', ''climate change'', ''blockchain'', ''the stock market'',
    ''neural networks'', ''gravity'', ''evolution'', ''encryption'']"

text \<open>\<open>template.format(topic=topic)\<close>.\<close>

fun format_topic :: "string \<Rightarrow> string \<Rightarrow> string" where
  "format_topic topic [] = []"
| "format_topic topic (c # cs) =
     (if take 7 (c # cs) = ''{topic}'' then topic @ format_topic topic (drop 6 cs)
      else c # format_topic topic cs)"

text \<open>\<open>f"{i:04d}"\<close>.\<close>

definition pad4 :: "nat \<Rightarrow> string" where
  "pad4 i = replicate (4 - length (nat_str i)) (CHR ''0'') @ nat_str i"

definition sample_prompt :: "nat \<Rightarrow> string" where
  "sample_prompt i =
     format_topic (topics ! (i mod length topics)) (templates ! (i mod length templates))"

definition generate :: "int \<Rightarrow> prompt_item list" where
  "generate n =
     map (\<lambda>i. \<lparr>pi_external_id = ''prompt-'' @ pad4 i, pi_prompt = sample_prompt i\<rparr>) [1..<nat (n + 1)]"

text \<open>
  \<open>main\<close>: the exit code, the file written and the items in it; \<open>parse_int\<close> is Python's
  \<open>int\<close> on the first argument.
\<close>

definition sample_main :: "(string \<Rightarrow> exn + int) \<Rightarrow> string list \<Rightarrow> exn + nat \<times> string \<times> prompt_item list" where
  "sample_main parse_int argv =
     (case (if 1 < length argv then parse_int (argv ! 1) else Inr 1000) of
        Inl e \<Rightarrow> Inl e
      | Inr n \<Rightarrow>
          Inr (0, if 2 < length argv then path_str (argv ! 2) else ''sample_batch.json'', generate n))"

section \<open>Ids\<close>

definition dec_val :: "string \<Rightarrow> nat" where
  "dec_val s = foldl (\<lambda>a c. 10 * a + (of_char c - 48)) 0 s"

lemma dec_val_append_digit: "d < 10 \<Longrightarrow> dec_val (s @ [digit_char d]) = 10 * dec_val s + d"
  by (simp add: dec_val_def digit_char_def)

lemma dec_val_nat_str: "dec_val (nat_str n) = n"
proof (induction n rule: nat_str.induct)
  case (1 n)
  show ?case
  proof (cases "n < 10")
    case True
    then show ?thesis
      using dec_val_append_digit [of n "[]"] by (subst nat_str.simps) (simp add: dec_val_def)
  next
    case False
    with 1 show ?thesis by (subst nat_str.simps) (simp add: dec_val_append_digit)
  qed
qed

lemma dec_val_zeros: "dec_val (replicate k (CHR ''0'') @ s) = dec_val s"
  by (induction k) (simp_all add: dec_val_def)

lemma pad4_inject: "pad4 i = pad4 j \<longleftrightarrow> i = j"
  by (metis dec_val_nat_str dec_val_zeros pad4_def)

lemma digit_char_text: "d < 10 \<Longrightarrow> digit_char d \<noteq> CHR 0x00"
proof
  assume "d < 10" and "digit_char d = CHR 0x00"
  then have "(of_char (digit_char d) :: nat) = of_char (CHR 0x00)" by simp
  with \<open>d < 10\<close> show False by (simp add: digit_char_def)
qed

lemma nat_str_text: "text_ok (nat_str n)"
  unfolding text_ok_def
proof (induction n rule: nat_str.induct)
  case (1 n)
  then show ?case using digit_char_text [of "n mod 10"] digit_char_text [of n] by (subst nat_str.simps) auto
qed

lemma pad4_text: "text_ok (pad4 i)"
  using nat_str_text [of i] by (auto simp: text_ok_def pad4_def)

section \<open>Prompts\<close>

lemma format_topic_set: "set (format_topic topic t) \<subseteq> set topic \<union> set t"
proof (induction topic t rule: format_topic.induct)
  case (2 topic c cs)
  then show ?case using set_drop_subset [of 6 cs] by auto
qed simp

lemma format_topic_length: "length (format_topic topic t) \<le> length t * (1 + length topic)"
proof (induction topic t rule: format_topic.induct)
  case (2 topic c cs)
  show ?case
  proof (cases "take 7 (c # cs) = ''{topic}''")
    case True
    have "length (drop 6 cs) * (1 + length topic) \<le> length cs * (1 + length topic)"
      by (rule mult_right_mono) simp_all
    with 2 True show ?thesis by simp
  next
    case False
    with 2(2) [OF False] show ?thesis by (simp only: format_topic.simps if_False) simp
  qed
qed simp

lemma format_topic_first: "c \<noteq> CHR ''{'' \<Longrightarrow> format_topic topic (c # cs) = c # format_topic topic cs"
  by simp

lemma templates_ok:
  "list_all (\<lambda>t. CHR 0x00 \<notin> set t \<and> length t \<le> 50 \<and>
     (case t of [] \<Rightarrow> False | c # _ \<Rightarrow> c \<noteq> CHR ''{'' \<and> \<not> is_space c)) templates"
  by code_simp

lemma topics_ok: "list_all (\<lambda>t. CHR 0x00 \<notin> set t \<and> length t \<le> 30) topics"
  by code_simp

lemma sample_prompt_ok:
  "text_ok (sample_prompt i)" "length (sample_prompt i) \<le> 2000" "py_strip (sample_prompt i) \<noteq> []"
proof -
  let ?topic = "topics ! (i mod length topics)" and ?t = "templates ! (i mod length templates)"
  have "0 < length topics" "0 < length templates" by (simp_all add: topics_def templates_def)
  then have "?topic \<in> set topics" "?t \<in> set templates" by (simp_all only: nth_mem mod_less_divisor)
  with topics_ok templates_ok have topic: "CHR 0x00 \<notin> set ?topic" "length ?topic \<le> 30"
    and t: "CHR 0x00 \<notin> set ?t" "length ?t \<le> 50"
    and first: "case ?t of [] \<Rightarrow> False | c # _ \<Rightarrow> c \<noteq> CHR ''{'' \<and> \<not> is_space c"
    unfolding list_all_iff by blast+
  show "text_ok (sample_prompt i)"
    using format_topic_set [of ?topic ?t] topic(1) t(1) by (auto simp: text_ok_def sample_prompt_def)
  have "length ?t * (1 + length ?topic) \<le> 50 * 31" using topic(2) t(2) by (intro mult_mono) simp_all
  then show "length (sample_prompt i) \<le> 2000"
    using format_topic_length [of ?topic ?t] by (simp add: sample_prompt_def)
  from first obtain c cs where c: "?t = c # cs" "c \<noteq> CHR ''{''" "\<not> is_space c" by (cases ?t) auto
  then have "sample_prompt i = c # format_topic ?topic cs"
    using format_topic_first by (simp add: sample_prompt_def)
  with c(3) show "py_strip (sample_prompt i) \<noteq> []" by (simp add: py_strip_def dropWhile_eq_Nil_conv)
qed

section \<open>Property\<close>

lemma generate_clean:
  "it \<in> set (generate n) \<Longrightarrow> text_ok (pi_external_id it) \<and> text_ok (pi_prompt it) \<and>
     py_strip (pi_external_id it) \<noteq> [] \<and>
     min_prompt_chars default_settings \<le> int (length (py_strip (pi_prompt it))) \<and>
     int (length (pi_prompt it) div 4) \<le> max_prompt_tokens default_settings"
proof -
  assume "it \<in> set (generate n)"
  then obtain i where it: "it = \<lparr>pi_external_id = ''prompt-'' @ pad4 i, pi_prompt = sample_prompt i\<rparr>"
    by (auto simp: generate_def)
  have "py_strip (''prompt-'' @ pad4 i) \<noteq> []" by (simp add: py_strip_def is_space_def dropWhile_eq_Nil_conv)
  moreover have "text_ok (''prompt-'' @ pad4 i)" using pad4_text [of i] by (simp add: text_ok_def)
  moreover have "Suc 0 \<le> length (py_strip (sample_prompt i))" using sample_prompt_ok(3) [of i] by (simp add: Suc_le_eq)
  moreover have "length (sample_prompt i) div 4 \<le> 120000" using sample_prompt_ok(2) [of i] by linarith
  ultimately show ?thesis
    using sample_prompt_ok(1) [of i] by (simp add: it default_settings_def)
qed

lemma generate_ids: "distinct (map pi_external_id (generate n))"
  by (auto simp: generate_def distinct_map inj_on_def pad4_inject)

text \<open>
  The sample batch is a valid input of any size: under the default settings and for a job
  that exists, ingestion accepts every one of its \<open>count\<close> items and rejects none.
\<close>

lemma sample_batch_is_accepted:
  assumes "job \<in> job_ids db" and "0 \<le> n" and "n < 2 ^ 31"
  shows "\<exists>db'. ingest default_settings job clock (Inr (map item_obj (generate n), None)) db =
    (Inr \<lparr>su_total = nat n, su_accepted = nat n, su_rejected = 0\<rparr>, db')"
proof -
  have len: "length (generate n) = nat n" using assms(2) by (simp add: generate_def nat_add_distrib)
  have "list_all (item_clean default_settings) (generate n)"
    using generate_clean by (auto simp: list_all_iff item_clean_def item_ok_def)
  from clean_file_ingests [OF this generate_ids assms(1), of clock] show ?thesis
    using assms(3) by (simp add: len int4_limit_def nat_less_iff assms(2))
qed

lemma sample_batch_is_accepted_example:
  "\<exists>db'. ingest default_settings ''j'' (\<lambda>n. 0) (Inr (map item_obj (generate 1000), None)) demo_job_db =
    (Inr \<lparr>su_total = 1000, su_accepted = 1000, su_rejected = 0\<rparr>, db')"
proof -
  have "''j'' \<in> job_ids demo_job_db" by (simp add: demo_job_db_def demo_db_def job_ids_def)
  from sample_batch_is_accepted [OF this, of 1000] show ?thesis by simp
qed

text \<open>Without arguments the script writes a thousand items, all of which ingestion accepts.\<close>

lemma sample_main_default:
  "\<exists>its db'. sample_main parse_int [prog] = Inr (0, ''sample_batch.json'', its) \<and>
     ingest default_settings ''j'' (\<lambda>n. 0) (Inr (map item_obj its, None)) demo_job_db =
       (Inr \<lparr>su_total = 1000, su_accepted = 1000, su_rejected = 0\<rparr>, db')"
  using sample_batch_is_accepted_example by (simp add: sample_main_def)

end
