(* ===== verification/Tools.thy ===== *)
theory Tools
  imports RequestProps
begin

text \<open>
  The scripts around the service: the manual drivers \<open>scripts/smoke_e2e.py\<close> and
  \<open>scripts/run_live.py\<close>, which submit a job, poll its status and read its results, and the
  fallback chain of \<open>scripts/render_diagrams.py\<close>. What the service answers to the poll
  number \<open>i\<close>, and what the web services answer, are arguments.
\<close>

section \<open>Polling\<close>

definition job_done :: "job_status \<Rightarrow> bool" where
  "job_done st \<longleftrightarrow> js_state st = J_COMPLETED \<or> js_state st = J_FAILED"

text \<open>The statuses printed, and the exception that ends the loop, if any.\<close>

fun poll_loop :: "(nat \<Rightarrow> exn + job_status) \<Rightarrow> nat \<Rightarrow> nat \<Rightarrow> job_status list \<times> exn option" where
  "poll_loop get_status_at i 0 = ([], None)"
| "poll_loop get_status_at i (Suc left) =
     (case get_status_at i of
        Inl e \<Rightarrow> ([], Some e)
      | Inr st \<Rightarrow>
          if job_done st then ([st], None)
          else (case poll_loop get_status_at (Suc i) left of (sts, e) \<Rightarrow> (st # sts, e)))"

definition max_polls :: nat where
  "max_polls = 120"

text \<open>
  \<open>main\<close> after the submission: the exit code, and the results read. An exception leaves
  \<open>main\<close>.
\<close>

definition smoke_main ::
  "loader \<Rightarrow> backend \<Rightarrow> (nat \<Rightarrow> exn + job_status) \<Rightarrow> uuid \<Rightarrow> chunk_store \<Rightarrow> exn + nat \<times> result_record list" where
  "smoke_main load be get_status_at job store =
     (case poll_loop get_status_at 0 max_polls of
        (_, Some e) \<Rightarrow> Inl e
      | (_, None) \<Rightarrow>
          (case backend_iter load be job store of
             (_, Some e) \<Rightarrow> Inl e
           | (results, None) \<Rightarrow> Inr (0, results)))"

text \<open>The line printed per poll, and the file the first argument names.\<close>

definition poll_line :: "job_status \<Rightarrow> string" where
  "poll_line st = ''  state='' @ job_state_value (js_state st) @ '' total='' @ nat_str (js_total st) @
     '' pending='' @ nat_str (js_pending st) @ '' in_progress='' @ nat_str (js_in_progress st) @
     '' succeeded='' @ nat_str (js_succeeded st) @ '' failed='' @ nat_str (js_failed st)"

definition driver_path :: "string list \<Rightarrow> string" where
  "driver_path argv = (if 1 < length argv then argv ! 1 else ''sample_batch.json'')"

text \<open>\<open>SubmitJobRequest(input_path=...)\<close> and the client of the smoke test.\<close>

definition driver_request :: "string list \<Rightarrow> submit_request" where
  "driver_request argv = \<lparr>sr_input_path = driver_path argv, sr_model = None, sr_config = []\<rparr>"

definition smoke_client :: mock_client where
  "smoke_client = make_mock (Some ''DNA'') 1 0"

text \<open>The whole of \<open>main\<close>: a refused submission leaves it before anything is polled.\<close>

definition smoke_run ::
  "settings \<Rightarrow> filesystem \<Rightarrow> uuid \<Rightarrow> time \<Rightarrow> string list \<Rightarrow> loader \<Rightarrow> backend \<Rightarrow>
   (nat \<Rightarrow> exn + job_status) \<Rightarrow> chunk_store \<Rightarrow> database \<Rightarrow> exn + nat \<times> result_record list" where
  "smoke_run s fs new_id now argv load be get_status_at store db =
     (case submit s fs new_id now (driver_request argv) db of
        (Inl e, _, _) \<Rightarrow> Inl e
      | (Inr job, _, _) \<Rightarrow> smoke_main load be get_status_at job store)"

text \<open>The lines \<open>run_live.py\<close> prints for the results; \<open>repr\<close> is Python's.\<close>

definition live_line :: "(string option \<Rightarrow> string) \<Rightarrow> result_record \<Rightarrow> string" where
  "live_line repr r =
     (if rr_status r = I_SUCCEEDED
      then ''['' @ rr_external_id r @ ''] OK ('' @
        (case rr_latency_ms r of None \<Rightarrow> ''None'' | Some n \<Rightarrow> nat_str n) @ ''ms): '' @ repr (rr_response r)
      else ''['' @ rr_external_id r @ ''] FAILED: '' @
        (case rr_error r of None \<Rightarrow> ''None'' | Some e \<Rightarrow> e))"

text \<open>
  The summary \<open>smoke_e2e.py\<close> prints of the results; \<open>dump\<close> is the text of \<open>model_dump()\<close>.
\<close>

definition smoke_report :: "(result_record \<Rightarrow> string) \<Rightarrow> result_record list \<Rightarrow> string list" where
  "smoke_report dump results =
     (let failures = filter (\<lambda>r. item_status_value (rr_status r) = ''FAILED'') results
      in [''downloaded '' @ nat_str (length results) @ '' results''] @
         map (\<lambda>r. ''   '' @ dump r) (take 3 results) @
         [''isolated failures: '' @ nat_str (length failures)] @
         (if failures = [] then [] else [''  example failure: '' @ dump (hd failures)]))"

text \<open>However many results, at most six lines; the failures counted are those with status \<open>FAILED\<close>.\<close>

lemma smoke_report_lines:
  "length (smoke_report dump results) \<le> 6"
  "''isolated failures: '' @ nat_str (length (filter (\<lambda>r. rr_status r = I_FAILED) results))
     \<in> set (smoke_report dump results)"
proof -
  have "(item_status_value st = ''FAILED'') = (st = I_FAILED)" for st by (cases st) simp_all
  then show "length (smoke_report dump results) \<le> 6"
    and "''isolated failures: '' @ nat_str (length (filter (\<lambda>r. rr_status r = I_FAILED) results))
      \<in> set (smoke_report dump results)"
    by (auto simp: smoke_report_def Let_def min_def)
qed

text \<open>\<open>run_live.py\<close> after the submission: the exit code and the lines printed.\<close>

definition live_main ::
  "(string option \<Rightarrow> string) \<Rightarrow> loader \<Rightarrow> backend \<Rightarrow> (nat \<Rightarrow> exn + job_status) \<Rightarrow> uuid \<Rightarrow> chunk_store \<Rightarrow>
   exn + nat \<times> string list" where
  "live_main repr load be get_status_at job store =
     (case poll_loop get_status_at 0 max_polls of
        (_, Some e) \<Rightarrow> Inl e
      | (sts, None) \<Rightarrow>
          (case backend_iter load be job store of
             (_, Some e) \<Rightarrow> Inl e
           | (results, None) \<Rightarrow>
               Inr (0, map poll_line sts @ [CHR 0x0A # ''=== RESULTS ===''] @ map (live_line repr) results)))"

lemma poll_loop_statuses:
  "poll_loop (\<lambda>i. Inr (sts i)) i n =
    (map sts [i..<(case find (\<lambda>k. job_done (sts k)) [i..<i + n] of Some k \<Rightarrow> Suc k | None \<Rightarrow> i + n)], None)"
proof (induction n arbitrary: i)
  case (Suc n)
  have "k \<in> set [Suc i..<Suc i + n]" if "find (\<lambda>k. job_done (sts k)) [Suc i..<Suc i + n] = Some k" for k
    using find_cong_key [OF that] by blast
  then have "Suc i \<le> k" if "find (\<lambda>k. job_done (sts k)) [Suc i..<Suc i + n] = Some k" for k
    using that by fastforce
  moreover have "[i..<i + Suc n] = i # [Suc i..<Suc i + n]" by (simp add: upt_conv_Cons)
  ultimately show ?case
    by (auto simp: Suc.IH upt_conv_Cons simp del: upt_Suc split: option.split)
qed simp

text \<open>
  The exit code says nothing about the job: it is 0 also when the job failed, and when it was still
  at work after the last poll.
\<close>

lemma smoke_exit_code:
  "backend_iter load be job store = (results, None) \<Longrightarrow>
   smoke_main load be (\<lambda>i. Inr (sts i)) job store = Inr (0, results)"
  by (simp add: smoke_main_def poll_loop_statuses)

text \<open>
  A submission whose job never moves is polled as often as the loop allows, and the driver still
  succeeds; a refused submission is its only failure here.
\<close>

lemma smoke_run_result:
  assumes "backend_iter load be new_id store = (results, None)"
  shows "smoke_run s fs new_id now argv load be (\<lambda>i. Inr (sts i)) store db =
    (if validate_submit s fs (driver_request argv) \<noteq> []
     then Inl (ValidationError (validate_submit s fs (driver_request argv)))
     else (case create_job (submitted_job s new_id (driver_request argv)) now db of
             Inl e \<Rightarrow> Inl e | Inr db' \<Rightarrow> Inr (0, results)))"
  by (simp add: smoke_run_def submit_def Let_def smoke_exit_code [OF assms] split: sum.split)

text \<open>The live driver prints one line per poll and one per result.\<close>

lemma live_main_lines:
  assumes "backend_iter load be job store = (results, None)"
  shows "\<exists>n \<le> max_polls. live_main repr load be (\<lambda>i. Inr (sts i)) job store =
    Inr (0, map (\<lambda>i. poll_line (sts i)) [0..<n] @ [CHR 0x0A # ''=== RESULTS ===''] @ map (live_line repr) results)"
proof -
  define n where "n = (case find (\<lambda>k. job_done (sts k)) [0..<max_polls] of Some k \<Rightarrow> Suc k | None \<Rightarrow> max_polls)"
  have "k < max_polls" if "find (\<lambda>k. job_done (sts k)) [0..<max_polls] = Some k" for k
    using find_cong_key [OF that] by simp
  then have "n \<le> max_polls" by (auto simp: n_def Suc_le_eq split: option.split)
  moreover have "poll_loop (\<lambda>i. Inr (sts i)) 0 max_polls = (map sts [0..<n], None)"
    unfolding poll_loop_statuses n_def add_0 ..
  ultimately show ?thesis
    using assms by (intro exI [of _ n]) (simp add: live_main_def o_def)
qed

section \<open>Rendering a diagram\<close>

record http_answer =
  ha_status :: nat
  ha_content :: string

definition png_magic :: string where
  "png_magic = [CHR 0x89, CHR ''P'', CHR ''N'', CHR ''G'', CHR 0x0D, CHR 0x0A, CHR 0x1A, CHR 0x0A]"

definition good_png :: "http_answer \<Rightarrow> bool" where
  "good_png a \<longleftrightarrow> ha_status a = 200 \<and> take 8 (ha_content a) = png_magic"

text \<open>
  \<open>render\<close>: the two Kroki requests, then mermaid.ink, where a status from 400 to 599 raises; an
  exception of the first two (a \<open>RequestException\<close>) leads to the last.
\<close>

definition render_ink :: "exn + http_answer \<Rightarrow> exn + string" where
  "render_ink ink =
     (case ink of
        Inl e \<Rightarrow> Inl e
      | Inr a \<Rightarrow> if 400 \<le> ha_status a \<and> ha_status a < 600 then Inl (LibraryError ''HTTPError'') else Inr (ha_content a))"

definition render_diagram :: "exn + http_answer \<Rightarrow> exn + http_answer \<Rightarrow> exn + http_answer \<Rightarrow> exn + string" where
  "render_diagram post get ink =
     (case post of
        Inl e \<Rightarrow> render_ink ink
      | Inr a \<Rightarrow>
          if good_png a then Inr (ha_content a)
          else (case get of
                  Inl e \<Rightarrow> render_ink ink
                | Inr b \<Rightarrow> if good_png b then Inr (ha_content b) else render_ink ink))"

text \<open>
  \<open>render\<close> on a source: \<open>compress\<close> is \<open>zlib.compress\<close> at level 9, \<open>b64\<close> the URL-safe base64
  text, \<open>web_post\<close> and \<open>web_get\<close> the two kinds of request.
\<close>

definition kroki_url :: "(string \<Rightarrow> string) \<Rightarrow> (string \<Rightarrow> string) \<Rightarrow> string \<Rightarrow> string" where
  "kroki_url compress b64 source = ''https://kroki.io/mermaid/png/'' @ b64 (compress source)"

definition mermaid_ink_url :: "(string \<Rightarrow> string) \<Rightarrow> string \<Rightarrow> string" where
  "mermaid_ink_url b64 source = ''https://mermaid.ink/img/'' @ b64 source @ ''?type=png''"

definition render_source ::
  "(string \<Rightarrow> string) \<Rightarrow> (string \<Rightarrow> string) \<Rightarrow> (string \<Rightarrow> string \<Rightarrow> exn + http_answer) \<Rightarrow>
   (string \<Rightarrow> exn + http_answer) \<Rightarrow> string \<Rightarrow> exn + string" where
  "render_source compress b64 web_post web_get source =
     render_diagram (web_post ''https://kroki.io/mermaid/png'' source) (web_get (kroki_url compress b64 source))
       (web_get (mermaid_ink_url b64 source))"

text \<open>What is returned is a PNG image, or whatever mermaid.ink sent with a status that is no error.\<close>

lemma render_diagram_result:
  "render_diagram post get ink = Inr content \<Longrightarrow>
   take 8 content = png_magic \<or> (\<exists>a. ink = Inr a \<and> content = ha_content a \<and> (ha_status a < 400 \<or> 600 \<le> ha_status a))"
  by (auto simp: render_diagram_def render_ink_def good_png_def not_less split: sum.splits if_splits)

text \<open>
  \<open>main\<close>: the \<open>.mmd\<close> files of the directory in the order of their names, each rendered and
  written under its stem. \<open>draw\<close> is \<open>render\<close> on a file's text, with the web services behind
  it. The exit code or the exception, and the files of the assets directory.
\<close>

definition is_diagram :: "string \<Rightarrow> bool" where
  "is_diagram name \<longleftrightarrow> 4 \<le> length name \<and> drop (length name - 4) name = ''.mmd''"

text \<open>\<open>src.stem + ".png"\<close>; a name that is all suffix has no suffix.\<close>

definition png_name :: "string \<Rightarrow> string" where
  "png_name name = (if name = ''.mmd'' then name else take (length name - 4) name) @ ''.png''"

fun render_files ::
  "(string \<Rightarrow> exn + string) \<Rightarrow> (string \<times> string) list \<Rightarrow> (string \<times> string) list \<Rightarrow>
   exn option \<times> (string \<times> string) list" where
  "render_files draw [] out = (None, out)"
| "render_files draw ((name, content) # sources) out =
     (case draw content of
        Inl e \<Rightarrow> (Some e, out)
      | Inr png \<Rightarrow> render_files draw sources (put_file (png_name name) png out))"

definition render_main ::
  "(string \<Rightarrow> exn + string) \<Rightarrow> (string \<times> string) list \<Rightarrow> (string \<times> string) list \<Rightarrow>
   (exn + nat) \<times> (string \<times> string) list" where
  "render_main draw directory out =
     (let sources = sort_key fst (filter (\<lambda>f. is_diagram (fst f)) directory)
      in if sources = [] then (Inr 1, out)
         else (case render_files draw sources out of
                 (Some e, out') \<Rightarrow> (Inl e, out')
               | (None, out') \<Rightarrow> (Inr 0, out')))"

lemma render_files_names:
  "render_files draw sources out = (None, out') \<Longrightarrow>
   fst ` set out' = fst ` set out \<union> (png_name \<circ> fst) ` set sources"
proof (induction sources arbitrary: out)
  case (Cons s sources)
  then show ?case by (cases s) (auto simp: put_file_keys split: sum.splits)
qed simp

text \<open>The exit code 0 says that there is a picture for every diagram source.\<close>

lemma render_main_names:
  assumes "render_main draw directory out = (Inr 0, out')"
  shows "fst ` set out' = fst ` set out \<union> png_name ` {n \<in> fst ` set directory. is_diagram n}"
proof -
  obtain e where "render_files draw (sort_key fst (filter (\<lambda>f. is_diagram (fst f)) directory)) out = (e, out')" "e = None"
    using assms by (auto simp: render_main_def Let_def split: if_splits prod.splits option.splits)
  then have "fst ` set out' = fst ` set out \<union> (png_name \<circ> fst) ` {f \<in> set directory. is_diagram (fst f)}"
    using render_files_names [of draw "sort_key fst (filter (\<lambda>f. is_diagram (fst f)) directory)" out out'] by simp
  moreover have "fst ` {f \<in> set directory. is_diagram (fst f)} = {n \<in> fst ` set directory. is_diagram n}"
    by auto
  ultimately show ?thesis by (metis image_comp)
qed

end
