(* ===== verification/DocBuilder.thy ===== *)
theory DocBuilder
  imports Tools
begin

text \<open>
  The helpers of \<open>scripts/build_doc.py\<close>, which assembles the design document. \<open>python-docx\<close> is
  not in the repository: a document is what the script asks it to build, block by block, and what the
  script relies on is the argument \<open>docx\<close>: the styles its template has, the pictures it can read,
  the page a new section starts with, and what a refused \<open>add_paragraph\<close> leaves behind.
\<close>

section \<open>Documents\<close>

datatype doc_exn = StyleKeyError string | CellIndexError | PictureError string

datatype orientation = Portrait | Landscape

record page =
  pg_orientation :: orientation
  pg_width :: nat
  pg_height :: nat

type_synonym rgb = "nat \<times> nat \<times> nat"

text \<open>A run of text; \<open>None\<close> is a property the script leaves alone.\<close>

record text_run =
  ru_text :: string
  ru_bold :: "bool option"
  ru_italic :: "bool option"
  ru_size :: "rat option"
  ru_color :: "rgb option"
  ru_font :: "string option"
  ru_break :: bool
  ru_picture :: "(string \<times> rat) option"

record doc_paragraph =
  pa_style :: "string option"
  pa_centered :: bool
  pa_before :: "rat option"
  pa_after :: "rat option"
  pa_runs :: "text_run list"

record doc_table =
  dt_style :: string
  dt_header :: "text_run list"
  dt_rows :: "text_run list list"
  dt_widths :: "rat list"

datatype block = Para doc_paragraph | HeadingBlock string nat | TableBlock doc_table | PageBreak

record style_font =
  sf_style :: string
  sf_name :: "string option"
  sf_size :: rat
  sf_color :: "rgb option"

text \<open>The closed sections with their pages, then the open one.\<close>

record document =
  dc_fonts :: "style_font list"
  dc_parts :: "(page \<times> block list) list"
  dc_page :: page
  dc_blocks :: "block list"

record docx =
  dx_style :: "string \<Rightarrow> bool"
  dx_picture :: "string \<Rightarrow> bool"
  dx_new_page :: "page \<Rightarrow> page"
  dx_refused :: "block list"

definition accent :: rgb where
  "accent = (0x1F, 0x4E, 0x79)"

definition muted :: rgb where
  "muted = (0x59, 0x59, 0x59)"

definition plain :: "string \<Rightarrow> text_run" where
  "plain t = \<lparr>ru_text = t, ru_bold = None, ru_italic = None, ru_size = None, ru_color = None,
     ru_font = None, ru_break = False, ru_picture = None\<rparr>"

definition empty_paragraph :: doc_paragraph where
  "empty_paragraph = \<lparr>pa_style = None, pa_centered = False, pa_before = None, pa_after = None, pa_runs = []\<rparr>"

definition add_blocks :: "block list \<Rightarrow> document \<Rightarrow> document" where
  "add_blocks bs d = d\<lparr>dc_blocks := dc_blocks d @ bs\<rparr>"

section \<open>Helpers\<close>

definition set_orientation :: "bool \<Rightarrow> page \<Rightarrow> page" where
  "set_orientation landscape p =
     (if landscape
      then (let p1 = p\<lparr>pg_orientation := Landscape\<rparr>
            in if pg_width p1 < pg_height p1 then p1\<lparr>pg_width := pg_height p1, pg_height := pg_width p1\<rparr> else p1)
      else (let p1 = p\<lparr>pg_orientation := Portrait\<rparr>
            in if pg_height p1 < pg_width p1 then p1\<lparr>pg_width := pg_height p1, pg_height := pg_width p1\<rparr> else p1))"

definition caption :: "string \<Rightarrow> document \<Rightarrow> document" where
  "caption t d = add_blocks
     [Para (empty_paragraph\<lparr>pa_centered := True,
        pa_runs := [(plain t)\<lparr>ru_italic := Some True, ru_size := Some 9, ru_color := Some muted\<rparr>],
        pa_after := Some 10\<rparr>)] d"

text \<open>\<open>cap\<close> is \<open>None\<close> or empty for no caption.\<close>

definition doc_image :: "docx \<Rightarrow> string \<Rightarrow> rat \<Rightarrow> string option \<Rightarrow> document \<Rightarrow> doc_exn + document" where
  "doc_image dx name width_in cap d =
     (if \<not> dx_picture dx name then Inl (PictureError name)
      else (let d1 = add_blocks [Para (empty_paragraph\<lparr>pa_centered := True,
                       pa_runs := [(plain [])\<lparr>ru_picture := Some (name, width_in)\<rparr>]\<rparr>)] d
            in Inr (case cap of None \<Rightarrow> d1 | Some t \<Rightarrow> if t = [] then d1 else caption t d1)))"

definition add_section :: "docx \<Rightarrow> bool \<Rightarrow> document \<Rightarrow> document" where
  "add_section dx landscape d =
     d\<lparr>dc_parts := dc_parts d @ [(dc_page d, dc_blocks d)],
       dc_page := set_orientation landscape (dx_new_page dx (dc_page d)), dc_blocks := []\<rparr>"

definition heading :: "nat \<Rightarrow> string \<Rightarrow> document \<Rightarrow> document" where
  "heading level t d = add_blocks [HeadingBlock t level] d"

definition landscape_image ::
  "docx \<Rightarrow> string \<Rightarrow> string \<Rightarrow> rat \<Rightarrow> string \<Rightarrow> document \<Rightarrow> doc_exn + document" where
  "landscape_image dx name head width_in cap d =
     (case doc_image dx name width_in (Some cap) (heading 2 head (add_section dx True d)) of
        Inl e \<Rightarrow> Inl e
      | Inr d' \<Rightarrow> Inr (add_section dx False d'))"

definition doc_body :: "string \<Rightarrow> bool \<Rightarrow> rat \<Rightarrow> document \<Rightarrow> document" where
  "doc_body t bold space_after d = add_blocks
     [Para (empty_paragraph\<lparr>pa_runs := [(plain t)\<lparr>ru_bold := Some bold\<rparr>], pa_after := Some space_after\<rparr>)] d"

definition styled :: "string \<Rightarrow> string \<Rightarrow> doc_paragraph" where
  "styled style t = empty_paragraph\<lparr>pa_style := Some style, pa_runs := [plain t]\<rparr>"

definition bullet :: "docx \<Rightarrow> string \<Rightarrow> bool \<Rightarrow> document \<Rightarrow> doc_exn + document" where
  "bullet dx t sub d =
     (let style = (if sub then ''List Bullet 2'' else ''List Bullet'')
      in if dx_style dx style then Inr (add_blocks [Para (styled style t)] d)
         else if dx_style dx ''List Bullet''
         then Inr (add_blocks (dx_refused dx @ [Para (styled ''List Bullet'' t)]) d)
         else Inl (StyleKeyError ''List Bullet''))"

text \<open>\<open>text.split("\n")\<close>.\<close>

fun split_newlines :: "string \<Rightarrow> string \<Rightarrow> string list" where
  "split_newlines acc [] = [rev acc]"
| "split_newlines acc (c # cs) =
     (if c = CHR 0x0A then rev acc # split_newlines [] cs else split_newlines (c # acc) cs)"

definition monospace :: "string \<Rightarrow> rat \<Rightarrow> document \<Rightarrow> document" where
  "monospace t points d =
     (let lines = split_newlines [] t
      in add_blocks
           [Para (empty_paragraph\<lparr>pa_before := Some 2, pa_after := Some 8,
              pa_runs := map (\<lambda>(i, line). (plain (if line = [] then '' '' else line))
                  \<lparr>ru_font := Some ''Consolas'', ru_size := Some points, ru_break := i \<noteq> length lines - 1\<rparr>)
                (enumerate 0 lines)\<rparr>)] d)"

text \<open>
  A table of as many columns as headers: a longer row, or more widths, index a cell that is not there;
  the cells a shorter row leaves stay empty.
\<close>

definition table_style :: "docx \<Rightarrow> doc_exn + string" where
  "table_style dx =
     (if dx_style dx ''Light Grid Accent 1'' then Inr ''Light Grid Accent 1''
      else if dx_style dx ''Table Grid'' then Inr ''Table Grid'' else Inl (StyleKeyError ''Table Grid''))"

definition doc_table ::
  "docx \<Rightarrow> string list \<Rightarrow> string list list \<Rightarrow> rat list \<Rightarrow> document \<Rightarrow> doc_exn + document" where
  "doc_table dx headers rows widths d =
     (case table_style dx of
        Inl e \<Rightarrow> Inl e
      | Inr style \<Rightarrow>
          if list_ex (\<lambda>row. length headers < length row) rows then Inl CellIndexError
          else if length headers < length widths then Inl CellIndexError
          else Inr (add_blocks
            [TableBlock
               \<lparr>dt_style = style,
                dt_header = map (\<lambda>h. (plain h)\<lparr>ru_bold := Some True, ru_size := Some (19 / 2)\<rparr>) headers,
                dt_rows = map (\<lambda>row. map (\<lambda>v. (plain v)\<lparr>ru_size := Some (19 / 2)\<rparr>) row @
                                 replicate (length headers - length row) (plain [])) rows,
                dt_widths = widths\<rparr>,
             Para (empty_paragraph\<lparr>pa_after := Some 2\<rparr>)] d))"

section \<open>Calls\<close>

text \<open>A call of a helper with its arguments, and a sequence of them up to the first exception.\<close>

datatype doc_call =
    H1 string
  | H2 string
  | Body string bool
  | Bullet string
  | Table "string list" "string list list" "rat list"
  | Image string rat string
  | LandscapeImage string string rat string
  | Monospace string

fun perform :: "docx \<Rightarrow> doc_call \<Rightarrow> document \<Rightarrow> doc_exn + document" where
  "perform dx (H1 t) d = Inr (heading 1 t d)"
| "perform dx (H2 t) d = Inr (heading 2 t d)"
| "perform dx (Body t bold) d = Inr (doc_body t bold 6 d)"
| "perform dx (Bullet t) d = bullet dx t False d"
| "perform dx (Table headers rows widths) d = doc_table dx headers rows widths d"
| "perform dx (Image name width_in cap) d = doc_image dx name width_in (Some cap) d"
| "perform dx (LandscapeImage name head width_in cap) d = landscape_image dx name head width_in cap d"
| "perform dx (Monospace t) d = Inr (monospace t (17 / 2) d)"

fun perform_all :: "docx \<Rightarrow> doc_call list \<Rightarrow> document \<Rightarrow> doc_exn + document" where
  "perform_all dx [] d = Inr d"
| "perform_all dx (c # cs) d =
     (case perform dx c d of Inl e \<Rightarrow> Inl e | Inr d' \<Rightarrow> perform_all dx cs d')"

section \<open>What the helpers do to the pages\<close>

text \<open>\<open>set_orientation\<close> gives a page the asked shape, turning it at most, and is idempotent.\<close>

lemma set_orientation_shape:
  "pg_orientation (set_orientation landscape p) = (if landscape then Landscape else Portrait)"
  "if landscape then pg_height (set_orientation landscape p) \<le> pg_width (set_orientation landscape p)
   else pg_width (set_orientation landscape p) \<le> pg_height (set_orientation landscape p)"
  "{pg_width (set_orientation landscape p), pg_height (set_orientation landscape p)} = {pg_width p, pg_height p}"
  "set_orientation landscape (set_orientation landscape p) = set_orientation landscape p"
  by (auto simp: set_orientation_def Let_def)

text \<open>Turning a page and back is what \<open>landscape_image\<close> does around a diagram.\<close>

lemma set_orientation_back:
  "pg_orientation p = Portrait \<Longrightarrow> pg_width p \<le> pg_height p \<Longrightarrow>
   set_orientation False (set_orientation True p) = p"
  by (cases p) (auto simp: set_orientation_def Let_def)

definition is_wide :: "page \<Rightarrow> bool" where
  "is_wide p \<longleftrightarrow> pg_orientation p = Landscape \<and> pg_height p \<le> pg_width p"

definition pictures_in :: "block list \<Rightarrow> string list" where
  "pictures_in bs = concat (map (\<lambda>b. case b of
       Para p \<Rightarrow> map fst (List.map_filter ru_picture (pa_runs p)) | _ \<Rightarrow> []) bs)"

text \<open>The pictures of a document, each with whether its page is a wide one.\<close>

definition placed :: "document \<Rightarrow> (string \<times> bool) list" where
  "placed d = concat (map (\<lambda>(p, bs). map (\<lambda>n. (n, is_wide p)) (pictures_in bs))
     (dc_parts d @ [(dc_page d, dc_blocks d)]))"

text \<open>What a call needs, and the pictures it places when the open page is upright.\<close>

definition template_ok :: "docx \<Rightarrow> bool" where
  "template_ok dx \<longleftrightarrow> dx_style dx ''List Bullet'' \<and> dx_style dx ''Table Grid'' \<and> pictures_in (dx_refused dx) = []"

fun call_ok :: "docx \<Rightarrow> doc_call \<Rightarrow> bool" where
  "call_ok dx (Table headers rows widths) \<longleftrightarrow>
     list_all (\<lambda>row. length row \<le> length headers) rows \<and> length widths \<le> length headers"
| "call_ok dx (Image name width_in cap) \<longleftrightarrow> dx_picture dx name"
| "call_ok dx (LandscapeImage name head width_in cap) \<longleftrightarrow> dx_picture dx name"
| "call_ok dx _ \<longleftrightarrow> True"

fun drawn :: "doc_call \<Rightarrow> (string \<times> bool) list" where
  "drawn (Image name width_in cap) = [(name, False)]"
| "drawn (LandscapeImage name head width_in cap) = [(name, True)]"
| "drawn _ = []"

lemma pictures_in_append [simp]: "pictures_in (as @ bs) = pictures_in as @ pictures_in bs"
  by (simp add: pictures_in_def)

lemma pictures_in_simps [simp]:
  "pictures_in [] = []" "pictures_in (HeadingBlock t l # bs) = pictures_in bs"
  "pictures_in (TableBlock tb # bs) = pictures_in bs" "pictures_in (PageBreak # bs) = pictures_in bs"
  "pictures_in (Para p # bs) = map fst (List.map_filter ru_picture (pa_runs p)) @ pictures_in bs"
  by (simp_all add: pictures_in_def)

lemma plain_sel [simp]: "ru_picture (plain t) = None"
  by (simp add: plain_def)

lemma empty_paragraph_sel [simp]: "pa_runs empty_paragraph = []"
  by (simp add: empty_paragraph_def)

lemma placed_add_blocks:
  "placed (add_blocks bs d) = placed d @ map (\<lambda>n. (n, is_wide (dc_page d))) (pictures_in bs)"
  by (simp add: placed_def add_blocks_def)

lemma add_blocks_page [simp]: "dc_page (add_blocks bs d) = dc_page d"
  by (simp add: add_blocks_def)

lemma placed_add_section: "placed (add_section dx landscape d) = placed d"
  by (simp add: placed_def add_section_def)

lemma add_section_page:
  "pg_orientation (dc_page (add_section dx landscape d)) = (if landscape then Landscape else Portrait)"
  "is_wide (dc_page (add_section dx True d))"
  using set_orientation_shape(2) [of True] by (simp_all add: add_section_def set_orientation_shape(1) is_wide_def)

lemma image_places:
  assumes "dx_picture dx name"
  shows "\<exists>d'. doc_image dx name w cap d = Inr d' \<and> dc_page d' = dc_page d \<and>
    placed d' = placed d @ [(name, is_wide (dc_page d))]"
  using assms
  by (cases cap) (auto simp: doc_image_def Let_def caption_def placed_add_blocks List.map_filter_def)

lemma upright_not_wide: "pg_orientation p = Portrait \<Longrightarrow> \<not> is_wide p"
  by (simp add: is_wide_def)

lemma perform_places:
  assumes "template_ok dx" and "call_ok dx c" and up: "pg_orientation (dc_page d) = Portrait"
  shows "\<exists>d'. perform dx c d = Inr d' \<and> pg_orientation (dc_page d') = Portrait \<and> placed d' = placed d @ drawn c"
proof (cases c)
  case (Image name w cap)
  then show ?thesis using image_places [of dx name w "Some cap" d] assms(2) up by (auto simp: is_wide_def)
next
  case (LandscapeImage name head w cap)
  obtain d' where "doc_image dx name w (Some cap) (heading 2 head (add_section dx True d)) = Inr d'"
    "placed d' = placed d @ [(name, True)]"
    using image_places [of dx name w "Some cap" "heading 2 head (add_section dx True d)"] assms(2)
    by (auto simp: LandscapeImage heading_def placed_add_blocks placed_add_section add_section_page)
  then show ?thesis
    by (simp add: LandscapeImage landscape_image_def add_section_page placed_add_section)
next
  case (Table headers rows widths)
  then show ?thesis using assms
    by (auto simp: doc_table_def table_style_def template_ok_def placed_add_blocks list_ex_iff list_all_iff
        List.map_filter_def)
next
  case (Monospace t)
  have "List.map_filter ru_picture (map (\<lambda>(i, line). (plain (f line))
      \<lparr>ru_font := a, ru_size := b, ru_break := g i\<rparr>) xs) = []" for f g a b xs
    by (auto simp: List.map_filter_def filter_empty_conv)
  with Monospace up show ?thesis
    by (simp add: monospace_def Let_def placed_add_blocks)
qed (use assms in \<open>auto simp: heading_def doc_body_def bullet_def template_ok_def styled_def placed_add_blocks
    List.map_filter_def Let_def\<close>)

lemma perform_all_places:
  "template_ok dx \<Longrightarrow> list_all (call_ok dx) cs \<Longrightarrow> pg_orientation (dc_page d) = Portrait \<Longrightarrow>
   \<exists>d'. perform_all dx cs d = Inr d' \<and> pg_orientation (dc_page d') = Portrait \<and>
     placed d' = placed d @ concat (map drawn cs)"
proof (induction cs arbitrary: d)
  case (Cons c cs)
  obtain d1 where d1: "perform dx c d = Inr d1" "pg_orientation (dc_page d1) = Portrait"
      "placed d1 = placed d @ drawn c"
    using perform_places [of dx c d] Cons.prems by auto
  then show ?case using Cons.IH [of d1] Cons.prems by auto
qed simp

text \<open>An exception of one call is the exception of the sequence: nothing later is asked for.\<close>

lemma perform_all_append:
  "perform_all dx (as @ bs) d = (case perform_all dx as d of Inl e \<Rightarrow> Inl e | Inr d' \<Rightarrow> perform_all dx bs d')"
  by (induction as arbitrary: d) (auto split: sum.split)

end
