(* ===== verification/DocContent.thy ===== *)
theory DocContent
  imports DocBuilder
begin

text \<open>
  The document \<open>build\<close> of \<open>scripts/build_doc.py\<close> assembles: the base styling, the cover and
  the calls of its sections, in the order of the source. Saving the file and the message are left out;
  a call of \<open>h1\<close>, \<open>body\<close> and the like is a \<open>doc_call\<close>.
\<close>

section \<open>Styling and cover\<close>

fun style_fonts :: "docx \<Rightarrow> style_font list \<Rightarrow> document \<Rightarrow> doc_exn + document" where
  "style_fonts dx [] d = Inr d"
| "style_fonts dx (f # fs) d =
     (if dx_style dx (sf_style f) then style_fonts dx fs (d\<lparr>dc_fonts := dc_fonts d @ [f]\<rparr>)
      else Inl (StyleKeyError (sf_style f)))"

definition base_styling :: "style_font list" where
  "base_styling =
     [\<lparr>sf_style = ''Normal'', sf_name = Some ''Calibri'', sf_size = 11, sf_color = None\<rparr>,
      \<lparr>sf_style = ''Heading 1'', sf_name = None, sf_size = 18, sf_color = Some accent\<rparr>,
      \<lparr>sf_style = ''Heading 2'', sf_name = None, sf_size = 14, sf_color = Some accent\<rparr>,
      \<lparr>sf_style = ''Heading 3'', sf_name = None, sf_size = 12, sf_color = Some accent\<rparr>]"

definition centered :: "text_run \<Rightarrow> block" where
  "centered r = Para (empty_paragraph\<lparr>pa_centered := True, pa_runs := [r]\<rparr>)"

definition cover :: "document \<Rightarrow> document" where
  "cover d = add_blocks
     (replicate 4 (Para empty_paragraph) @
      [centered ((plain ''Asynchronous Batch Evaluation Engine'')
         \<lparr>ru_bold := Some True, ru_size := Some 28, ru_color := Some accent\<rparr>),
       centered ((plain ''Architecture & Low-Level Design'')\<lparr>ru_size := Some 16, ru_color := Some muted\<rparr>)] @
      replicate 2 (Para empty_paragraph) @
      [centered ((plain (''Version 0.1 (Draft)  '' @ [CHR 0xB7] @ ''  Living document''))
         \<lparr>ru_size := Some 11, ru_italic := Some True\<rparr>),
       PageBreak]) d"

section \<open>The text\<close>

definition project_tree :: string where
  "project_tree = py_join [CHR 0x0A]
     [''batch-eval-engine/'',
      ''  app/'',
      ''    main.py                  # FastAPI app factory + composition root (DI wiring)'',
      ''    api/'',
      ''      dependencies.py        # provider funcs (inject services into routes)'',
      ''      routers/jobs.py        # POST /jobs, GET /job/{id}/status, /download'',
      ''    core/'',
      ''      config.py              # Settings (pydantic-settings)'',
      ''      exceptions.py          # typed domain exceptions'',
      ''    domain/'',
      ''      enums.py               # JobState, ItemStatus'',
      ''      models.py              # PromptItem, ClaimedItem, JobStatus, ...'',
      ''      results.py             # InferenceRequest/Response, ResultRecord'',
      ''    interfaces/              # PORTS (ABCs) - the contracts'',
      ''      inference_client.py'',
      ''      storage_backend.py'',
      ''      repositories.py'',
      ''      validation.py'',
      ''    infrastructure/         # ADAPTERS (implementations)'',
      ''      db/ (session, ORM models, migrations, repositories/)'',
      ''      inference/ (openai_client.py, mock_client.py)'',
      ''      storage/ (local_storage.py, s3_storage.py)'',
      ''    services/'',
      ''      job_service.py'',
      ''      ingestor.py'',
      ''      validation/ (pipeline.py, rules.py)'',
      ''    engine/'',
      ''      batch_engine.py        # supervises the bounded worker pool'',
      ''      worker.py              # claim -> process -> flush -> complete'',
      ''      concurrency.py         # ConcurrencyLimiter (semaphore)'',
      ''      retry.py               # RetryPolicy (back-off + jitter)'',
      ''    utils/ (tokens.py, cost.py)'',
      ''  workers/run_worker.py      # standalone worker-process entrypoint'',
      ''  scripts/generate_sample_batch.py'',
      ''  tests/ (unit/, integration/, conftest.py)'',
      ''  docs/ (this document, diagrams/)'',
      ''  .github/workflows/ci.yml'',
      ''  docker-compose.yml         # Postgres (+ MinIO optional)'',
      ''  alembic.ini'',
      ''  .env.example'',
      ''  pyproject.toml'',
      ''  README.md'']"

definition doc_purpose :: "doc_call list" where
  "doc_purpose =
     [H1 ''1. Purpose & Status'',
      Body ''This document describes the architecture and low-level design of a production-ready asynchronous batch evaluation engine. It is intended as a presentation and discussion artifact: it explains the system at the level of components, data flow, and class design without requiring the reader to look at source code.'' False,
      Body ''It is a living document and will be updated iteratively until the final version.'' True]"

definition doc_overview :: "doc_call list" where
  "doc_overview =
     [H1 ''2. System Overview'',
      Body ''The engine reads a local file containing an array of prompts, immediately returns an operational job id, and executes the batch fully in the background. It partitions the prompts into chunks and fans them out across a bounded worker pool that invokes a live inference endpoint. It enforces upstream rate-limit backpressure with exponential back-off and jitter, isolates individual row failures, and aggregates results into structured, downloadable reports.'' False,
      Body ''Progress and results are exposed via a small HTTP API.'' False,
      Bullet ''POST /jobs  -  ingest a batch file; returns a job id immediately (non-blocking).'',
      Bullet ''GET /job/{id}/status  -  live progress: total / succeeded / failed / in-progress.'',
      Bullet ''GET /job/{id}/download  -  the final compiled results array (success + failure details).'']"

definition doc_requirements :: "doc_call list" where
  "doc_requirements =
     [H1 ''3. Functional Requirements'',
      Table [''#'', ''Requirement'', ''How it is met'']
       [[''1'', ''Batch file ingestion (non-blocking, returns job id)'', ''Streaming parse of sample_batch.json; job id returned instantly; ingestion runs in background.''],
        [''2'', ''Scatter-gather distribution across a bounded worker pool'', ''Rows partitioned into chunks; workers pull chunks from Postgres and call the live endpoint.''],
        [''3'', ''API backpressure control'', ''Concurrency semaphore + exponential back-off with full jitter; no element is dropped.''],
        [''4'', ''Partial failure & reporting'', ''Each row failure isolated; results compiled; tracked via /status and retrieved via /download.'']]
       [2 / 5, 27 / 10, 17 / 5]]"

definition doc_decisions :: "doc_call list" where
  "doc_decisions =
     [H1 ''4. Key Design Decisions'',
      Table [''Area'', ''Choice'', ''Rationale'']
       [[''Language / API'', ''Python + FastAPI'', ''Async-native fit for high-concurrency outbound I/O; auto OpenAPI docs; Pydantic validation.''],
        [''Inference provider'', ''DigitalOcean Serverless Inference'', ''OpenAI-compatible per-request endpoint; pay-per-token; real rate limits exercise backpressure.''],
        [''Model'', ''llama3-8b-instruct'', ''Cheapest/fastest 8B-class instruct model; matches the cost-efficient, high-throughput goal.''],
        [''Queue & state'', ''Postgres (FOR UPDATE SKIP LOCKED)'', ''Durable multi-worker claim queue with crash recovery; one system for storage + queueing.''],
        [''Result storage'', ''Pluggable StorageBackend (local now, DO Spaces later)'', ''S3-compatible abstraction; switch to Spaces by config only, no logic change.''],
        [''Concurrency model'', ''Bounded worker pool + semaphore'', ''Caps in-flight calls to respect rate limits; constant memory regardless of dataset size.'']]
       [13 / 10, 11 / 5, 3]]"

definition doc_architecture :: "doc_call list" where
  "doc_architecture =
     [H1 ''5. Architecture'',
      H2 ''5.1 Architecture Overview'',
      Image ''01_architecture_flow.png'' (33 / 5) ''Figure 1. End-to-end architecture: the four tracks and the shared datastores.'',
      Body ''The pipeline is organised into four tracks:'' False,
      Bullet ''1 - Input Ingestion: POST /jobs creates the job, returns the id immediately, and a background task stream-parses and validates the file, inserting PENDING rows.'',
      Bullet ''2 - Scatter / Segmentation: a bounded worker pool pulls chunks of rows from the Postgres queue using FOR UPDATE SKIP LOCKED.'',
      Bullet ''3 - Backpressure / Throttling: workers call the live endpoint under a concurrency semaphore with exponential back-off + jitter; permanent failures are isolated per row.'',
      Bullet ''4 - Gather / Collection: completed chunks are flushed to the storage backend and marked done; /status reports counts and /download assembles the final array.'']"

definition doc_worker_detail :: "doc_call list" where
  "doc_worker_detail =
     [H2 ''5.2 Worker Processing Detail'',
      Image ''02_worker_detail.png'' (4) ''Figure 2. Per-chunk worker processing, retry loop, checkpointing, and lease heartbeat.'']"

definition doc_backpressure :: "doc_call list" where
  "doc_backpressure =
     [H2 ''5.3 Backpressure & Throttling'',
      Body ''Backpressure is the ability to automatically slow intake when the inference endpoint is saturated, and speed back up when it recovers - without dropping work. It is built from three cooperating mechanisms, each a separately tunable knob:'' False,
      Table [''Mechanism'', ''Limits'', ''Prevents'', ''Knob'']
       [[''Semaphore'', ''concurrent in-flight calls'', ''429 storms, connection/memory blow-up'', ''MAX_CONCURRENCY''],
        [''Bounded pool'', ''chunks processed in parallel'', ''unbounded prefetch into memory'', ''WORKER_POOL_SIZE''],
        [''Back-off + jitter'', ''retry timing'', ''hammering the API, thundering herd'', ''BASE/CAP/MAX_ATTEMPTS''],
        [''Lease + heartbeat'', ''(robustness)'', ''losing work if a worker dies mid-call'', ''LEASE_TTL_SECONDS'']]
       [7 / 5, 9 / 5, 12 / 5, 7 / 5],
      Image ''03_backpressure_sequence.png'' (23 / 5) ''Figure 3. Adaptive throttling: permits held during back-off naturally reduce request rate.'',
      Body ''Because a retry sleeps while still holding its semaphore permit, a burst of 429s causes fewer new calls to start, so the request rate to the provider drops on its own until it recovers - the system self-regulates around the provider's limit.'' False]"

definition doc_lifecycle :: "doc_call list" where
  "doc_lifecycle =
     [H2 ''5.4 Work-Item Lifecycle & Concurrency Safety'',
      Image ''05_item_state.png'' (21 / 5) ''Figure 4. State machine for each prompt row.'',
      Body ''Postgres is the single source of truth for state. Every transition is an atomic, guarded SQL update. The claim/lease/guard trio removes all multi-worker races:'' False,
      Table [''Race'', ''How it is eliminated'']
       [[''Two workers claim the same row'', ''FOR UPDATE SKIP LOCKED - the second transaction skips locked rows.''],
        [''Worker crashes mid-chunk'', ''Lease (visibility timeout): expired CLAIMED rows are re-claimed automatically.''],
        [''Zombie writer after reassignment'', ''Completion update guarded by worker_id; stale update affects 0 rows.''],
        [''Duplicate ingestion on restart'', ''UNIQUE (job_id, external_id) + ON CONFLICT DO NOTHING.''],
        [''Duplicate result object'', ''Deterministic chunk key => idempotent overwrite (effectively exactly-once).'']]
       [11 / 5, 43 / 10]]"

definition doc_scaling :: "doc_call list" where
  "doc_scaling =
     [H1 ''6. Memory Footprint & Scaling to 500,000 Items'',
      Body ''Core principle: memory must be O(concurrency x chunk_size), not O(dataset_size). If memory grows with the number of items, the process eventually crashes (OOM). Each stage is kept bounded:'' False,
      Table [''Stage'', ''Naive (OOM risk)'', ''Our approach (bounded)'']
       [[''Ingestion'', ''json.load entire file (~2-5 GB at 500k)'', ''Stream-parse (ijson) + batched inserts; peak ~ one batch.''],
        [''Distribution'', ''load all ids into memory'', ''Workers pull chunks on demand from Postgres.''],
        [''In-flight'', ''fire all 500k at once'', ''Semaphore caps concurrency; bounded prefetch.''],
        [''Results'', ''append all to one list'', ''Flush each chunk to storage, then free it.''],
        [''/download'', ''build full array in memory'', ''Streaming response reads chunk objects sequentially.''],
        [''/status'', ''load rows to count'', ''SQL aggregate (GROUP BY status) - O(1) memory.'']]
       [11 / 10, 13 / 5, 14 / 5],
      Body ''Memory ceiling (every term is a tunable constant - none depends on 500k):'' False,
      Monospace (py_join [CHR 0x0A]
         [''peak_RAM  ~=  ingest_batch'',
          ''            +  (MAX_CONCURRENCY x avg_request_buffer)'',
          ''            +  (WORKER_POOL_SIZE x chunk_size x avg_item_size)'',
          ''            +  DB / HTTP connection-pool overhead'']),
      Body ''With MAX_CONCURRENCY=10, CHUNK_SIZE=50, ~2 KB/item, resident memory is single-digit to low-tens of MB whether the dataset is 1k, 500k, or 5M. Dataset size only changes runtime and the number of DB rows / storage objects - both on disk, not in RAM.'' False,
      Body ''The real ceilings at scale (not memory):'' False,
      Bullet ''Provider rate limit - the true throughput ceiling; scale horizontally (more workers / keys), not by enlarging the in-process pool.'',
      Bullet ''Postgres queue contention - handled by SKIP LOCKED + an index on (job_id, status, lease_until).'',
      Bullet ''Storage object count - tune chunk_size to balance object count vs crash-rework granularity.'']"

definition doc_principles :: "doc_call list" where
  "doc_principles =
     [H1 ''7. Low-Level Design'',
      H2 ''7.1 Design Principles (SOLID)'',
      Table [''Principle'', ''Applied as'']
       [[''SRP'', ''Each class has one job (Worker processes chunks; RetryPolicy only computes retry decisions).''],
        [''OCP'', ''New provider/storage = a new class implementing an interface; engine unchanged.''],
        [''LSP'', ''Mock and concrete adapters are fully substitutable behind ABCs (enables tests).''],
        [''ISP'', ''Small focused ports: InferenceClient, StorageBackend, JobRepository, WorkQueueRepository.''],
        [''DIP'', ''Core depends on abstractions injected via constructors; concretes wired in main.py only.'']]
       [1, 11 / 2]]"

definition doc_structure :: "doc_call list" where
  "doc_structure =
     [H2 ''7.2 Project Structure'',
      Monospace (project_tree)]"

definition doc_schema :: "doc_call list" where
  "doc_schema =
     [H2 ''7.4 Database Schema'',
      Body ''jobs - one row per submitted batch:'' False,
      Table [''Column'', ''Type'', ''Notes'']
       [[''id'', ''UUID (PK)'', ''Job identifier returned to the client.''],
        [''state'', ''enum'', ''PENDING / INGESTING / RUNNING / COMPLETED / FAILED.''],
        [''input_path'', ''text'', ''Workspace path of the batch file.''],
        [''model'', ''text'', ''Inference model id.''],
        [''total_items'', ''int'', ''Count after ingestion.''],
        [''config'', ''jsonb'', ''Per-job overrides (concurrency, chunk size, etc.).''],
        [''created_at / updated_at'', ''timestamptz'', ''Timestamps.'']]
       [9 / 5, 7 / 5, 33 / 10],
      Body ''prompt_items - the durable work queue (one row per prompt):'' False,
      Table [''Column'', ''Type'', ''Notes'']
       [[''id'', ''bigserial (PK)'', ''Internal row id.''],
        [''job_id'', ''UUID (FK)'', ''Owning job.''],
        [''external_id'', ''text'', ''Id from the input file; UNIQUE per job.''],
        [''prompt'', ''text'', ''Prompt text.''],
        [''status'', ''enum'', ''PENDING / CLAIMED / SUCCEEDED / FAILED.''],
        [''attempts'', ''smallint'', ''Retry counter.''],
        [''worker_id / lease_until'', ''text / timestamptz'', ''Claim ownership + visibility timeout.''],
        [''chunk_id / result_ref'', ''text'', ''Checkpoint chunk id and storage object key.''],
        [''error'', ''text'', ''Reason if FAILED.'']]
       [19 / 10, 17 / 10, 29 / 10],
      Body ''Indexes: UNIQUE (job_id, external_id) for dedupe/idempotent ingest; partial index on (job_id, status, lease_until) for fast claims. Claims use the atomic FOR UPDATE SKIP LOCKED pattern inside short transactions.'' False]"

definition doc_configuration :: "doc_call list" where
  "doc_configuration =
     [H2 ''7.5 Configuration'',
      Table [''Setting'', ''Default'', ''Purpose'']
       [[''LLM_BASE_URL'', ''https://inference.do-ai.run/v1/'', ''DO serverless endpoint (OpenAI-compatible).''],
        [''LLM_MODEL'', ''llama3-8b-instruct'', ''Cheap/fast inference model.''],
        [''WORKER_POOL_SIZE'', ''4'', ''Chunks processed in parallel.''],
        [''MAX_CONCURRENCY'', ''10'', ''Max simultaneous inference calls (semaphore).''],
        [''CHUNK_SIZE'', ''50'', ''Rows per claim + checkpoint granularity.''],
        [''RETRY_MAX_ATTEMPTS'', ''5'', ''Max attempts before a row is FAILED.''],
        [''RETRY_BASE / FACTOR / CAP'', ''1.0 / 2.0 / 30.0'', ''Exponential back-off with full jitter.''],
        [''LEASE_TTL_SECONDS'', ''120'', ''Visibility timeout for crash recovery.''],
        [''STORAGE_BACKEND'', ''local'', ''local now; s3 (DO Spaces) later.'']]
       [11 / 5, 19 / 10, 12 / 5]]"

definition doc_validation :: "doc_call list" where
  "doc_validation =
     [H2 ''7.6 Validation Rules'',
      Body ''Batch-fatal (reject at POST /jobs - nothing created):'' False,
      Bullet ''Unknown/forbidden model, or parameters out of range.'',
      Bullet ''Projected cost over budget, or item count over MAX_ITEMS_PER_BATCH.'',
      Bullet ''Duplicate ids (when policy = reject); unreadable / non-array file.'',
      Body ''Row-isolated (recorded as FAILED, job continues - per requirement 4):'' False,
      Bullet ''Empty / oversized prompt; prompt tokens + max_tokens exceed context window.'',
      Bullet ''Unfilled template placeholders; encoding issues; per-row parameter errors.'']"

definition doc_landscape_diagrams :: "doc_call list" where
  "doc_landscape_diagrams =
     [LandscapeImage ''04_component_diagram.png'' ''7.3 Component & Dependency View'' (46 / 5)
       ''Figure 5. Components depend on interfaces (ports); infrastructure provides adapters; main.py is the only composition root. Arrows point toward abstractions (DIP).'',
      LandscapeImage ''06_class_uml.png'' ''7.7 Class Model (UML)'' (47 / 5)
       ''Figure 6. Core classes, interfaces, and their relationships.'',
      Table [''Class / Interface'', ''Responsibility'']
       [[''JobService'', ''Orchestrates submit / status / download; depends only on interfaces.''],
        [''BatchIngestor'', ''Streams the file, validates rows, bulk-inserts into the queue.''],
        [''ValidationPipeline'', ''Composite of validation rules (batch-fatal + row-isolated).''],
        [''BatchEngine'', ''Spawns and supervises the bounded worker pool; finalizes job state.''],
        [''Worker'', ''Claims a chunk, processes rows (retry+limiter), flushes results, heartbeats lease.''],
        [''RetryPolicy'', ''Computes retry eligibility and back-off + jitter delay.''],
        [''ConcurrencyLimiter'', ''Semaphore enforcing the hard ceiling on in-flight calls.''],
        [''InferenceClient (port)'', ''Live endpoint contract; DOInferenceClient + MockInferenceClient.''],
        [''StorageBackend (port)'', ''Result persistence; LocalFileStorage + S3SpacesStorage.''],
        [''JobRepository / WorkQueueRepository (ports)'', ''Data access; Postgres adapters implement the claim/complete SQL.'']]
       [12 / 5, 41 / 10]]"

definition doc_testing :: "doc_call list" where
  "doc_testing =
     [H1 ''8. Testing Strategy'',
      Body ''Dependency inversion makes the logic testable without a database or live API.'' False,
      H2 ''Unit tests (fast, mocked)'',
      Bullet ''RetryPolicy: delay bounds, jitter range, retryable mapping.'',
      Bullet ''ValidationPipeline and each rule: batch-fatal vs row-isolated outcomes.'',
      Bullet ''LocalFileStorage round-trip; ConcurrencyLimiter never exceeds N in-flight.'',
      Bullet ''Worker with MockInferenceClient: success, retry-then-succeed, permanent-fail isolation.'',
      Bullet ''BatchIngestor with a fixture file including invalid rows.'',
      H2 ''Integration tests (real Postgres)'',
      Bullet ''Repository claim/complete; concurrency race test (no item claimed twice).'',
      Bullet ''Lease expiry / reclaim; idempotent ingest.'',
      Bullet ''Full end-to-end via the API with the mock client: submit -> status -> download.'']"

definition doc_ci :: "doc_call list" where
  "doc_ci =
     [H1 ''9. CI/CD Pipeline'',
      Body ''GitHub Actions on push and pull_request:'' False,
      Bullet ''Lint (ruff) and type-check (mypy).'',
      Bullet ''Unit tests.'',
      Bullet ''Integration tests against a Postgres service container (alembic upgrade head first).'',
      Bullet ''Coverage upload + threshold gate. No live API keys in CI - everything uses the mock client.'']"

definition doc_deliverables :: "doc_call list" where
  "doc_deliverables =
     [H1 ''10. Documentation Deliverables'',
      Bullet ''README - setup, environment, docker-compose, run instructions, curl examples.'',
      Bullet ''This design document (architecture + LLD), kept up to date.'',
      Bullet ''Auto-generated OpenAPI / Swagger UI at /docs from FastAPI.'']"

definition doc_change_log :: "doc_call list" where
  "doc_change_log =
     [H1 ''11. Change Log'',
      Table [''Version'', ''Notes'']
       [[''0.1'', ''Initial draft: architecture flows, memory/scaling analysis, and low-level design.'']]
       [6 / 5, 53 / 10]]"

section \<open>\<open>build\<close>\<close>

definition doc_sections :: "doc_call list list" where
  "doc_sections =
     [doc_purpose, doc_overview, doc_requirements, doc_decisions, doc_architecture, doc_worker_detail,
      doc_backpressure, doc_lifecycle, doc_scaling, doc_principles, doc_structure, doc_schema,
      doc_configuration, doc_validation, doc_landscape_diagrams, doc_testing, doc_ci, doc_deliverables,
      doc_change_log]"

text \<open>\<open>start\<close> is the empty document of the template; the result is what \<open>doc.save\<close> writes.\<close>

definition build_document :: "docx \<Rightarrow> document \<Rightarrow> doc_exn + document" where
  "build_document dx start =
     (case style_fonts dx base_styling start of
        Inl e \<Rightarrow> Inl e
      | Inr d \<Rightarrow> perform_all dx (concat doc_sections) (cover d))"

end
