(* ===== verification/ColumnTypes.thy ===== *)
theory ColumnTypes
  imports ServiceInv RequestProps
begin

text \<open>
  The values in the tables have the types of their columns: no code point 0 in a \<open>text\<close>, at
  most 128 characters in \<open>jobs.model\<close>, an \<open>integer\<close> in \<open>total_items\<close>, at most
  64 characters in \<open>worker_id\<close>.
\<close>

section \<open>Typed tables\<close>

definition job_typed :: "job_row \<Rightarrow> bool" where
  "job_typed j \<longleftrightarrow> text_ok (j_input_path j) \<and> text_ok (j_model j) \<and> length (j_model j) \<le> model_column_width \<and>
     j_total_items j < int4_limit \<and> opt_text_ok (j_error j)"

definition item_typed :: "item_row \<Rightarrow> bool" where
  "item_typed r \<longleftrightarrow> text_ok (i_external_id r) \<and> opt_text_ok (i_prompt r) \<and>
     (case i_worker_id r of None \<Rightarrow> True | Some w \<Rightarrow> length w \<le> id_column_width)"

definition tables_typed :: "database \<Rightarrow> bool" where
  "tables_typed db \<longleftrightarrow> list_all job_typed (jobs db) \<and> list_all item_typed (items db)"

definition names_fit :: "settings \<Rightarrow> exec_env \<Rightarrow> bool" where
  "names_fit s env \<longleftrightarrow> (\<forall>i < nat (worker_pool_size s).
     length (worker_name (ee_host env) (ee_pid env) (ee_hex env i) i) \<le> id_column_width)"

lemma list_all_sql_update:
  "list_all P rows \<Longrightarrow> (\<And>r. P r \<Longrightarrow> P (f r)) \<Longrightarrow> list_all P (sql_update Q f rows)"
  by (auto simp: list_all_iff set_sql_update)

lemma set_state_typed: "set_state job st err now db = Inr db' \<Longrightarrow> tables_typed db \<Longrightarrow> tables_typed db'"
  by (auto simp: set_state_def update_job_def tables_typed_def job_typed_def split: if_splits
      intro!: list_all_sql_update)

lemma set_total_typed: "set_total job n now db = Inr db' \<Longrightarrow> tables_typed db \<Longrightarrow> tables_typed db'"
  by (auto simp: set_total_def update_job_def tables_typed_def job_typed_def split: if_splits
      intro!: list_all_sql_update)

lemma create_job_typed: "create_job j now db = Inr db' \<Longrightarrow> tables_typed db \<Longrightarrow> tables_typed db'"
  by (auto simp: create_job_def tables_typed_def job_typed_def job_values_ok_def split: if_splits)

lemma item_typed_rows:
  "item_typed r \<Longrightarrow> length w \<le> id_column_width \<Longrightarrow> item_typed (claim_row w l now r)"
  "item_typed r \<Longrightarrow> item_typed (complete_row res ref now r)"
  "item_typed r \<Longrightarrow> item_typed (renew_row l now r)"
  by (simp_all add: item_typed_def claim_row_def complete_row_def renew_row_def)

lemma item_typed_insert:
  "new_row_ok n \<Longrightarrow> list_all item_typed (items db) \<Longrightarrow> list_all item_typed (items (fst (insert_row job now n db)))"
  by (simp add: insert_row_def) (simp add: item_typed_def new_row_ok_def opt_text_ok_def)

lemma insert_rows_typed:
  "list_all new_row_ok ns \<Longrightarrow> list_all item_typed (items db) \<Longrightarrow>
   list_all item_typed (items (fst (insert_rows job now ns db)))"
proof (induction ns arbitrary: db)
  case (Cons n ns)
  have "list_all item_typed (items (fst (insert_row job now n db)))"
    using Cons.prems by (intro item_typed_insert) simp_all
  with Cons show ?case by (simp add: insert_rows_Cons del: insert_rows.simps(2))
qed simp

lemma bulk_insert_typed:
  assumes "bulk_insert job its failed now db = Inr (db', k)" and "tables_typed db"
  shows "tables_typed db'"
proof -
  have "map pending_row its @ map failed_row failed = [] \<or>
      list_all new_row_ok (map pending_row its @ map failed_row failed)"
    using assms(1) unfolding bulk_insert_def Let_def by (auto split: if_splits)
  then show ?thesis
    using insert_rows_typed [of "map pending_row its @ map failed_row failed" db job now] assms(2)
    unfolding bulk_insert_Inr_rows [OF assms(1)] tables_typed_def by (auto simp: frame_simps)
qed

section \<open>The pool\<close>

definition pool_typed :: "pool \<Rightarrow> bool" where
  "pool_typed p \<longleftrightarrow> list_all item_typed (items (po_db p)) \<and>
     list_all (\<lambda>(w, job). length w \<le> id_column_width) (crew p)"

lemma complete_loop_typed:
  "list_all item_typed (items db) \<Longrightarrow> list_all item_typed (items (fst (complete_loop w rs ref now (db, n))))"
proof (induction rs arbitrary: db n)
  case (Cons r rs)
  have "list_all item_typed (items (update_items (owns w (rr_external_id r)) (complete_row r ref now) db))"
    using Cons.prems by (simp add: update_items_def list_all_sql_update item_typed_rows)
  with Cons show ?case by simp
qed simp

lemma pool_step_typed:
  assumes step: "pool_step s rp dump be a p = Some p'" and typed: "pool_typed p"
  shows "pool_typed p'"
proof -
  from typed have items: "list_all item_typed (items (po_db p))" by (simp add: pool_typed_def)
  have width: "length (pw_id (po_workers p ! i)) \<le> id_column_width" if "phase_of p i = Some ph" for i ph
    using typed crew_member [of i p] that by (force simp: pool_typed_def list_all_iff phase_of_Some)
  have "list_all item_typed (items (po_db p'))"
  proof (cases a)
    case (Claim i)
    then have i: "phase_of p i = Some Idle" and p': "p' = claim_step s i p" using step by (simp_all split: if_splits)
    show ?thesis using items width [OF i]
      by (simp add: p' claim_step_def Let_def claim_chunk_def update_items_def list_all_sql_update item_typed_rows)
  next
    case (Commit i)
    then obtain rs ref where "p' = commit_step i rs ref p" using step by (auto split: option.splits phase.splits)
    with items show ?thesis by (simp add: commit_step_def complete_items_def complete_loop_typed)
  next
    case (Beat i)
    then have "p' = beat_step s i p" using step by (simp split: option.splits phase.splits)
    with items show ?thesis
      by (simp add: beat_step_def renew_lease_def update_items_def list_all_sql_update item_typed_rows)
  qed (use step items in \<open>auto simp: process_step_def flush_step_def
      split: option.splits phase.splits if_splits sum.splits\<close>)
  with typed show ?thesis by (simp add: pool_typed_def pool_step_crew [OF step])
qed

lemma pool_reach_typed: "pool_reach s rp dump be p0 p \<Longrightarrow> pool_typed p0 \<Longrightarrow> pool_typed p"
  by (induction rule: pool_reach.induct) (auto intro: pool_step_typed)

lemma engine_run_typed:
  assumes run: "engine_run s rp dump be (ee_host env) (ee_pid env) (ee_hex env) sched job db store now = (r, p)"
    and names: "names_fit s env" and typed: "tables_typed db"
  shows "tables_typed (po_db p)"
proof -
  let ?p0 = "start_pool s (ee_host env) (ee_pid env) (ee_hex env) job db store now"
  have pool: "tables_typed (po_db q)" if q: "run_pool s rp dump be sched ?p0 = (x, q)" for x q
  proof -
    have "pool_typed ?p0"
      using names typed by (auto simp: pool_typed_def tables_typed_def names_fit_def start_pool_def crew_def spawn_def list_all_iff)
    from pool_reach_typed [OF run_pool_reach [OF q] this] have "list_all item_typed (items (po_db q))"
      by (simp add: pool_typed_def)
    moreover have "jobs (po_db q) = jobs db" using run_pool_jobs [OF q] by (simp add: start_pool_def)
    ultimately show ?thesis using typed by (simp add: tables_typed_def)
  qed
  from run show ?thesis
  proof (cases rule: engine_run_cases)
    case (finished q)
    from pool [OF finished(2)] show ?thesis
      by (auto simp: finished(3) tables_typed_def update_job_def job_typed_def opt_text_ok_def intro!: list_all_sql_update)
  qed (auto intro: pool)
qed

interpretation typed: kept_by_statements
  "\<lambda>db db'. names_fit s env \<longrightarrow> tables_typed db \<longrightarrow> tables_typed db'" s env for s env
  by unfold_locales (auto intro: set_state_typed set_total_typed bulk_insert_typed engine_run_typed)

section \<open>The property\<close>


text \<open>A host name of 51 characters or more leaves no room for the rest of a worker's name.\<close>

lemma nat_str_length: "1 \<le> length (nat_str n)"
  using nat_str_nonempty [of n] by (simp add: Suc_leI)

lemma long_host_does_not_fit:
  assumes "51 \<le> length (ee_host env)" and "length (ee_hex env 0) = 32" and "0 < worker_pool_size s"
  shows "\<not> names_fit s env"
proof -
  have "id_column_width < length (worker_name (ee_host env) (ee_pid env) (ee_hex env 0) 0)"
    using assms(1,2) nat_str_length [of "ee_pid env"] nat_str_length [of 0]
    by (simp add: worker_name_def id_column_width_def)
  with assms(3) show ?thesis unfolding names_fit_def by (metis not_le zero_less_nat_eq)
qed

lemma full_typed: "tables_typed (full_db J_RUNNING 2)"
  by (simp add: tables_typed_def full_db_def full_job_def dead_row_def demo_row_def job_typed_def item_typed_def
      text_ok_def opt_text_ok_def model_column_width_def int4_limit_def id_column_width_def)

lemma names_fit_bound:
  assumes "\<And>i. length (ee_hex env i) = 32" and "length (ee_host env) \<le> 40" and "ee_pid env < 10 ^ 7"
    and "worker_pool_size s \<le> 10 ^ 5"
  shows "names_fit s env"
  using worker_ids_distinct_and_fit [where hex = "ee_hex env" and s = s and host = "ee_host env" and pid = "ee_pid env", OF assms(1)]
    assms(2-4)
  by (auto simp: names_fit_def spawn_def)

lemma full_names_fit: "names_fit default_settings full_env"
  by (rule names_fit_bound) (simp_all add: full_env_def default_settings_def)


end
