(* ===== verification/Migration.thy ===== *)
theory Migration
  imports ColumnTypes
begin

text \<open>
  The tables as declared twice: by the ORM classes of \<open>app/infrastructure/db/models.py\<close> and by the
  migration \<open>0001_initial.py\<close>, whose operations run against a catalog of tables and indexes; and
  the migration environment \<open>migrations/env.py\<close>, which runs them. Alembic is not in the
  repository: its operations are the statements it documents for them, refused where PostgreSQL
  refuses the statement.
\<close>

section \<open>Tables\<close>

datatype column_type =
  UuidType | VarcharType nat | TextType | SmallIntType | IntegerType | BigIntType | JsonbType | TimestampType

record column =
  co_name :: string
  co_type :: column_type
  co_nullable :: bool
  co_primary :: bool
  co_default :: "string option"
  co_references :: "(string \<times> string) option"

record table_def =
  ta_name :: string
  ta_columns :: "column list"
  ta_uniques :: "(string \<times> string list) list"

record index_def =
  ix_name :: string
  ix_table :: string
  ix_columns :: "string list"

text \<open>\<open>sa.Column\<close>: a column with and without \<open>nullable\<close>; \<open>server_default\<close> is its SQL text.\<close>

definition col :: "string \<Rightarrow> column_type \<Rightarrow> bool \<Rightarrow> string option \<Rightarrow> column" where
  "col n t nullable d =
     \<lparr>co_name = n, co_type = t, co_nullable = nullable, co_primary = False, co_default = d, co_references = None\<rparr>"

definition primary_col :: "string \<Rightarrow> column_type \<Rightarrow> column" where
  "primary_col n t = (col n t False None)\<lparr>co_primary := True\<rparr>"

definition foreign_col :: "string \<Rightarrow> column_type \<Rightarrow> string \<Rightarrow> string \<Rightarrow> column" where
  "foreign_col n t tab key = (col n t False None)\<lparr>co_references := Some (tab, key)\<rparr>"

section \<open>The models\<close>

definition orm_jobs :: table_def where
  "orm_jobs =
     \<lparr>ta_name = ''jobs'',
      ta_columns =
        [primary_col ''id'' UuidType,
         col ''state'' (VarcharType 20) False None,
         col ''input_path'' TextType False None,
         col ''model'' (VarcharType 128) False None,
         col ''total_items'' IntegerType False None,
         col ''config'' JsonbType False None,
         col ''error'' TextType True None,
         col ''created_at'' TimestampType False (Some ''now()''),
         col ''updated_at'' TimestampType False (Some ''now()'')],
      ta_uniques = []\<rparr>"

definition orm_items :: table_def where
  "orm_items =
     \<lparr>ta_name = ''prompt_items'',
      ta_columns =
        [primary_col ''id'' BigIntType,
         foreign_col ''job_id'' UuidType ''jobs'' ''id'',
         col ''external_id'' TextType False None,
         col ''prompt'' TextType True None,
         col ''status'' (VarcharType 20) False None,
         col ''attempts'' IntegerType False None,
         col ''worker_id'' (VarcharType 64) True None,
         col ''lease_until'' TimestampType True None,
         col ''chunk_id'' (VarcharType 64) True None,
         col ''result_ref'' TextType True None,
         col ''error'' TextType True None,
         col ''created_at'' TimestampType False (Some ''now()''),
         col ''updated_at'' TimestampType False (Some ''now()'')],
      ta_uniques = [(''uq_prompt_items_job_external'', [''job_id'', ''external_id''])]\<rparr>"

definition orm_index :: index_def where
  "orm_index = \<lparr>ix_name = ''idx_items_claimable'', ix_table = ''prompt_items'',
     ix_columns = [''job_id'', ''status'', ''lease_until'']\<rparr>"

section \<open>The migration\<close>

datatype schema_op =
    CreateTable table_def
  | CreateIndex index_def
  | DropIndex string string
  | DropTable string

definition upgrade :: "schema_op list" where
  "upgrade =
     [CreateTable
        \<lparr>ta_name = ''jobs'',
         ta_columns =
           [primary_col ''id'' UuidType,
            col ''state'' (VarcharType 20) False (Some ''PENDING''),
            col ''input_path'' TextType False None,
            col ''model'' (VarcharType 128) False None,
            col ''total_items'' IntegerType False (Some ''0''),
            col ''config'' JsonbType False (Some ''{}''),
            col ''error'' TextType True None,
            col ''created_at'' TimestampType False (Some ''now()''),
            col ''updated_at'' TimestampType False (Some ''now()'')],
         ta_uniques = []\<rparr>,
      CreateTable
        \<lparr>ta_name = ''prompt_items'',
         ta_columns =
           [primary_col ''id'' BigIntType,
            foreign_col ''job_id'' UuidType ''jobs'' ''id'',
            col ''external_id'' TextType False None,
            col ''prompt'' TextType True None,
            col ''status'' (VarcharType 20) False (Some ''PENDING''),
            col ''attempts'' SmallIntType False (Some ''0''),
            col ''worker_id'' (VarcharType 64) True None,
            col ''lease_until'' TimestampType True None,
            col ''chunk_id'' (VarcharType 64) True None,
            col ''result_ref'' TextType True None,
            col ''error'' TextType True None,
            col ''created_at'' TimestampType False (Some ''now()''),
            col ''updated_at'' TimestampType False (Some ''now()'')],
         ta_uniques = [(''uq_prompt_items_job_external'', [''job_id'', ''external_id''])]\<rparr>,
      CreateIndex \<lparr>ix_name = ''idx_items_claimable'', ix_table = ''prompt_items'',
         ix_columns = [''job_id'', ''status'', ''lease_until'']\<rparr>]"

definition downgrade :: "schema_op list" where
  "downgrade = [DropIndex ''idx_items_claimable'' ''prompt_items'', DropTable ''prompt_items'', DropTable ''jobs'']"

text \<open>
  A catalog: tables and indexes in the order of their creation. A table cannot be created under a name
  in use, nor with a foreign key into a table that is not there (or itself), nor dropped while another table
  refers to it; dropping it drops its indexes.
\<close>

record catalog =
  ca_tables :: "table_def list"
  ca_indexes :: "index_def list"

definition table_names :: "catalog \<Rightarrow> string list" where
  "table_names c = map ta_name (ca_tables c)"

text \<open>Tables, indexes and the indexes behind unique constraints share one name space.\<close>

definition relation_names :: "catalog \<Rightarrow> string list" where
  "relation_names c = table_names c @ map ix_name (ca_indexes c) @ concat (map (map fst \<circ> ta_uniques) (ca_tables c))"

definition refers_to :: "table_def \<Rightarrow> string list" where
  "refers_to t = map fst (List.map_filter co_references (ta_columns t))"

fun apply_op :: "schema_op \<Rightarrow> catalog \<Rightarrow> exn + catalog" where
  "apply_op (CreateTable t) c =
     (if list_ex (\<lambda>n. n \<in> set (relation_names c)) (ta_name t # map fst (ta_uniques t))
      then Inl (LibraryError ''DuplicateTable'')
      else if \<not> list_all (\<lambda>n. n \<in> set (table_names c) \<or> n = ta_name t) (refers_to t)
      then Inl (LibraryError ''UndefinedTable'')
      else Inr (c\<lparr>ca_tables := ca_tables c @ [t]\<rparr>))"
| "apply_op (CreateIndex i) c =
     (if ix_table i \<notin> set (table_names c) then Inl (LibraryError ''UndefinedTable'')
      else if ix_name i \<in> set (relation_names c) then Inl (LibraryError ''DuplicateTable'')
      else Inr (c\<lparr>ca_indexes := ca_indexes c @ [i]\<rparr>))"
| "apply_op (DropIndex n tab) c =
     (if n \<notin> set (map ix_name (ca_indexes c)) then Inl (LibraryError ''UndefinedObject'')
      else Inr (c\<lparr>ca_indexes := filter (\<lambda>i. ix_name i \<noteq> n) (ca_indexes c)\<rparr>))"
| "apply_op (DropTable n) c =
     (if n \<notin> set (table_names c) then Inl (LibraryError ''UndefinedTable'')
      else if list_ex (\<lambda>t. ta_name t \<noteq> n \<and> n \<in> set (refers_to t)) (ca_tables c)
      then Inl (LibraryError ''DependentObjectsStillExist'')
      else Inr (c\<lparr>ca_tables := filter (\<lambda>t. ta_name t \<noteq> n) (ca_tables c),
                  ca_indexes := filter (\<lambda>i. ix_table i \<noteq> n) (ca_indexes c)\<rparr>))"

fun apply_ops :: "schema_op list \<Rightarrow> catalog \<Rightarrow> exn + catalog" where
  "apply_ops [] c = Inr c"
| "apply_ops (p # ps) c = (case apply_op p c of Inl e \<Rightarrow> Inl e | Inr c' \<Rightarrow> apply_ops ps c')"

section \<open>The migration makes the models' tables\<close>

text \<open>Foreign keys and indexes name tables that are there.\<close>

definition catalog_wf :: "catalog \<Rightarrow> bool" where
  "catalog_wf c \<longleftrightarrow> list_all (\<lambda>t. list_all (\<lambda>n. n \<in> set (table_names c)) (refers_to t)) (ca_tables c) \<and>
     list_all (\<lambda>i. ix_table i \<in> set (table_names c)) (ca_indexes c)"

definition names_free :: "catalog \<Rightarrow> bool" where
  "names_free c \<longleftrightarrow> list_all (\<lambda>n. n \<notin> set (relation_names c))
     [''jobs'', ''prompt_items'', ''uq_prompt_items_job_external'', ''idx_items_claimable'']"

text \<open>A table without the defaults, which the ORM fills in on its own side.\<close>

definition erase_defaults :: "table_def \<Rightarrow> table_def" where
  "erase_defaults t = t\<lparr>ta_columns := map (\<lambda>c. c\<lparr>co_default := None\<rparr>) (ta_columns t)\<rparr>"

definition retype :: "string \<Rightarrow> column_type \<Rightarrow> table_def \<Rightarrow> table_def" where
  "retype n ty t = t\<lparr>ta_columns := map (\<lambda>c. if co_name c = n then c\<lparr>co_type := ty\<rparr> else c) (ta_columns t)\<rparr>"

lemmas table_defs = col_def primary_col_def foreign_col_def orm_jobs_def orm_items_def orm_index_def

lemma upgrade_steps:
  obtains t u where "upgrade = [CreateTable t, CreateTable u, CreateIndex orm_index]"
    and "erase_defaults t = erase_defaults orm_jobs"
    and "erase_defaults u = retype ''attempts'' SmallIntType (erase_defaults orm_items)"
    and "ta_name t = ''jobs''" "ta_uniques t = []" "refers_to t = []"
    and "ta_name u = ''prompt_items''" "map fst (ta_uniques u) = [''uq_prompt_items_job_external'']"
      "refers_to u = [''jobs'']"
  by (rule that [of "case upgrade ! 0 of CreateTable t \<Rightarrow> t" "case upgrade ! 1 of CreateTable t \<Rightarrow> t"])
     (simp_all add: upgrade_def table_defs erase_defaults_def retype_def refers_to_def List.map_filter_def)

lemma names_free_tables:
  assumes "names_free c" and "catalog_wf c"
  shows "t \<in> set (ca_tables c) \<Longrightarrow> ta_name t \<noteq> ''jobs'' \<and> ta_name t \<noteq> ''prompt_items'' \<and>
      ''jobs'' \<notin> set (refers_to t) \<and> ''prompt_items'' \<notin> set (refers_to t)"
    and "i \<in> set (ca_indexes c) \<Longrightarrow> ix_name i \<noteq> ''idx_items_claimable'' \<and> ix_table i \<noteq> ''jobs'' \<and>
      ix_table i \<noteq> ''prompt_items''"
proof -
  have tabs: "''jobs'' \<notin> set (table_names c)" "''prompt_items'' \<notin> set (table_names c)"
    and idx: "''idx_items_claimable'' \<notin> ix_name ` set (ca_indexes c)"
    using assms(1) by (simp_all add: names_free_def relation_names_def)
  have refs: "n \<in> set (table_names c)" if "t \<in> set (ca_tables c)" "n \<in> set (refers_to t)" for t n
    using assms(2) that by (auto simp: catalog_wf_def list_all_iff)
  have ixs: "ix_table i \<in> set (table_names c)" if "i \<in> set (ca_indexes c)" for i
    using assms(2) that by (auto simp: catalog_wf_def list_all_iff)
  show "ta_name t \<noteq> ''jobs'' \<and> ta_name t \<noteq> ''prompt_items'' \<and>
      ''jobs'' \<notin> set (refers_to t) \<and> ''prompt_items'' \<notin> set (refers_to t)" if t: "t \<in> set (ca_tables c)"
  proof -
    have "ta_name t \<in> set (table_names c)" using t by (simp add: table_names_def)
    then show ?thesis using tabs refs [OF t] by metis
  qed
  show "ix_name i \<noteq> ''idx_items_claimable'' \<and> ix_table i \<noteq> ''jobs'' \<and> ix_table i \<noteq> ''prompt_items''"
    if i: "i \<in> set (ca_indexes c)"
  proof -
    have "ix_name i \<in> ix_name ` set (ca_indexes c)" using i by blast
    then show ?thesis using tabs idx ixs [OF i] by metis
  qed
qed

lemma upgrade_applies:
  assumes "names_free c"
  obtains t u where "apply_ops upgrade c =
      Inr \<lparr>ca_tables = ca_tables c @ [t, u], ca_indexes = ca_indexes c @ [orm_index]\<rparr>"
    and "erase_defaults t = erase_defaults orm_jobs"
    and "erase_defaults u = retype ''attempts'' SmallIntType (erase_defaults orm_items)"
    and "ta_name t = ''jobs''" "refers_to t = []" "ta_name u = ''prompt_items''" "refers_to u = [''jobs'']"
proof -
  obtain t u where up: "upgrade = [CreateTable t, CreateTable u, CreateIndex orm_index]"
    and tu: "erase_defaults t = erase_defaults orm_jobs"
      "erase_defaults u = retype ''attempts'' SmallIntType (erase_defaults orm_items)"
      "ta_name t = ''jobs''" "ta_uniques t = []" "refers_to t = []" "ta_name u = ''prompt_items''"
      "map fst (ta_uniques u) = [''uq_prompt_items_job_external'']" "refers_to u = [''jobs'']"
    by (rule upgrade_steps)
  have "apply_ops upgrade c =
      Inr \<lparr>ca_tables = ca_tables c @ [t, u], ca_indexes = ca_indexes c @ [orm_index]\<rparr>"
    using assms by (simp add: up tu names_free_def relation_names_def table_names_def orm_index_def)
  then show ?thesis using tu by (intro that)
qed


text \<open>A database with Alembic's own table.\<close>

definition alembic_catalog :: catalog where
  "alembic_catalog = \<lparr>ca_tables = [\<lparr>ta_name = ''alembic_version'',
       ta_columns = [primary_col ''version_num'' (VarcharType 32)], ta_uniques = []\<rparr>], ca_indexes = []\<rparr>"


section \<open>Rows in the migrated tables\<close>

datatype sql_value = NullValue | TextValue string | IntValue int | UuidValue string | JsonValue | TimeValue time

fun fits :: "column_type \<Rightarrow> sql_value \<Rightarrow> bool" where
  "fits UuidType v = (case v of UuidValue u \<Rightarrow> True | _ \<Rightarrow> False)"
| "fits (VarcharType n) v = (case v of TextValue s \<Rightarrow> text_ok s \<and> length s \<le> n | _ \<Rightarrow> False)"
| "fits TextType v = (case v of TextValue s \<Rightarrow> text_ok s | _ \<Rightarrow> False)"
| "fits SmallIntType v = (case v of IntValue k \<Rightarrow> - (2 ^ 15) \<le> k \<and> k < 2 ^ 15 | _ \<Rightarrow> False)"
| "fits IntegerType v = (case v of IntValue k \<Rightarrow> - (2 ^ 31) \<le> k \<and> k < 2 ^ 31 | _ \<Rightarrow> False)"
| "fits BigIntType v = (case v of IntValue k \<Rightarrow> - (2 ^ 63) \<le> k \<and> k < 2 ^ 63 | _ \<Rightarrow> False)"
| "fits JsonbType v = (v = JsonValue)"
| "fits TimestampType v = (case v of TimeValue t \<Rightarrow> True | _ \<Rightarrow> False)"

definition column_admits :: "column \<Rightarrow> sql_value \<Rightarrow> bool" where
  "column_admits c v = (if v = NullValue then co_nullable c else fits (co_type c) v)"

definition row_fits :: "table_def \<Rightarrow> sql_value list \<Rightarrow> bool" where
  "row_fits t vs = list_all2 column_admits (ta_columns t) vs"

definition text_value :: "string option \<Rightarrow> sql_value" where
  "text_value s = (case s of None \<Rightarrow> NullValue | Some x \<Rightarrow> TextValue x)"

definition job_values :: "job_row \<Rightarrow> sql_value list" where
  "job_values j =
     [UuidValue (j_id j), TextValue (job_state_value (j_state j)), TextValue (j_input_path j),
      TextValue (j_model j), IntValue (int (j_total_items j)), JsonValue, text_value (j_error j),
      TimeValue (j_created_at j), TimeValue (j_updated_at j)]"

definition item_values :: "item_row \<Rightarrow> sql_value list" where
  "item_values r =
     [IntValue (int (i_id r)), UuidValue (i_job_id r), TextValue (i_external_id r), text_value (i_prompt r),
      TextValue (item_status_value (i_status r)), IntValue (int (i_attempts r)), text_value (i_worker_id r),
      (case i_lease_until r of None \<Rightarrow> NullValue | Some t \<Rightarrow> TimeValue t), text_value (i_chunk_id r),
      text_value (i_result_ref r), text_value (i_error r), TimeValue (i_created_at r), TimeValue (i_updated_at r)]"

text \<open>The table \<open>prompt_items\<close> the migration makes.\<close>

definition migrated_items :: table_def where
  "migrated_items = retype ''attempts'' SmallIntType orm_items"

lemma col_sel [simp]: "co_name (col n t b d) = n" "(col n t b d)\<lparr>co_type := u\<rparr> = col n u b d"
    "co_name (primary_col n t) = n" "co_name (foreign_col n t tab key) = n"
  by (simp_all add: col_def primary_col_def foreign_col_def)

lemma column_admits_simps [simp]:
  "column_admits (col n TextType b d) (TextValue x) = text_ok x"
  "column_admits (col n (VarcharType k) b d) (TextValue x) = (text_ok x \<and> length x \<le> k)"
  "column_admits (col n IntegerType b d) (IntValue z) = (- (2 ^ 31) \<le> z \<and> z < 2 ^ 31)"
  "column_admits (col n SmallIntType b d) (IntValue z) = (- (2 ^ 15) \<le> z \<and> z < 2 ^ 15)"
  "column_admits (col n JsonbType b d) JsonValue" "column_admits (col n TimestampType b d) (TimeValue t)"
  "column_admits (primary_col n UuidType) (UuidValue x)" "column_admits (foreign_col n UuidType tab key) (UuidValue x)"
  "column_admits (primary_col n BigIntType) (IntValue z) = (- (2 ^ 63) \<le> z \<and> z < 2 ^ 63)"
  by (simp_all add: column_admits_def col_def primary_col_def foreign_col_def)

lemma nullable_admits [simp]:
  "column_admits (col n TextType True d) (text_value s) = opt_text_ok s"
  "column_admits (col n (VarcharType k) True d) (text_value s) =
     (opt_text_ok s \<and> (case s of None \<Rightarrow> True | Some x \<Rightarrow> length x \<le> k))"
  "column_admits (col n TimestampType True d) (case u of None \<Rightarrow> NullValue | Some x \<Rightarrow> TimeValue x)"
  by (simp_all add: column_admits_def col_def text_value_def opt_text_ok_def split: option.split)

lemma job_state_value_fits [simp]: "text_ok (job_state_value st) \<and> length (job_state_value st) \<le> 20"
  by (cases st) (simp_all add: text_ok_def)

lemma item_status_value_fits [simp]: "text_ok (item_status_value i) \<and> length (item_status_value i) \<le> 20"
  by (cases i) (simp_all add: text_ok_def)

lemmas row_fits_defs = row_fits_def orm_jobs_def orm_items_def migrated_items_def retype_def
  job_values_def item_values_def

text \<open>
  The conditions of \<open>ColumnTypes\<close> are those of the declared columns: the row of a job that
  satisfies \<open>job_typed\<close> fits its table.
\<close>

lemma job_typed_fits: "job_typed j \<Longrightarrow> row_fits orm_jobs (job_values j)"
  by (simp add: row_fits_defs job_typed_def model_column_width_def int4_limit_def)

lemma item_typed_fits:
  assumes "item_typed r" and "i_id r < 2 ^ 63" and "i_attempts r < 2 ^ 15"
    and "opt_text_ok (i_worker_id r)" "opt_text_ok (i_result_ref r)" "opt_text_ok (i_error r)"
    and "case i_chunk_id r of None \<Rightarrow> True | Some c \<Rightarrow> text_ok c \<and> length c \<le> id_column_width"
  shows "row_fits migrated_items (item_values r)"
  using assms
  by (cases "i_chunk_id r"; cases "i_worker_id r")
     (simp_all add: row_fits_defs item_typed_def id_column_width_def opt_text_ok_def)

text \<open>
  Where the declarations differ it shows: with \<open>retry_max_attempts\<close> above 32767 the ORM's type
  admits an attempt count that the migrated column refuses.
\<close>

lemma attempts_beyond_smallint:
  "32768 \<le> rr_attempts res \<Longrightarrow> \<not> row_fits migrated_items (item_values (complete_row res ref now r))"
  by (simp add: row_fits_defs)

section \<open>The migration environment\<close>

text \<open>
  \<open>env.py\<close> as the calls it makes: \<open>ops\<close> is what \<open>context.run_migrations\<close> executes, in
  one transaction, so that a statement the database refuses leaves the catalog as it was; offline the
  statements are only written out. \<open>refused\<close> is the exception of opening the connection, if any.
\<close>

datatype env_call =
    FileConfig string
  | ConfigureOffline string
  | ConfigureOnline
  | BeginTransaction
  | RunMigrations
  | Commit
  | Rollback
  | CreateEngine string
  | OpenConnection
  | CloseConnection
  | DisposeEngine

definition run_migrations_offline :: "string \<Rightarrow> env_call list" where
  "run_migrations_offline url = [ConfigureOffline url, BeginTransaction, RunMigrations, Commit]"

definition do_run_migrations :: "schema_op list \<Rightarrow> catalog \<Rightarrow> (exn + catalog) \<times> env_call list" where
  "do_run_migrations ops c =
     (let r = apply_ops ops c
      in (r, [ConfigureOnline, BeginTransaction, RunMigrations,
              case r of Inl e \<Rightarrow> Rollback | Inr c' \<Rightarrow> Commit]))"

definition run_migrations_online ::
  "string \<Rightarrow> exn option \<Rightarrow> schema_op list \<Rightarrow> catalog \<Rightarrow> (exn + catalog) \<times> env_call list" where
  "run_migrations_online url refused ops c =
     (case refused of
        Some e \<Rightarrow> (Inl e, [CreateEngine url, OpenConnection])
      | None \<Rightarrow>
          (case do_run_migrations ops c of
             (r, calls) \<Rightarrow>
               (r, [CreateEngine url, OpenConnection] @ calls @ [CloseConnection] @
                   (case r of Inl e \<Rightarrow> [] | Inr c' \<Rightarrow> [DisposeEngine]))))"

text \<open>The module: what it ends with, the catalog it leaves, the calls.\<close>

definition migration_env ::
  "string option \<Rightarrow> bool \<Rightarrow> settings \<Rightarrow> exn option \<Rightarrow> schema_op list \<Rightarrow> catalog \<Rightarrow>
   (exn + unit) \<times> catalog \<times> env_call list" where
  "migration_env config_file offline s refused ops c =
     (let start = (case config_file of None \<Rightarrow> [] | Some f \<Rightarrow> [FileConfig f])
      in if offline then (Inr (), c, start @ run_migrations_offline (database_url s))
         else (case run_migrations_online (database_url s) refused ops c of
                 (Inl e, calls) \<Rightarrow> (Inl e, c, start @ calls)
               | (Inr c', calls) \<Rightarrow> (Inr (), c', start @ calls)))"

text \<open>
  Online, the whole migration is applied or nothing; every connection opened is closed; but the engine
  is disposed of only when the migration succeeded.
\<close>

lemma migration_env_online:
  "migration_env config_file False s None ops c = (r, c', calls) \<Longrightarrow>
     (case r of Inl e \<Rightarrow> apply_ops ops c = Inl e \<and> c' = c | Inr _ \<Rightarrow> apply_ops ops c = Inr c') \<and>
     CloseConnection \<in> set calls \<and> (DisposeEngine \<in> set calls \<longleftrightarrow> (\<exists>u. r = Inr u))"
  by (cases "apply_ops ops c"; cases config_file)
     (auto simp: migration_env_def run_migrations_online_def do_run_migrations_def Let_def)

text \<open>A first run makes the two tables; the same migration on top of them is refused and changes nothing.\<close>

lemma migration_env_twice:
  assumes "names_free c" and "migration_env config_file False s None upgrade c = (r, c', calls)"
  shows "r = Inr ()" and "table_names c' = table_names c @ [''jobs'', ''prompt_items'']"
    and "fst (migration_env config_file' False s None upgrade c') = Inl (LibraryError ''DuplicateTable'')"
    and "fst (snd (migration_env config_file' False s None upgrade c')) = c'"
proof -
  obtain t u where up: "apply_ops upgrade c =
      Inr \<lparr>ca_tables = ca_tables c @ [t, u], ca_indexes = ca_indexes c @ [orm_index]\<rparr>"
    and tu: "ta_name t = ''jobs''" "ta_name u = ''prompt_items''"
    using assms(1) by (rule upgrade_applies)
  then have r: "r = Inr ()" and c': "c' = \<lparr>ca_tables = ca_tables c @ [t, u], ca_indexes = ca_indexes c @ [orm_index]\<rparr>"
    using migration_env_online [OF assms(2)] by (auto split: sum.splits)
  have again: "apply_ops upgrade c' = Inl (LibraryError ''DuplicateTable'')"
    by (simp add: upgrade_def c' relation_names_def table_names_def tu)
  show "r = Inr ()" by (rule r)
  show "table_names c' = table_names c @ [''jobs'', ''prompt_items'']" by (simp add: c' table_names_def tu)
  show "fst (migration_env config_file' False s None upgrade c') = Inl (LibraryError ''DuplicateTable'')"
    and "fst (snd (migration_env config_file' False s None upgrade c')) = c'"
    by (simp_all add: migration_env_def run_migrations_online_def do_run_migrations_def Let_def again)
qed

end
