(* ===== verification/DocProps.thy ===== *)
theory DocProps
  imports DocContent Migration
begin

text \<open>
  The document can be built: every table has room for its rows, and the pictures it places are those
  the diagram renderer writes. What it says of the settings, the states and the tables is compared with
  the code.
\<close>

section \<open>The calls\<close>

lemma doc_tables_ok:
  "list_all (call_ok dx) doc_purpose" "list_all (call_ok dx) doc_overview"
  "list_all (call_ok dx) doc_requirements" "list_all (call_ok dx) doc_decisions"
  "list_all (call_ok dx) doc_scaling" "list_all (call_ok dx) doc_principles"
  "list_all (call_ok dx) doc_structure" "list_all (call_ok dx) doc_schema"
  "list_all (call_ok dx) doc_configuration" "list_all (call_ok dx) doc_validation"
  "list_all (call_ok dx) doc_testing" "list_all (call_ok dx) doc_ci"
  "list_all (call_ok dx) doc_deliverables" "list_all (call_ok dx) doc_change_log"
  by (simp_all add: doc_purpose_def doc_overview_def doc_requirements_def doc_decisions_def doc_scaling_def
      doc_principles_def doc_structure_def doc_schema_def doc_configuration_def doc_validation_def
      doc_testing_def doc_ci_def doc_deliverables_def doc_change_log_def)

lemma doc_text_draws_nothing:
  "concat (map drawn doc_purpose) = []" "concat (map drawn doc_overview) = []"
  "concat (map drawn doc_requirements) = []" "concat (map drawn doc_decisions) = []"
  "concat (map drawn doc_scaling) = []" "concat (map drawn doc_principles) = []"
  "concat (map drawn doc_structure) = []" "concat (map drawn doc_schema) = []"
  "concat (map drawn doc_configuration) = []" "concat (map drawn doc_validation) = []"
  "concat (map drawn doc_testing) = []" "concat (map drawn doc_ci) = []"
  "concat (map drawn doc_deliverables) = []" "concat (map drawn doc_change_log) = []"
  by (simp_all add: doc_purpose_def doc_overview_def doc_requirements_def doc_decisions_def doc_scaling_def
      doc_principles_def doc_structure_def doc_schema_def doc_configuration_def doc_validation_def
      doc_testing_def doc_ci_def doc_deliverables_def doc_change_log_def)

text \<open>The pictures, in the order of the document, with whether their page is a wide one.\<close>

definition doc_pictures :: "(string \<times> bool) list" where
  "doc_pictures =
     [(''01_architecture_flow.png'', False), (''02_worker_detail.png'', False),
      (''03_backpressure_sequence.png'', False), (''05_item_state.png'', False),
      (''04_component_diagram.png'', True), (''06_class_uml.png'', True)]"

lemma doc_figures_ok:
  assumes "list_all (\<lambda>p. dx_picture dx (fst p)) doc_pictures"
  shows "list_all (call_ok dx) doc_architecture" "list_all (call_ok dx) doc_worker_detail"
    "list_all (call_ok dx) doc_backpressure" "list_all (call_ok dx) doc_lifecycle"
    "list_all (call_ok dx) doc_landscape_diagrams"
  using assms by (simp_all add: doc_pictures_def doc_architecture_def doc_worker_detail_def doc_backpressure_def
      doc_lifecycle_def doc_landscape_diagrams_def)

lemma doc_figures_drawn:
  "concat (map drawn doc_architecture) @ concat (map drawn doc_worker_detail) @
   concat (map drawn doc_backpressure) @ concat (map drawn doc_lifecycle) @
   concat (map drawn doc_landscape_diagrams) = doc_pictures"
  by (simp add: doc_pictures_def doc_architecture_def doc_worker_detail_def doc_backpressure_def
      doc_lifecycle_def doc_landscape_diagrams_def)

lemma doc_calls_ok:
  "list_all (\<lambda>p. dx_picture dx (fst p)) doc_pictures \<Longrightarrow> list_all (call_ok dx) (concat doc_sections)"
  by (simp add: doc_sections_def doc_tables_ok doc_figures_ok)

lemma doc_calls_drawn: "concat (map drawn (concat doc_sections)) = doc_pictures"
  using doc_figures_drawn by (simp add: doc_sections_def doc_text_draws_nothing)

section \<open>Building the document\<close>

definition styles_ok :: "docx \<Rightarrow> bool" where
  "styles_ok dx \<longleftrightarrow> list_all (dx_style dx) [''Normal'', ''Heading 1'', ''Heading 2'', ''Heading 3'']"

lemma style_fonts_applied:
  "list_all (\<lambda>f. dx_style dx (sf_style f)) fs \<Longrightarrow>
   style_fonts dx fs d = Inr (d\<lparr>dc_fonts := dc_fonts d @ fs\<rparr>)"
  by (induction fs arbitrary: d) simp_all

lemma cover_places: "dc_page (cover d) = dc_page d" "placed (cover d) = placed d"
  by (simp_all add: cover_def centered_def placed_add_blocks List.map_filter_def numeral_eq_Suc)

lemma build_places:
  assumes "styles_ok dx" "template_ok dx" "list_all (\<lambda>p. dx_picture dx (fst p)) doc_pictures"
    and "pg_orientation (dc_page start) = Portrait"
  shows "\<exists>d. build_document dx start = Inr d \<and> pg_orientation (dc_page d) = Portrait \<and>
    placed d = placed start @ doc_pictures"
proof -
  have "style_fonts dx base_styling start = Inr (start\<lparr>dc_fonts := dc_fonts start @ base_styling\<rparr>)"
    using assms(1) by (intro style_fonts_applied) (simp add: styles_ok_def base_styling_def)
  moreover have "placed (start\<lparr>dc_fonts := fs\<rparr>) = placed start" for fs
    by (simp add: placed_def)
  ultimately show ?thesis
    using perform_all_places [OF assms(2) doc_calls_ok [OF assms(3)],
        of "cover (start\<lparr>dc_fonts := dc_fonts start @ base_styling\<rparr>)"] assms(4)
    by (simp add: build_document_def cover_places doc_calls_drawn)
qed

text \<open>The sources in \<open>docs/diagrams\<close>.\<close>

definition diagram_sources :: "string list" where
  "diagram_sources =
     [''01_architecture_flow.mmd'', ''02_worker_detail.mmd'', ''03_backpressure_sequence.mmd'',
      ''04_component_diagram.mmd'', ''05_item_state.mmd'', ''06_class_uml.mmd'']"

lemma doc_pictures_rendered:
  "fst ` set doc_pictures \<subseteq> png_name ` {n \<in> set diagram_sources. is_diagram n}"
proof -
  have "map (\<lambda>p. fst p) doc_pictures =
      map png_name [''01_architecture_flow.mmd'', ''02_worker_detail.mmd'', ''03_backpressure_sequence.mmd'',
        ''05_item_state.mmd'', ''04_component_diagram.mmd'', ''06_class_uml.mmd'']"
    by (simp add: doc_pictures_def png_name_def)
  moreover have "list_all is_diagram diagram_sources"
    by (simp add: diagram_sources_def is_diagram_def)
  then have "{n \<in> set diagram_sources. is_diagram n} = set diagram_sources" by (auto simp: list_all_iff)
  ultimately show ?thesis by (simp add: diagram_sources_def flip: set_map)
qed


definition demo_docx :: docx where
  "demo_docx = \<lparr>dx_style = (\<lambda>s. s \<noteq> ''Light Grid Accent 1''),
     dx_picture = (\<lambda>n. n \<in> png_name ` set diagram_sources), dx_new_page = (\<lambda>p. p), dx_refused = []\<rparr>"

definition demo_start :: document where
  "demo_start = \<lparr>dc_fonts = [], dc_parts = [],
     dc_page = \<lparr>pg_orientation = Portrait, pg_width = 12240, pg_height = 15840\<rparr>, dc_blocks = []\<rparr>"


section \<open>What the document says of the code\<close>

text \<open>The first two cells of the rows of a section's tables, as a map, and the columns a table names.\<close>

fun table_cells :: "doc_call \<Rightarrow> (string \<times> string) list" where
  "table_cells (Table headers rows widths) = map (\<lambda>row. (row ! 0, row ! 1)) rows"
| "table_cells _ = []"

definition documented :: "doc_call list \<Rightarrow> string \<Rightarrow> string option" where
  "documented cs = map_of (concat (map table_cells cs))"

definition documented_columns :: "doc_call \<Rightarrow> string list" where
  "documented_columns c =
     concat (map (\<lambda>(name, _). split_slash [] (filter (\<lambda>x. x \<noteq> CHR '' '') name)) (table_cells c))"

text \<open>\<open>str\<close> of a float with an integral value.\<close>

definition float_str :: "rat \<Rightarrow> string" where
  "float_str r = int_str \<lfloor>r\<rfloor> @ ''.0''"

lemma setting_texts:
  "int_str 4 = ''4''" "int_str 10 = ''10''" "nat_str 50 = ''50''" "int_str 5 = ''5''" "int_str 120 = ''120''"
  "int_str 1 = ''1''" "int_str 2 = ''2''" "int_str 30 = ''30''"
  by code_simp+

text \<open>The defaults the configuration table lists are the defaults of \<open>Settings\<close>.\<close>

lemma documented_defaults:
  "documented doc_configuration ''LLM_BASE_URL'' = Some (llm_base_url default_settings)"
  "documented doc_configuration ''LLM_MODEL'' = Some (llm_model default_settings)"
  "documented doc_configuration ''WORKER_POOL_SIZE'' = Some (int_str (worker_pool_size default_settings))"
  "documented doc_configuration ''MAX_CONCURRENCY'' = Some (int_str (max_concurrency default_settings))"
  "documented doc_configuration ''CHUNK_SIZE'' = Some (nat_str (chunk_size default_settings))"
  "documented doc_configuration ''RETRY_MAX_ATTEMPTS'' = Some (int_str (retry_max_attempts default_settings))"
  "documented doc_configuration ''RETRY_BASE / FACTOR / CAP'' = Some (py_join '' / ''
     (map float_str [retry_base default_settings, retry_factor default_settings, retry_cap default_settings]))"
  "documented doc_configuration ''LEASE_TTL_SECONDS'' = Some (int_str (lease_ttl_seconds default_settings))"
  "documented doc_configuration ''STORAGE_BACKEND'' = Some (storage_backend default_settings)"
  by (simp_all add: documented_def doc_configuration_def default_settings_def float_str_def setting_texts)

text \<open>
  The columns of the two schema tables are columns of the models, in their order; left out are
  \<open>jobs.error\<close> and the time stamps of the items.
\<close>

lemma documented_schema:
  "documented_columns (doc_schema ! 2) = filter (\<lambda>n. n \<noteq> ''error'') (map co_name (ta_columns orm_jobs))"
  "documented_columns (doc_schema ! 4) =
     filter (\<lambda>n. n \<noteq> ''created_at'' \<and> n \<noteq> ''updated_at'') (map co_name (ta_columns orm_items))"
  by (simp_all add: documented_columns_def doc_schema_def orm_jobs_def orm_items_def)

text \<open>The states the schema tables list are the members of the two enums.\<close>

definition note_of :: "string \<Rightarrow> doc_call \<Rightarrow> string option" where
  "note_of name c =
     (case c of
        Table headers rows widths \<Rightarrow> map_option (\<lambda>row. row ! 2) (find (\<lambda>row. row ! 0 = name) rows)
      | _ \<Rightarrow> None)"

lemma documented_states:
  "note_of ''state'' (doc_schema ! 2) = Some (py_join '' / '' (map job_state_value job_states) @ ''.'')"
  "note_of ''status'' (doc_schema ! 4) = Some (py_join '' / '' (map item_status_value item_statuses) @ ''.'')"
  by (simp_all add: note_of_def doc_schema_def job_states_def item_statuses_def)

text \<open>The headings are numbered in their order, but 7.3 comes after 7.6.\<close>

definition headings :: "doc_call list \<Rightarrow> string list" where
  "headings cs = concat (map (\<lambda>c. case c of
     H2 t \<Rightarrow> [take 3 t] | LandscapeImage name t width_in cap \<Rightarrow> [take 3 t] | _ \<Rightarrow> []) cs)"

lemma low_level_headings:
  "headings (concat [doc_principles, doc_structure, doc_schema, doc_configuration, doc_validation,
     doc_landscape_diagrams]) = [''7.1'', ''7.2'', ''7.4'', ''7.5'', ''7.6'', ''7.3'', ''7.7'']"
  by (simp add: headings_def doc_principles_def doc_structure_def doc_schema_def doc_configuration_def
      doc_validation_def doc_landscape_diagrams_def)

end
