(* ===== verification/Spec2Isabelle.thy ===== *)
theory Spec2Isabelle
  imports Interleave LogContext WorkerRefine EngineDup EngineOnce Restart Isolation HttpProps Composition SampleBatch DocProps
begin

text \<open>
  Verification of the batch processing service.

  A job names a JSON file of prompts. \<open>JobService.submit\<close> checks it and records a job; in the
  background \<open>BatchIngestor\<close> streams the objects through the validation pipeline into the table
  \<open>prompt_items\<close>, and \<open>BatchEngine\<close> runs a pool of \<open>Worker\<close>s. A worker claims a
  chunk of rows under a lease (\<open>FOR UPDATE SKIP LOCKED\<close>), sends each row to the inference client
  with retries, writes the chunk's results as one object of the result store and commits the rows to
  \<open>SUCCEEDED\<close> or \<open>FAILED\<close>. Statuses are read from the tables, downloads from the store. The
  HTTP interface, further worker processes and the log sit around this.

  \<^bold>\<open>Theories\<close>, in the order of the program's layers:

    \<^item> \<open>Prelude\<close>: Python strings (\<open>strip\<close>, \<open>splitlines\<close>, \<open>join\<close>,
      \<open>str(int)\<close>), SQL's \<open>UPDATE\<close> over lists of rows (\<open>sql_update\<close>), counting.
    \<^item> \<open>Domain\<close>: \<open>app/domain\<close>, \<open>app/core/exceptions.py\<close> and
      \<open>app/core/config.py\<close>. An exception is a value of \<open>exn\<close>, a fallible call returns
      \<open>exn + 'a\<close>.
    \<^item> \<open>Validation\<close>: \<open>app/services/validation\<close>, with a locale for the port of a
      rule, and the estimates of \<open>app/utils\<close>.
    \<^item> \<open>Schema\<close>: \<open>app/infrastructure/db/models.py\<close> and the migration; \<open>db_wf\<close>
      is the invariant of the tables.
    \<^item> \<open>WorkQueue\<close>, \<open>QueueLaws\<close>, \<open>QueueProps\<close>:
      \<open>work_queue_repository.py\<close>, one function per statement. \<open>item_view\<close> (waiting, held,
      finished) is the abstract queue that every statement is proved to refine; the locales
      \<open>work_queue\<close> and \<open>draining_queue\<close> state the laws and are interpreted on the
      statements.
    \<^item> \<open>JobRepo\<close>: \<open>job_repository.py\<close>.
    \<^item> \<open>Retry\<close>, \<open>Inference\<close>, \<open>Limiter\<close>: \<open>app/engine/retry.py\<close>, the two
      clients, and \<open>app/engine/concurrency.py\<close> as a step machine over \<open>asyncio.Semaphore\<close>.
    \<^item> \<open>JsonCodec\<close>, \<open>Storage\<close>, \<open>StorageProps\<close>: the result store. The JSON
      serializer and parser are parameters under the locale \<open>record_codec\<close>, which the codec of
      \<open>JsonCodec\<close> satisfies; \<open>result_storage\<close> is the port of the store.
    \<^item> \<open>Worker\<close>, \<open>WorkerProps\<close>: \<open>app/engine/worker.py\<close> for one worker: the retry
      loop of a row against its specification, the counters, and the loop \<open>run\<close>, which returns
      over any queue that keeps the port's laws.
    \<^item> \<open>Interleave\<close>: the rows of all chunks as tasks that share the limiter and the counters;
      every interleaving ends, within the ceiling, with what the sequential chunk computes.
    \<^item> \<open>Engine\<close>, \<open>EngineInv\<close>, \<open>EngineProps\<close>, \<open>EngineRun\<close>:
      \<open>app/engine/batch_engine.py\<close>. \<open>pool_step\<close> is one action of one worker (claim, process,
      flush, commit, heartbeat, crash, the clock); \<open>pool_reach\<close> is every interleaving.
      \<open>pool_inv\<close> is its invariant, from which durability, finality and draining follow.
    \<^item> \<open>WorkerRefine\<close>, \<open>EngineDup\<close>, \<open>EngineOnce\<close>: the loop of one
      worker is a run of the pool; a crash between flush and commit stores the redone rows twice,
      and without one, with leases that outlast the work, every row is stored once.
    \<^item> \<open>Ingestor\<close>, \<open>IngestProps\<close>, \<open>IngestClean\<close>:
      \<open>app/services/ingestor.py\<close>: what a successful ingestion has done, that repeating it changes
      nothing, and that a clean file is always ingested.
    \<^item> \<open>JobService\<close>, \<open>ServiceProps\<close>, \<open>ServiceInv\<close>, \<open>RequestProps\<close>:
      \<open>app/services/job_service.py\<close>: execution from ingestion to the final state, also after a
      restart; the tables' invariant along it, through the locale \<open>kept_by_statements\<close>; submission, resumption and download.
    \<^item> \<open>Restart\<close>, \<open>ColumnTypes\<close>: what a restart within the lease of a dead worker does
      to its rows; the values in the tables fit their columns.
    \<^item> \<open>Logging\<close>, \<open>LogContext\<close>: \<open>app/core/logging.py\<close> and \<open>observability.py\<close>;
      the correlation ids of tasks that run side by side.
    \<^item> \<open>HttpApi\<close>, \<open>HttpProps\<close>: \<open>app/main.py\<close>, \<open>app/api\<close>: routes,
      exception handlers, middleware.
    \<^item> \<open>Ports\<close>, \<open>Isolation\<close>: \<open>app/interfaces\<close> as records of operations, the adapters
      and the objects the constructors build over them. The locale \<open>queue_simulation\<close> relates two
      queues that a worker cannot tell apart; interpreted on PostgreSQL it shows that a worker depends
      on no row of another job and changes none.
    \<^item> \<open>Composition\<close>: \<open>app/composition.py\<close>, the object graph, the cached singletons, the
      client factory and \<open>workers/run_worker.py\<close>.
    \<^item> \<open>Migration\<close>: the tables as \<open>models.py\<close> and as \<open>0001_initial.py\<close> declare them,
      what the migration does to a catalog, \<open>migrations/env.py\<close>, and rows as values of the columns.
    \<^item> \<open>SampleBatch\<close>: \<open>scripts/generate_sample_batch.py\<close> and that the pipeline accepts
      what it generates.
    \<^item> \<open>Tools\<close>: the manual drivers from submission to exit code, and the diagram renderer.
    \<^item> \<open>DocBuilder\<close>, \<open>DocContent\<close>, \<open>DocProps\<close>: \<open>scripts/build_doc.py\<close>: the
      helpers, the text, that the document is built from the rendered diagrams, and where its
      statements on settings, states and tables agree with the code.

  \<^bold>\<open>Conventions.\<close> A code point is a \<open>char\<close>, so code points above 255 are outside the
  model. Floats are rationals; the range of a float shows only in \<open>factor ** attempt\<close>, where it is
  modelled. Time is in microseconds. \<open>chunk_size\<close>, \<open>attempts\<close> and \<open>total_items\<close> are
  natural numbers, column ranges are checked where the code can exceed them. Random draws, clock
  readings, fresh ids, the client's answers, the objects \<open>ijson\<close> yields and the schedule of the
  workers are arguments, so a theorem holds for all of them.

  \<^bold>\<open>Fuel.\<close> \<open>worker_run\<close> takes one unit per round;
  \<open>single_worker_finishes_job\<close> shows that one more than the number of rows is enough. The retry
  loop recurses on the attempts left and the pool on its schedule; nothing else needs fuel.

  \<^bold>\<open>Assumed of the surroundings.\<close> A statement of the repositories is one transaction and
  the database answers it. Claims are atomic in the pool; \<open>concurrent_claims_serialize\<close> shows that
  overlapping claims behave so. \<open>uuid4\<close> does not repeat a chunk id. \<open>bulk_insert\<close> passes
  SQLAlchemy one list of dictionaries in which only those of rejected rows have the key
  \<open>error\<close>; each is read as inserting its own keys, the other columns null. No property depends on
  the error text of a rejected row. Worker ids differ and fit their column
  (\<open>worker_ids_distinct_and_fit\<close>; \<open>long_host_does_not_fit\<close> says when they do not), and
  the error texts and attempt counts a completion writes are values their columns can hold.

  \<^bold>\<open>Not modelled.\<close> The text of JSON (a parameter), FastAPI's routing and parsing, the
  rendering of \<open>/metrics\<close>, the writing of log lines, the construction of the database engine and
  of the \<open>openai\<close> client, the S3 backend beyond its skeleton (every operation raises), failures of
  the database or the disk in mid-operation, what \<open>python-docx\<close> and Alembic do with the calls
  made of them, and the messages the scripts print beside their results.
\<close>

end
